(* ===== verification/Prelude.thy ===== *)
theory Prelude
  imports Main "HOL-Library.Sublist"
begin

text \<open>
  Shared vocabulary of the development: Go errors and fallible results, the automation
  collections, and the generic facts about lists and association lists that the
  components use.

  A Go \<open>error\<close> is a value of \<open>go_error\<close>; a function returning \<open>(T, error)\<close> is modelled as
  \<open>go_error + T\<close>, \<open>Inl\<close> for a non-nil error. Messages the code writes itself are kept
  literally. The text of an error the standard library produces (a JSON syntax error, say)
  is not modelled; \<open>JsonError\<close> stands for it. \<open>fmt.Errorf("... %q", s)\<close> is \<open>ErrorQ\<close> with the
  unquoted value, \<open>fmt.Errorf("... %w", err)\<close> is \<open>Wrap\<close>, and \<open>fmt.Errorf("... %q: %w", s, err)\<close>
  is \<open>WrapQ\<close>.
  \<open>Panic\<close> is a run-time panic, which unwinds through every caller. \<open>StatusErr\<close> is the provider's
  \<open>*StatusError\<close>: code, message, HTTP status and whether the call may be retried.
\<close>

datatype go_error =
    ErrorText string
  | ErrorQ string string
  | JsonError
  | WrapQ string string go_error
  | Wrap string go_error
  | Panic string
  | StatusErr string string int bool

type_synonym 'a res = "go_error + 'a"

named_theorems go_str \<open>facts about the Go string functions\<close>
named_theorems json_get \<open>reading fields of JSON objects\<close>
named_theorems frame_simps \<open>evaluation of stream operations\<close>

definition is_ok :: "'a res \<Rightarrow> bool" where
  "is_ok r = (case r of Inl _ \<Rightarrow> False | Inr _ \<Rightarrow> True)"

lemma is_ok_simps [simp]: "is_ok (Inl e) = False" "is_ok (Inr x) = True"
  by (simp_all add: is_ok_def)

text \<open>\<open>for\<close> loops that may return an error: the body maps one element, the loop stops at
  the first error.\<close>

fun map_res :: "('a \<Rightarrow> 'b res) \<Rightarrow> 'a list \<Rightarrow> 'b list res" where
  "map_res f [] = Inr []"
| "map_res f (x # xs) =
     (case f x of Inl e \<Rightarrow> Inl e
      | Inr y \<Rightarrow> (case map_res f xs of Inl e \<Rightarrow> Inl e | Inr ys \<Rightarrow> Inr (y # ys)))"

lemma map_res_length: "map_res f xs = Inr ys \<Longrightarrow> length ys = length xs"
  by (induction xs arbitrary: ys) (auto split: sum.splits)

lemma map_res_append:
  "map_res f (xs @ ys) =
     (case map_res f xs of Inl e \<Rightarrow> Inl e
      | Inr us \<Rightarrow> (case map_res f ys of Inl e \<Rightarrow> Inl e | Inr vs \<Rightarrow> Inr (us @ vs)))"
  by (induction xs) (auto split: sum.splits)

subsection \<open>Mutable maps as association lists\<close>

text \<open>
  A Go map whose values are pointers to mutable records is an association list from keys to
  records, in order of first insertion: \<open>alist_set\<close> replaces the value of a key in place or
  adds it at the end, so a key occurs once.
\<close>

fun alist_set :: "'k \<Rightarrow> 'v \<Rightarrow> ('k \<times> 'v) list \<Rightarrow> ('k \<times> 'v) list" where
  "alist_set k v [] = [(k, v)]"
| "alist_set k v ((k', v') # r) =
     (if k = k' then (k, v) # r else (k', v') # alist_set k v r)"

lemma map_of_alist_set [simp]:
  "map_of (alist_set k v m) k' = (if k' = k then Some v else map_of m k')"
  by (induction m) auto

lemma keys_alist_set:
  "map fst (alist_set k v m) = (if map_of m k = None then map fst m @ [k] else map fst m)"
  by (induction m) auto

lemma distinct_alist_set [simp]:
  "distinct (map fst (alist_set k v m)) = distinct (map fst m)"
  by (auto simp: keys_alist_set map_of_eq_None_iff)

lemma length_alist_set:
  "length (alist_set k v m) = (if map_of m k = None then Suc (length m) else length m)"
  by (induction m) auto

lemma alist_set_new: "map_of m k = None \<Longrightarrow> alist_set k v m = m @ [(k, v)]"
  by (induction m) auto

lemma map_of_distinct_iff:
  "distinct (map fst m) \<Longrightarrow> (k, v) \<in> set m \<longleftrightarrow> map_of m k = Some v"
  by simp

subsection \<open>Lists\<close>

lemma take_append_drop_split: "n \<le> length xs \<Longrightarrow> xs = take n xs @ drop n xs"
  by simp

lemma concat_butlast_last: "xs \<noteq> [] \<Longrightarrow> concat xs = concat (butlast xs) @ last xs"
  by (induction xs) auto

end
