(* ===== verification/Go_Strings.thy ===== *)
theory Go_Strings
  imports Prelude "HOL-Library.Char_ord" "HOL-Library.List_Lexorder" "HOL-Library.Word"
begin

text \<open>
  Go strings and byte slices are byte sequences; both are \<open>string\<close>, whose characters are
  bytes (a code point beyond ASCII is several of them, its UTF-8 encoding). This theory
  holds the functions of the packages \<open>strings\<close>, \<open>bytes\<close> and \<open>strconv\<close> that the program calls.
\<close>

subsection \<open>Character classes\<close>

definition byte :: "char \<Rightarrow> nat" where
  "byte c = of_char c"

definition is_digit :: "char \<Rightarrow> bool" where
  "is_digit c \<longleftrightarrow> 48 \<le> byte c \<and> byte c \<le> 57"

definition ascii_lower :: "char \<Rightarrow> char" where
  "ascii_lower c = (if 65 \<le> byte c \<and> byte c \<le> 90 then char_of (byte c + 32) else c)"

text \<open>
  \<open>space_len s\<close> is the number of bytes of the white-space rune at the front of \<open>s\<close>
  (\<open>unicode.IsSpace\<close> on its UTF-8 encoding), 0 when the front is no white space.
  \<open>space_rlen\<close> reads the reversed string, for the runes at its end.
\<close>

definition ascii_space :: "char \<Rightarrow> bool" where
  "ascii_space c \<longleftrightarrow> c = CHR 0x20 \<or> (9 \<le> byte c \<and> byte c \<le> 13)"

definition space2 :: "char \<Rightarrow> char \<Rightarrow> bool" where
  "space2 a b \<longleftrightarrow> a = CHR 0xC2 \<and> (b = CHR 0x85 \<or> b = CHR 0xA0)"

definition space3 :: "char \<Rightarrow> char \<Rightarrow> char \<Rightarrow> bool" where
  "space3 a b c \<longleftrightarrow>
     (a = CHR 0xE1 \<and> b = CHR 0x9A \<and> c = CHR 0x80) \<or>
     (a = CHR 0xE2 \<and> b = CHR 0x80 \<and>
        ((128 \<le> byte c \<and> byte c \<le> 138) \<or> c = CHR 0xA8 \<or> c = CHR 0xA9 \<or> c = CHR 0xAF)) \<or>
     (a = CHR 0xE2 \<and> b = CHR 0x81 \<and> c = CHR 0x9F) \<or>
     (a = CHR 0xE3 \<and> b = CHR 0x80 \<and> c = CHR 0x80)"

fun space_len :: "string \<Rightarrow> nat" where
  "space_len [] = 0"
| "space_len (a # r) =
     (if ascii_space a then 1 else
      (case r of [] \<Rightarrow> 0
       | b # r' \<Rightarrow>
           if space2 a b then 2 else
           (case r' of [] \<Rightarrow> 0 | c # _ \<Rightarrow> if space3 a b c then 3 else 0)))"

fun space_rlen :: "string \<Rightarrow> nat" where
  "space_rlen [] = 0"
| "space_rlen (a # r) =
     (if ascii_space a then 1 else
      (case r of [] \<Rightarrow> 0
       | b # r' \<Rightarrow>
           if space2 b a then 2 else
           (case r' of [] \<Rightarrow> 0 | c # _ \<Rightarrow> if space3 c b a then 3 else 0)))"

lemma space_len_le: "space_len s \<le> length s"
  by (cases s) (auto split: list.splits)

function trim_left :: "string \<Rightarrow> string" where
  "trim_left s = (if space_len s = 0 then s else trim_left (drop (space_len s) s))"
  by pat_completeness auto
termination
proof (relation "measure length")
  fix s :: string
  assume "space_len s \<noteq> 0"
  then have "s \<noteq> []" by auto
  with \<open>space_len s \<noteq> 0\<close> show "(drop (space_len s) s, s) \<in> measure length" by simp
qed simp

function rtrim_left :: "string \<Rightarrow> string" where
  "rtrim_left s = (if space_rlen s = 0 then s else rtrim_left (drop (space_rlen s) s))"
  by pat_completeness auto
termination
proof (relation "measure length")
  fix s :: string
  assume "space_rlen s \<noteq> 0"
  then have "s \<noteq> []" by auto
  with \<open>space_rlen s \<noteq> 0\<close> show "(drop (space_rlen s) s, s) \<in> measure length" by simp
qed simp

declare trim_left.simps [simp del] rtrim_left.simps [simp del]

definition trim_right :: "string \<Rightarrow> string" where
  "trim_right s = rev (rtrim_left (rev s))"

text \<open>\<open>strings.TrimSpace\<close> and \<open>bytes.TrimSpace\<close>.\<close>

definition TrimSpace :: "string \<Rightarrow> string" where
  "TrimSpace s = trim_right (trim_left s)"

text \<open>Trimming: the result starts and ends with no white space, and trimming it again
  changes nothing.\<close>

lemma space_len_append: "space_len s \<noteq> 0 \<Longrightarrow> space_len (s @ t) \<noteq> 0"
  by (cases s) (auto split: list.splits if_splits)

lemma space_rlen_append: "space_rlen s \<noteq> 0 \<Longrightarrow> space_rlen (s @ t) \<noteq> 0"
  by (cases s) (auto split: list.splits if_splits)

lemma trim_left_fix: "space_len s = 0 \<Longrightarrow> trim_left s = s"
  by (subst trim_left.simps) simp

lemma rtrim_left_fix: "space_rlen s = 0 \<Longrightarrow> rtrim_left s = s"
  by (subst rtrim_left.simps) simp

lemma space_len_trim_left [simp]: "space_len (trim_left s) = 0"
proof (induction s rule: trim_left.induct)
  case (1 s)
  then show ?case by (cases "space_len s = 0") (simp_all add: trim_left.simps [of s])
qed

lemma space_rlen_rtrim_left [simp]: "space_rlen (rtrim_left s) = 0"
proof (induction s rule: rtrim_left.induct)
  case (1 s)
  then show ?case by (cases "space_rlen s = 0") (simp_all add: rtrim_left.simps [of s])
qed

lemma rtrim_left_suffix: "\<exists>u. s = u @ rtrim_left s"
proof (induction s rule: rtrim_left.induct)
  case (1 s)
  show ?case
  proof (cases "space_rlen s = 0")
    case True
    then show ?thesis by (simp add: rtrim_left_fix)
  next
    case False
    with 1 obtain u where "drop (space_rlen s) s = u @ rtrim_left (drop (space_rlen s) s)" by blast
    with False have "s = (take (space_rlen s) s @ u) @ rtrim_left s"
      by (metis append.assoc append_take_drop_id rtrim_left.simps)
    then show ?thesis by blast
  qed
qed

lemma trim_right_prefix: "\<exists>u. s = trim_right s @ u"
  using rtrim_left_suffix [of "rev s"] unfolding trim_right_def
  by (metis rev_append rev_rev_ident)

lemma space_len_TrimSpace [simp]: "space_len (TrimSpace s) = 0"
proof -
  obtain u where "trim_left s = trim_right (trim_left s) @ u"
    using trim_right_prefix by blast
  then show ?thesis
    unfolding TrimSpace_def by (metis space_len_append space_len_trim_left)
qed

lemma space_rlen_rev_TrimSpace [simp]: "space_rlen (rev (TrimSpace s)) = 0"
  by (simp add: TrimSpace_def trim_right_def)

lemma TrimSpace_fix: "space_len s = 0 \<Longrightarrow> space_rlen (rev s) = 0 \<Longrightarrow> TrimSpace s = s"
  by (simp add: TrimSpace_def trim_right_def trim_left_fix rtrim_left_fix)

lemma TrimSpace_idem [simp]: "TrimSpace (TrimSpace s) = TrimSpace s"
  by (rule TrimSpace_fix) simp_all

lemma TrimSpace_Nil [simp]: "TrimSpace [] = []"
  by (rule TrimSpace_fix) simp_all

text \<open>A string of printable ASCII bytes that starts and ends with a non-blank is its own trimming.\<close>

definition graphic :: "char \<Rightarrow> bool" where
  "graphic c \<longleftrightarrow> 33 \<le> byte c \<and> byte c \<le> 126"

lemma graphic_neq: "graphic c \<Longrightarrow> \<not> graphic d \<Longrightarrow> c \<noteq> d"
  by blast

lemma not_graphic_spaces:
  "\<not> graphic (CHR 0x20)" "\<not> graphic (CHR 0xC2)" "\<not> graphic (CHR 0xE1)" "\<not> graphic (CHR 0xE2)"
  "\<not> graphic (CHR 0xE3)" "\<not> graphic (CHR 0x85)" "\<not> graphic (CHR 0xA0)" "\<not> graphic (CHR 0x80)"
  "\<not> graphic (CHR 0xA8)" "\<not> graphic (CHR 0xA9)" "\<not> graphic (CHR 0xAF)" "\<not> graphic (CHR 0x9F)"
  by (simp_all add: graphic_def byte_def)

lemma graphic_no_space:
  assumes "graphic c"
  shows "\<not> ascii_space c" "\<not> space2 c d" "\<not> space2 d c" "\<not> space3 c d e" "\<not> space3 d e c"
proof -
  note neq = not_graphic_spaces [THEN graphic_neq [OF assms]]
  have "\<not> byte c \<le> 13" "\<not> 128 \<le> byte c"
    using assms by (auto simp: graphic_def)
  with neq show "\<not> ascii_space c" "\<not> space2 c d" "\<not> space2 d c" "\<not> space3 c d e" "\<not> space3 d e c"
    by (simp_all only: ascii_space_def space2_def space3_def simp_thms)
qed

lemma graphic_front: "graphic c \<Longrightarrow> space_len (c # s) = 0"
  by (simp add: graphic_no_space split: list.split)

lemma graphic_back: "graphic c \<Longrightarrow> space_rlen (c # s) = 0"
  by (simp add: graphic_no_space split: list.split)

lemma TrimSpace_graphic:
  assumes "graphic (hd s)" "graphic (last s)" "s \<noteq> []"
  shows "TrimSpace s = s"
proof (rule TrimSpace_fix)
  show "space_len s = 0" using assms(1,3) by (cases s) (simp_all add: graphic_front del: space_len.simps)
  obtain u c where "s = u @ [c]" using assms(3) by (metis append_butlast_last_id)
  then show "space_rlen (rev s) = 0" using assms(2) by (simp add: graphic_back del: space_rlen.simps)
qed

subsection \<open>Case folding\<close>

text \<open>
  \<open>strings.ToLower\<close>. ASCII letters are lowered, and so are the two runes beyond ASCII whose
  lower case is an ASCII letter (U+0130 to \<open>i\<close>, U+212A to \<open>k\<close>). The library also lowers the other
  letters beyond ASCII, and puts U+FFFD for bytes that are not UTF-8; the model leaves both as they
  are, for it has no tables of Unicode. No comparison with an ASCII constant can see the difference; a model
  name or an excluded prefix with such letters can.
  \<open>EqualFold\<close> compares after folding, which maps ASCII letters and the two runes that fold to an
  ASCII letter (the long s and the Kelvin sign); this is the comparison of the library whenever
  one of the strings is ASCII.
\<close>

fun ToLower :: "string \<Rightarrow> string" where
  "ToLower [] = []"
| "ToLower (c # r) =
     (if c = CHR 0xC4 \<and> take 1 r = [CHR 0xB0] then CHR ''i'' # ToLower (drop 1 r)
      else if c = CHR 0xE2 \<and> take 2 r = [CHR 0x84, CHR 0xAA] then CHR ''k'' # ToLower (drop 2 r)
      else ascii_lower c # ToLower r)"

fun fold_name :: "string \<Rightarrow> string" where
  "fold_name [] = []"
| "fold_name (c # r) =
     (if c = CHR 0xC5 \<and> take 1 r = [CHR 0xBF] then CHR ''s'' # fold_name (drop 1 r)
      else if c = CHR 0xE2 \<and> take 2 r = [CHR 0x84, CHR 0xAA] then CHR ''k'' # fold_name (drop 2 r)
      else ascii_lower c # fold_name r)"

definition EqualFold :: "string \<Rightarrow> string \<Rightarrow> bool" where
  "EqualFold s t \<longleftrightarrow> fold_name s = fold_name t"

lemma EqualFold_refl [simp]: "EqualFold s s"
  by (simp add: EqualFold_def)

lemma EqualFold_sym: "EqualFold s t \<Longrightarrow> EqualFold t s"
  by (simp add: EqualFold_def)

text \<open>A byte that is no small ASCII letter is in the lowered text only where it was before, so lowering
  neither makes nor takes away white space at an end, and lowering twice changes nothing more.\<close>

definition unlowered :: "char \<Rightarrow> bool" where
  "unlowered c \<longleftrightarrow> \<not> (97 \<le> byte c \<and> byte c \<le> 122)"

lemma ascii_lower_unlowered: "unlowered (ascii_lower c) \<Longrightarrow> ascii_lower c = c"
  by (auto simp: unlowered_def ascii_lower_def byte_def split: if_splits)

lemma not_unlowered: "\<not> unlowered (CHR ''i'')" "\<not> unlowered (CHR ''k'')"
  by (simp_all add: unlowered_def byte_def)

lemma ToLower_hd: "ToLower s = c # t \<Longrightarrow> unlowered c \<Longrightarrow> \<exists>s'. s = c # s' \<and> ToLower s' = t"
  by (cases s) (auto simp: not_unlowered dest: ascii_lower_unlowered split: if_splits)

lemma ToLower_front: "ToLower s = v @ t \<Longrightarrow> list_all unlowered v \<Longrightarrow> \<exists>s'. s = v @ s' \<and> ToLower s' = t"
  by (induction v arbitrary: s) (auto dest!: ToLower_hd)

lemma ToLower_Nil: "ToLower s = [] \<longleftrightarrow> s = []"
  by (cases s) simp_all

lemma ToLower_back: "ToLower s = u @ v \<Longrightarrow> list_all unlowered v \<Longrightarrow> \<exists>u'. s = u' @ v"
proof (induction s arbitrary: u rule: ToLower.induct)
  case step: (2 c r)
  show ?case
  proof (cases u)
    case Nil
    with ToLower_front [of "c # r" v "[]"] step(4,5) show ?thesis by (simp add: ToLower_Nil)
  next
    case (Cons x w)
    consider "c = CHR 0xC4" "take 1 r = [CHR 0xB0]" | "c = CHR 0xE2" "take 2 r = [CHR 0x84, CHR 0xAA]"
      | "\<not> (c = CHR 0xC4 \<and> take 1 r = [CHR 0xB0])" "\<not> (c = CHR 0xE2 \<and> take 2 r = [CHR 0x84, CHR 0xAA])"
      by blast
    then show ?thesis
    proof cases
      case 1
      with step(4) Cons have "ToLower (drop 1 r) = w @ v" by simp
      with step(1) 1 step(5) obtain u' where "drop 1 r = u' @ v" by blast
      then have "c # r = (c # take 1 r @ u') @ v" by (metis append_Cons append_assoc append_take_drop_id)
      then show ?thesis by blast
    next
      case 2
      with step(4) Cons have "ToLower (drop 2 r) = w @ v" by simp
      with step(2) 2 step(5) obtain u' where "drop 2 r = u' @ v" by blast
      then have "c # r = (c # take 2 r @ u') @ v" by (metis append_Cons append_assoc append_take_drop_id)
      then show ?thesis by blast
    next
      case 3
      with step(4) Cons have "ToLower r = w @ v" by auto
      with step(3) 3 step(5) obtain u' where "r = u' @ v" by blast
      then have "c # r = (c # u') @ v" by simp
      then show ?thesis by blast
    qed
  qed
qed auto

lemma space_unlowered:
  "ascii_space c \<Longrightarrow> unlowered c" "space2 a b \<Longrightarrow> unlowered a \<and> unlowered b"
  "space3 a b c \<Longrightarrow> unlowered a \<and> unlowered b \<and> unlowered c"
  by (auto simp: unlowered_def ascii_space_def space2_def space3_def byte_def)

lemma space_front:
  assumes "space_len s \<noteq> 0"
  shows "\<exists>v t. s = v @ t \<and> list_all unlowered v \<and> space_len v \<noteq> 0"
proof -
  obtain a r where s: "s = a # r" using assms by (cases s) auto
  consider "ascii_space a" | b r' where "\<not> ascii_space a" "r = b # r'" "space2 a b"
    | b c r' where "\<not> ascii_space a" "r = b # c # r'" "\<not> space2 a b" "space3 a b c"
    using assms s by (auto split: list.splits if_splits)
  then show ?thesis
  proof cases
    case 1
    then show ?thesis using s by (intro exI [of _ "[a]"] exI [of _ r]) (simp add: space_unlowered)
  next
    case (2 b r')
    then show ?thesis using s by (intro exI [of _ "[a, b]"] exI [of _ r']) (simp add: space_unlowered(2))
  next
    case (3 b c r')
    then show ?thesis using s space_unlowered(3) [OF 3(4)] by (intro exI [of _ "[a, b, c]"] exI [of _ r']) simp
  qed
qed

lemma space_back:
  assumes "space_rlen s \<noteq> 0"
  shows "\<exists>v t. s = v @ t \<and> list_all unlowered v \<and> space_rlen v \<noteq> 0"
proof -
  obtain a r where s: "s = a # r" using assms by (cases s) auto
  consider "ascii_space a" | b r' where "\<not> ascii_space a" "r = b # r'" "space2 b a"
    | b c r' where "\<not> ascii_space a" "r = b # c # r'" "\<not> space2 b a" "space3 c b a"
    using assms s by (auto split: list.splits if_splits)
  then show ?thesis
  proof cases
    case 1
    then show ?thesis using s by (intro exI [of _ "[a]"] exI [of _ r]) (simp add: space_unlowered)
  next
    case (2 b r')
    then show ?thesis using s by (intro exI [of _ "[a, b]"] exI [of _ r']) (simp add: space_unlowered(2))
  next
    case (3 b c r')
    then show ?thesis using s space_unlowered(3) [OF 3(4)] by (intro exI [of _ "[a, b, c]"] exI [of _ r']) simp
  qed
qed

lemma TrimSpace_ToLower: "TrimSpace (ToLower (TrimSpace s)) = ToLower (TrimSpace s)"
proof (rule TrimSpace_fix)
  show "space_len (ToLower (TrimSpace s)) = 0"
    using space_front [of "ToLower (TrimSpace s)"] ToLower_front [of "TrimSpace s"] space_len_append space_len_TrimSpace [of s]
    by metis
  show "space_rlen (rev (ToLower (TrimSpace s))) = 0"
  proof (rule ccontr)
    assume "space_rlen (rev (ToLower (TrimSpace s))) \<noteq> 0"
    then obtain v t where v: "rev (ToLower (TrimSpace s)) = v @ t" "list_all unlowered v" "space_rlen v \<noteq> 0"
      using space_back by blast
    from v(1) have "ToLower (TrimSpace s) = rev t @ rev v" by (metis rev_append rev_rev_ident)
    moreover have "list_all unlowered (rev v)" using v(2) by (simp add: list_all_rev)
    ultimately obtain u where "TrimSpace s = u @ rev v" using ToLower_back by blast
    then have "rev (TrimSpace s) = v @ rev u" by simp
    with space_rlen_append [OF v(3), of "rev u"] space_rlen_rev_TrimSpace [of s] show False by metis
  qed
qed

lemma ascii_lower_idem: "ascii_lower (ascii_lower c) = ascii_lower c"
proof (cases "65 \<le> byte c \<and> byte c \<le> 90")
  case True
  then have "byte (char_of (byte c + 32)) = byte c + 32" by (simp add: byte_def)
  with True show ?thesis by (simp add: ascii_lower_def)
next
  case False
  then have "ascii_lower c = c" unfolding ascii_lower_def by (rule if_not_P)
  then show ?thesis by simp
qed

lemma take_ToLower:
  assumes "take (length v) (ToLower r) = v" "list_all unlowered v"
  shows "take (length v) r = v"
proof -
  have "ToLower r = v @ drop (length v) (ToLower r)" using assms(1) by (metis append_take_drop_id)
  from ToLower_front [OF this assms(2)] show ?thesis by auto
qed

lemma ToLower_idem: "ToLower (ToLower s) = ToLower s"
proof (induction s rule: ToLower.induct)
  case step: (2 c r)
  let ?first = "c = CHR 0xC4 \<and> take 1 r = [CHR 0xB0]" and ?second = "c = CHR 0xE2 \<and> take 2 r = [CHR 0x84, CHR 0xAA]"
  consider ?first | "\<not> ?first" ?second | "\<not> ?first" "\<not> ?second" by blast
  then show ?case
  proof cases
    case 3
    note l = ascii_lower_idem [of c]
    have high: "ascii_lower c = CHR 0xC4 \<Longrightarrow> c = CHR 0xC4" "ascii_lower c = CHR 0xE2 \<Longrightarrow> c = CHR 0xE2"
      using ascii_lower_unlowered [of c] by (simp_all add: unlowered_def byte_def)
    have one: "take 1 (ToLower r) = [CHR 0xB0] \<Longrightarrow> take 1 r = [CHR 0xB0]"
      using take_ToLower [of "[CHR 0xB0]" r] by (simp add: unlowered_def byte_def)
    have two: "take 2 (ToLower r) = [CHR 0x84, CHR 0xAA] \<Longrightarrow> take 2 r = [CHR 0x84, CHR 0xAA]"
      using take_ToLower [of "[CHR 0x84, CHR 0xAA]" r] by (simp add: unlowered_def byte_def numeral_2_eq_2)
    have "ToLower (c # r) = ascii_lower c # ToLower r" using 3 by auto
    moreover have "ToLower (ascii_lower c # ToLower r) = ascii_lower (ascii_lower c) # ToLower (ToLower r)"
      using 3 high one two by auto
    ultimately show ?thesis using l step(3) 3 by simp
  next
    case 1
    then have "ToLower (c # r) = CHR ''i'' # ToLower (drop 1 r)" by simp
    with step(1) 1 show ?thesis by (simp add: ascii_lower_def byte_def)
  next
    case 2
    then have "ToLower (c # r) = CHR ''k'' # ToLower (drop 2 r)" by simp
    with step(2) 2 show ?thesis by (simp add: ascii_lower_def byte_def)
  qed
qed simp

subsection \<open>Searching, splitting, joining\<close>

definition HasPrefix :: "string \<Rightarrow> string \<Rightarrow> bool" where
  "HasPrefix s p \<longleftrightarrow> take (length p) s = p"

definition TrimPrefix :: "string \<Rightarrow> string \<Rightarrow> string" where
  "TrimPrefix s p = (if HasPrefix s p then drop (length p) s else s)"

lemma HasPrefix_append [simp]: "HasPrefix (p @ s) p"
  by (simp add: HasPrefix_def)

lemma HasPrefix_iff: "HasPrefix s p \<longleftrightarrow> (\<exists>u. s = p @ u)"
  by (metis HasPrefix_append HasPrefix_def append_take_drop_id)

lemma TrimPrefix_append [simp]: "TrimPrefix (p @ s) p = s"
  by (simp add: TrimPrefix_def)

text \<open>\<open>bytes.Index\<close> and \<open>strings.Index\<close>; \<open>None\<close> is the result \<open>-1\<close>.\<close>

fun Index :: "string \<Rightarrow> string \<Rightarrow> nat option" where
  "Index [] sep = (if sep = [] then Some 0 else None)"
| "Index (c # s) sep =
     (if HasPrefix (c # s) sep then Some 0 else map_option Suc (Index s sep))"

lemma Index_Some_iff:
  "Index s sep = Some i \<longleftrightarrow>
     HasPrefix (drop i s) sep \<and> i \<le> length s \<and> (\<forall>j<i. \<not> HasPrefix (drop j s) sep)"
proof (induction s arbitrary: i)
  case Nil
  then show ?case by (auto simp: HasPrefix_def)
next
  case (Cons c s)
  show ?case
  proof (cases "HasPrefix (c # s) sep")
    case True
    then show ?thesis by (cases i) auto
  next
    case False
    have "Index (c # s) sep = Some i \<longleftrightarrow> (\<exists>k. i = Suc k \<and> Index s sep = Some k)"
      using False by auto
    with Cons.IH False show ?thesis
      by (cases i) (auto simp: less_Suc_eq_0_disj)
  qed
qed

lemma Index_None_iff: "Index s sep = None \<longleftrightarrow> (\<forall>j\<le>length s. \<not> HasPrefix (drop j s) sep)"
proof (induction s)
  case Nil
  then show ?case by (auto simp: HasPrefix_def)
next
  case (Cons c s)
  have split: "(\<forall>j\<le>Suc n. P j) \<longleftrightarrow> P 0 \<and> (\<forall>j\<le>n. P (Suc j))" for P :: "nat \<Rightarrow> bool" and n
    by (metis Suc_le_mono le0 not0_implies_Suc)
  show ?case
    using Cons.IH by (simp add: split)
qed

text \<open>\<open>strings.Split\<close> at a one-byte separator; the result is never empty.\<close>

fun Split :: "char \<Rightarrow> string \<Rightarrow> string list" where
  "Split d [] = [[]]"
| "Split d (c # s) =
     (if c = d then [] # Split d s
      else (case Split d s of [] \<Rightarrow> [[c]] | l # ls \<Rightarrow> (c # l) # ls))"

lemma Split_not_Nil [simp]: "Split d s \<noteq> []"
  by (cases s) (auto split: list.splits)

lemma Split_no_sep: "d \<notin> set s \<Longrightarrow> Split d s = [s]"
  by (induction s) auto

lemma Split_append_sep: "d \<notin> set s \<Longrightarrow> Split d (s @ d # t) = s # Split d t"
  by (induction s) auto

text \<open>\<open>strings.Join\<close>.\<close>

fun Join :: "string list \<Rightarrow> string \<Rightarrow> string" where
  "Join [] sep = []"
| "Join [s] sep = s"
| "Join (s # t # r) sep = s @ sep @ Join (t # r) sep"

lemma Join_Cons: "ls \<noteq> [] \<Longrightarrow> Join (l # ls) sep = l @ sep @ Join ls sep"
  by (cases ls) simp_all

lemma Join_Split: "Join (Split d s) [d] = s"
proof (induction s)
  case (Cons c s)
  then show ?case
    by (cases "Split d s") (auto simp: Join_Cons split: list.splits, metis Join.simps(2) Join_Cons append_Cons)
qed simp

text \<open>\<open>strings.ReplaceAll\<close>; the program always passes a non-empty \<open>old\<close>.\<close>

function ReplaceAll :: "string \<Rightarrow> string \<Rightarrow> string \<Rightarrow> string" where
  "ReplaceAll [] old new = []"
| "ReplaceAll (c # s) old new =
     (if old \<noteq> [] \<and> HasPrefix (c # s) old
      then new @ ReplaceAll (drop (length old) (c # s)) old new
      else c # ReplaceAll s old new)"
  by pat_completeness auto
termination
proof (relation "measure (\<lambda>(s, _, _). length s)")
  fix c :: char and s old new :: string
  assume "old \<noteq> [] \<and> HasPrefix (c # s) old"
  then have "0 < length old" by simp
  then show "((drop (length old) (c # s), old, new), (c # s, old, new))
      \<in> measure (\<lambda>(s, _, _). length s)"
    by simp
qed simp_all

text \<open>\<open>strings.TrimRight\<close> and \<open>strings.Trim\<close> with a cutset of ASCII bytes, \<open>strings.Cut\<close> at
  a one-byte separator.\<close>

definition TrimRight :: "string \<Rightarrow> char list \<Rightarrow> string" where
  "TrimRight s cs = rev (dropWhile (\<lambda>c. c \<in> set cs) (rev s))"

definition Trim :: "string \<Rightarrow> char list \<Rightarrow> string" where
  "Trim s cs = TrimRight (dropWhile (\<lambda>c. c \<in> set cs) s) cs"

fun Cut :: "string \<Rightarrow> char \<Rightarrow> (string \<times> string) option" where
  "Cut [] d = None"
| "Cut (c # s) d =
     (if c = d then Some ([], s) else map_option (\<lambda>(a, b). (c # a, b)) (Cut s d))"

lemma TrimRight_last: "TrimRight s cs \<noteq> [] \<Longrightarrow> last (TrimRight s cs) \<notin> set cs"
  unfolding TrimRight_def
  by (metis hd_dropWhile last_rev rev_is_Nil_conv)

lemma Cut_Some: "Cut s d = Some (a, b) \<Longrightarrow> s = a @ d # b \<and> d \<notin> set a"
  by (induction s arbitrary: a) (auto split: if_splits)

subsection \<open>Numbers as text\<close>

definition digit_char :: "nat \<Rightarrow> char" where
  "digit_char n = char_of (48 + n)"

fun nat_text :: "nat \<Rightarrow> string" where
  "nat_text n = (if n < 10 then [digit_char n] else nat_text (n div 10) @ [digit_char (n mod 10)])"

declare nat_text.simps [simp del]

text \<open>\<open>strconv.Itoa\<close>.\<close>

definition Itoa :: "int \<Rightarrow> string" where
  "Itoa i = (if i < 0 then CHR ''-'' # nat_text (nat (- i)) else nat_text (nat i))"

definition digit_val :: "char \<Rightarrow> nat" where
  "digit_val c = byte c - 48"

definition dec_val :: "string \<Rightarrow> nat" where
  "dec_val s = foldl (\<lambda>n c. 10 * n + digit_val c) 0 s"

lemma digit_char_digit: "n < 10 \<Longrightarrow> is_digit (digit_char n)"
  by (simp add: is_digit_def digit_char_def byte_def)

lemma digit_val_char: "n < 10 \<Longrightarrow> digit_val (digit_char n) = n"
  by (simp add: digit_val_def digit_char_def byte_def)

lemma dec_val_snoc: "dec_val (s @ [c]) = 10 * dec_val s + digit_val c"
  by (simp add: dec_val_def)

lemma nat_text_digits: "list_all is_digit (nat_text n) \<and> nat_text n \<noteq> []"
proof (induction n rule: nat_text.induct)
  case (1 n)
  then show ?case
    by (cases "n < 10") (simp_all add: nat_text.simps [of n] digit_char_digit)
qed

lemma dec_val_nat_text: "dec_val (nat_text n) = n"
proof (induction n rule: nat_text.induct)
  case (1 n)
  show ?case
  proof (cases "n < 10")
    case True
    then show ?thesis by (simp add: nat_text.simps [of n] dec_val_def digit_val_char)
  next
    case False
    with 1 have "dec_val (nat_text (n div 10)) = n div 10" by simp
    with False show ?thesis
      by (simp add: nat_text.simps [of n] dec_val_snoc digit_val_char)
  qed
qed

lemma nat_text_inj: "nat_text m = nat_text n \<longleftrightarrow> m = n"
  by (metis dec_val_nat_text)

text \<open>
  \<open>strconv.ParseInt(s, 10, 64)\<close>: the value and whether the error is nil. On a syntax error
  the value is 0, on a range error it is the nearest \<open>int64\<close>.
\<close>

type_synonym int64 = "64 word"

definition max_int64 :: int where "max_int64 = 9223372036854775807"
definition min_int64 :: int where "min_int64 = - 9223372036854775808"

definition parse_sign :: "string \<Rightarrow> bool \<times> string" where
  "parse_sign s = (case s of [] \<Rightarrow> (False, [])
     | c # r \<Rightarrow> if c = CHR ''-'' then (True, r) else if c = CHR ''+'' then (False, r) else (False, s))"

definition ParseInt :: "string \<Rightarrow> int \<times> bool" where
  "ParseInt s =
     (let (neg, d) = parse_sign s in
      if d = [] \<or> \<not> list_all is_digit d then (0, False)
      else let v = (if neg then - int (dec_val d) else int (dec_val d)) in
        if v > max_int64 then (max_int64, False)
        else if v < min_int64 then (min_int64, False)
        else (v, True))"

lemma ParseInt_range: "min_int64 \<le> fst (ParseInt s) \<and> fst (ParseInt s) \<le> max_int64"
  by (auto simp: ParseInt_def Let_def max_int64_def min_int64_def split: prod.split)

lemma digit_not_sign: "is_digit c \<Longrightarrow> c \<noteq> CHR ''-'' \<and> c \<noteq> CHR ''+''"
  by (auto simp: is_digit_def byte_def)

lemma parse_sign_digits: "list_all is_digit s \<Longrightarrow> parse_sign s = (False, s)"
  by (cases s) (auto simp: parse_sign_def dest: digit_not_sign)

text \<open>Printing an \<open>int64\<close> and reading it back.\<close>

lemma ParseInt_Itoa:
  assumes "min_int64 \<le> i" "i \<le> max_int64"
  shows "ParseInt (Itoa i) = (i, True)"
proof (cases "i < 0")
  case True
  then have "parse_sign (Itoa i) = (True, nat_text (nat (- i)))"
    by (simp add: Itoa_def parse_sign_def)
  with True assms show ?thesis
    using nat_text_digits [of "nat (- i)"] by (simp add: ParseInt_def dec_val_nat_text)
next
  case False
  then have "parse_sign (Itoa i) = (False, nat_text (nat i))"
    using nat_text_digits [of "nat i"] by (simp add: Itoa_def parse_sign_digits)
  with False assms show ?thesis
    using nat_text_digits [of "nat i"] by (simp add: ParseInt_def dec_val_nat_text)
qed

end
