(* ===== verification/Sse.thy ===== *)
theory Sse
  imports Go_Strings
begin

text \<open>
  The incremental SSE frame splitter, \<open>internal/sse/decoder.go\<close>. \<open>Feed\<close> appends a chunk to
  the buffer and returns the complete frames, each with its terminator; \<open>Flush\<close> returns what
  is left at the end of the stream. The result \<open>-1\<close> of \<open>frameEnd\<close> (no terminator) is \<open>None\<close>.
  The main facts: no byte is lost or reordered, every frame is a minimal prefix of the input
  that ends with a blank line, and the frames do not depend on how the input is cut into chunks.
\<close>

subsection \<open>The decoder\<close>

record sse_decoder =
  buffer :: string

definition lf2 :: string where "lf2 = [CHR 0x0A, CHR 0x0A]"
definition crlf2 :: string where "crlf2 = [CHR 0x0D, CHR 0x0A, CHR 0x0D, CHR 0x0A]"

definition frameEnd :: "string \<Rightarrow> (nat \<times> nat) option" where
  "frameEnd raw =
     (case Index raw lf2 of
        None \<Rightarrow> (case Index raw crlf2 of None \<Rightarrow> None | Some crlf \<Rightarrow> Some (crlf, 4))
      | Some lf \<Rightarrow>
          (case Index raw crlf2 of
             None \<Rightarrow> Some (lf, 2)
           | Some crlf \<Rightarrow> if lf < crlf then Some (lf, 2) else Some (crlf, 4)))"

lemma Index_prefix_at: "Index s sep = Some i \<Longrightarrow> HasPrefix (drop i s) sep"
  by (simp add: Index_Some_iff)

lemma HasPrefix_length: "HasPrefix s p \<Longrightarrow> length p \<le> length s"
  by (auto simp: HasPrefix_iff)

lemma frameEnd_bounds:
  assumes "frameEnd raw = Some (e, w)"
  shows "0 < w \<and> e + w \<le> length raw"
proof -
  have lf: "i + 2 \<le> length raw" if "Index raw lf2 = Some i" for i
    using HasPrefix_length [OF Index_prefix_at [OF that]] by (simp add: lf2_def)
  have crlf: "i + 4 \<le> length raw" if "Index raw crlf2 = Some i" for i
    using HasPrefix_length [OF Index_prefix_at [OF that]] by (simp add: crlf2_def)
  show ?thesis
    using assms lf crlf by (auto simp: frameEnd_def split: option.splits if_splits)
qed

text \<open>The loop of \<open>Feed\<close>: cut complete frames off the buffer until none is left.\<close>

function drain :: "string \<Rightarrow> string list \<times> string" where
  "drain buf =
     (case frameEnd buf of
        None \<Rightarrow> ([], buf)
      | Some (e, w) \<Rightarrow>
          (let (frames, rest) = drain (drop (e + w) buf) in (take (e + w) buf # frames, rest)))"
  by pat_completeness auto
termination
  by (relation "measure length") (auto dest: frameEnd_bounds)

declare drain.simps [simp del]

definition Feed :: "sse_decoder \<Rightarrow> string \<Rightarrow> string list \<times> sse_decoder" where
  "Feed d chunk =
     (if chunk = [] then ([], d)
      else let (frames, rest) = drain (buffer d @ chunk) in (frames, d\<lparr>buffer := rest\<rparr>))"

text \<open>\<open>Flush\<close> returns \<open>nil\<close> (here \<open>[]\<close>) when only white space is left.\<close>

definition Flush :: "sse_decoder \<Rightarrow> string \<times> sse_decoder" where
  "Flush d =
     (if TrimSpace (buffer d) = [] then ([], d\<lparr>buffer := []\<rparr>)
      else (buffer d, d\<lparr>buffer := []\<rparr>))"

definition new_decoder :: sse_decoder where
  "new_decoder = \<lparr>buffer = []\<rparr>"

definition drained :: "sse_decoder \<Rightarrow> bool" where
  "drained d \<longleftrightarrow> frameEnd (buffer d) = None"

subsection \<open>What a frame is\<close>

text \<open>A terminator starts at position \<open>i\<close> of \<open>s\<close>, with its width.\<close>

definition term_at :: "string \<Rightarrow> nat \<Rightarrow> nat \<Rightarrow> bool" where
  "term_at s i w \<longleftrightarrow>
     (w = 2 \<and> HasPrefix (drop i s) lf2) \<or> (w = 4 \<and> HasPrefix (drop i s) crlf2)"

lemma term_at_lf_iff: "term_at s i 2 \<longleftrightarrow> HasPrefix (drop i s) lf2"
  by (simp add: term_at_def)

lemma term_at_crlf_iff: "term_at s i 4 \<longleftrightarrow> HasPrefix (drop i s) crlf2"
  by (simp add: term_at_def)

lemma not_both: "\<not> (HasPrefix s lf2 \<and> HasPrefix s crlf2)"
  by (cases s) (auto simp: HasPrefix_def lf2_def crlf2_def)

lemma frameEnd_Some_iff:
  "frameEnd s = Some (e, w) \<longleftrightarrow> term_at s e w \<and> (\<forall>j<e. \<forall>v. \<not> term_at s j v)"
proof -
  have len: "i \<le> length s" if "HasPrefix (drop i s) lf2 \<or> HasPrefix (drop i s) crlf2" for i
    using that HasPrefix_length by (force simp: lf2_def crlf2_def)
  have iL: "Index s lf2 = Some i \<longleftrightarrow> HasPrefix (drop i s) lf2 \<and> (\<forall>j<i. \<not> HasPrefix (drop j s) lf2)" for i
    using len by (auto simp: Index_Some_iff)
  have iC: "Index s crlf2 = Some i \<longleftrightarrow>
      HasPrefix (drop i s) crlf2 \<and> (\<forall>j<i. \<not> HasPrefix (drop j s) crlf2)" for i
    using len by (auto simp: Index_Some_iff)
  have nL: "Index s lf2 = None \<longleftrightarrow> (\<forall>j. \<not> HasPrefix (drop j s) lf2)"
    using len by (auto simp: Index_None_iff)
  have nC: "Index s crlf2 = None \<longleftrightarrow> (\<forall>j. \<not> HasPrefix (drop j s) crlf2)"
    using len by (auto simp: Index_None_iff)
  show ?thesis
  proof
    assume "frameEnd s = Some (e, w)"
    then show "term_at s e w \<and> (\<forall>j<e. \<forall>v. \<not> term_at s j v)"
      using not_both by (auto simp: frameEnd_def term_at_def iL iC nL nC split: option.splits if_splits)
  next
    assume r: "term_at s e w \<and> (\<forall>j<e. \<forall>v. \<not> term_at s j v)"
    then have before: "\<And>j. j < e \<Longrightarrow> \<not> HasPrefix (drop j s) lf2 \<and> \<not> HasPrefix (drop j s) crlf2"
      by (auto simp: term_at_def)
    from r consider "w = 2" "HasPrefix (drop e s) lf2" | "w = 4" "HasPrefix (drop e s) crlf2"
      by (auto simp: term_at_def)
    then show "frameEnd s = Some (e, w)"
    proof cases
      case 1
      then have "Index s lf2 = Some e" using before by (simp add: iL)
      moreover have "e < c" if "Index s crlf2 = Some c" for c
        using that before not_both 1(2) by (metis iC linorder_neqE_nat)
      ultimately show ?thesis using 1 by (auto simp: frameEnd_def split: option.splits)
    next
      case 2
      then have "Index s crlf2 = Some e" using before by (simp add: iC)
      moreover have "e < l" if "Index s lf2 = Some l" for l
        using that before not_both 2(2) by (metis iL linorder_neqE_nat)
      ultimately show ?thesis using 2 by (auto simp: frameEnd_def split: option.splits)
    qed
  qed
qed

lemma frameEnd_None_iff: "frameEnd s = None \<longleftrightarrow> (\<forall>j v. \<not> term_at s j v)"
proof
  assume "\<forall>j v. \<not> term_at s j v"
  then show "frameEnd s = None"
    by (metis frameEnd_Some_iff not_None_eq prod.exhaust)
next
  assume none: "frameEnd s = None"
  have "\<not> term_at s j v" for j v
  proof (induction j arbitrary: v rule: less_induct)
    case (less j)
    then show ?case using none frameEnd_Some_iff [of s j v] by auto
  qed
  then show "\<forall>j v. \<not> term_at s j v" by blast
qed

text \<open>
  A terminator inside \<open>a\<close> is one of \<open>a @ b\<close>; one of \<open>a @ b\<close> that starts before a
  terminator of \<open>a\<close> lies inside \<open>a\<close>, because the two kinds of terminator do not overlap.
\<close>

lemma HasPrefix_extend: "HasPrefix s p \<Longrightarrow> HasPrefix (s @ t) p"
  by (auto simp: HasPrefix_iff)

lemma HasPrefix_restrict: "HasPrefix (s @ t) p \<Longrightarrow> length p \<le> length s \<Longrightarrow> HasPrefix s p"
  by (simp add: HasPrefix_def)

lemma term_at_bound: "term_at s i w \<Longrightarrow> i + w \<le> length s \<and> 0 < w"
  using HasPrefix_length [of "drop i s"] by (fastforce simp: term_at_def lf2_def crlf2_def)

lemma term_at_append:
  assumes "term_at a i w"
  shows "term_at (a @ b) i w"
proof -
  have "i \<le> length a" using term_at_bound [OF assms] by simp
  with assms show ?thesis by (auto simp: term_at_def intro: HasPrefix_extend)
qed

lemma term_at_restrict:
  assumes "term_at (a @ b) i w" "i + w \<le> length a"
  shows "term_at a i w"
proof -
  from assms(1) consider "w = 2" "HasPrefix (drop i (a @ b)) lf2"
    | "w = 4" "HasPrefix (drop i (a @ b)) crlf2"
    by (auto simp: term_at_def)
  then show ?thesis
  proof cases
    case 1
    with assms(2) have "HasPrefix (drop i a) lf2"
      by (auto intro!: HasPrefix_restrict [of "drop i a" b] simp: lf2_def)
    with 1 show ?thesis by (simp add: term_at_def)
  next
    case 2
    with assms(2) have "HasPrefix (drop i a) crlf2"
      by (auto intro!: HasPrefix_restrict [of "drop i a" b] simp: crlf2_def)
    with 2 show ?thesis by (simp add: term_at_def)
  qed
qed

lemma nth_of_drop: "drop i s = x # r \<Longrightarrow> s ! i = x \<and> drop (Suc i) s = r"
  by (metis drop_Suc list.sel(1) list.sel(3) hd_drop_conv_nth drop_eq_Nil linorder_not_le
      list.distinct(1) tl_drop)

lemma lf_prefix_nth:
  assumes "HasPrefix (drop i s) lf2"
  shows "s ! Suc i = CHR 0x0A"
proof -
  from assms obtain r where "drop i s = CHR 0x0A # CHR 0x0A # r"
    by (auto simp: HasPrefix_iff lf2_def)
  then show ?thesis by (blast dest: nth_of_drop)
qed

lemma crlf_prefix_nth:
  assumes "HasPrefix (drop i s) crlf2"
  shows "s ! Suc (Suc i) = CHR 0x0D"
proof -
  from assms obtain r where "drop i s = CHR 0x0D # CHR 0x0A # CHR 0x0D # CHR 0x0A # r"
    by (auto simp: HasPrefix_iff crlf2_def)
  then show ?thesis by (blast dest: nth_of_drop)
qed

lemma term_at_before:
  assumes "term_at a e w" "term_at (a @ b) j v" "j < e"
  shows "term_at a j v"
proof (rule term_at_restrict [OF assms(2)], rule ccontr)
  assume "\<not> j + v \<le> length a"
  with term_at_bound [OF assms(1)] assms have "w = 2 \<and> v = 4 \<and> e = Suc j"
    by (auto simp: term_at_def)
  with assms(1,2) term_at_append [OF assms(1), of b]
  have "HasPrefix (drop (Suc j) (a @ b)) lf2" "HasPrefix (drop j (a @ b)) crlf2"
    by (simp_all add: term_at_def)
  then have "(a @ b) ! Suc (Suc j) = CHR 0x0A" "(a @ b) ! Suc (Suc j) = CHR 0x0D"
    by (blast dest: lf_prefix_nth crlf_prefix_nth)+
  then show False by simp
qed

lemma frameEnd_append: "frameEnd a = Some (e, w) \<Longrightarrow> frameEnd (a @ b) = Some (e, w)"
  unfolding frameEnd_Some_iff using term_at_append term_at_before by blast

subsection \<open>Losslessness and independence of the chunk boundaries\<close>

lemma drain_None: "frameEnd buf = None \<Longrightarrow> drain buf = ([], buf)"
  by (subst drain.simps) simp

lemma drain_Some:
  "frameEnd buf = Some (e, w) \<Longrightarrow>
   drain buf = (take (e + w) buf # fst (drain (drop (e + w) buf)), snd (drain (drop (e + w) buf)))"
  by (subst drain.simps) (simp add: split_beta)

lemma drain_concat: "concat (fst (drain buf)) @ snd (drain buf) = buf"
proof (induction buf rule: drain.induct)
  case (1 buf)
  then show ?case
    by (cases "frameEnd buf") (auto simp: drain_None drain_Some)
qed

lemma drain_rest: "frameEnd (snd (drain buf)) = None"
proof (induction buf rule: drain.induct)
  case (1 buf)
  then show ?case
    by (cases "frameEnd buf") (auto simp: drain_None drain_Some)
qed

text \<open>A complete frame: it has exactly one terminator, at its end.\<close>

definition sse_frame :: "string \<Rightarrow> bool" where
  "sse_frame f \<longleftrightarrow> (\<exists>e w. frameEnd f = Some (e, w) \<and> e + w = length f)"

lemma frame_taken:
  assumes "frameEnd s = Some (e, w)"
  shows "sse_frame (take (e + w) s)"
proof -
  have b: "e + w \<le> length s" using frameEnd_bounds [OF assms] by simp
  have t: "term_at s e w" "\<forall>j<e. \<forall>v. \<not> term_at s j v"
    using assms by (auto simp: frameEnd_Some_iff)
  have "term_at (take (e + w) s) e w"
    by (rule term_at_restrict [where b = "drop (e + w) s"]) (use t(1) b in simp_all)
  moreover have "\<not> term_at (take (e + w) s) j v" if "j < e" for j v
    using t(2) that term_at_append [of "take (e + w) s" j v "drop (e + w) s"]
    by (metis append_take_drop_id)
  ultimately have "frameEnd (take (e + w) s) = Some (e, w)"
    by (simp add: frameEnd_Some_iff)
  with b show ?thesis by (auto simp: sse_frame_def)
qed

lemma drain_frames: "f \<in> set (fst (drain buf)) \<Longrightarrow> sse_frame f"
proof (induction buf rule: drain.induct)
  case (1 buf)
  show ?case
  proof (cases "frameEnd buf")
    case None
    with "1.prems" show ?thesis by (simp add: drain_None)
  next
    case (Some ew)
    then obtain e w where ew: "frameEnd buf = Some (e, w)" by (cases ew) auto
    with "1.prems" consider "f = take (e + w) buf" | "f \<in> set (fst (drain (drop (e + w) buf)))"
      by (auto simp: drain_Some)
    then show ?thesis
      using "1.IH" [OF ew] frame_taken [OF ew] by cases auto
  qed
qed

lemma drain_append:
  "drain (a @ b) =
     (fst (drain a) @ fst (drain (snd (drain a) @ b)), snd (drain (snd (drain a) @ b)))"
proof (induction a rule: drain.induct)
  case (1 a)
  show ?case
  proof (cases "frameEnd a")
    case None
    then show ?thesis by (simp add: drain_None)
  next
    case (Some ew)
    then obtain e w where ew: "frameEnd a = Some (e, w)" by (cases ew) auto
    have le: "e + w \<le> length a" using frameEnd_bounds [OF ew] by simp
    show ?thesis
      using "1.IH" [OF ew] le by (simp add: drain_Some [OF ew] drain_Some [OF frameEnd_append [OF ew]])
  qed
qed

lemma drained_new: "drained new_decoder"
  by (simp add: drained_def new_decoder_def frameEnd_def lf2_def crlf2_def)

lemma drained_Feed: "drained d \<Longrightarrow> drained (snd (Feed d chunk))"
  by (auto simp: Feed_def drained_def split_beta drain_rest)

lemma Feed_nonempty_or_drained:
  "drained d \<Longrightarrow> Feed d chunk = (fst (drain (buffer d @ chunk)), d\<lparr>buffer := snd (drain (buffer d @ chunk))\<rparr>)"
  by (auto simp: Feed_def drained_def split_beta drain_None)

lemma Feed_append:
  assumes "drained d"
  shows "Feed d (a @ b) =
    (fst (Feed d a) @ fst (Feed (snd (Feed d a)) b), snd (Feed (snd (Feed d a)) b))"
  using drained_Feed [OF assms, of a] drain_append [of "buffer d @ a" b]
  by (simp add: Feed_nonempty_or_drained assms)

text \<open>
  The contract a stream reader relies on: an incremental decoder whose frames and final
  state do not depend on the chunk boundaries.
\<close>

locale chunk_decoder =
  fixes feed :: "'d \<Rightarrow> string \<Rightarrow> string list \<times> 'd"
    and ready :: "'d \<Rightarrow> bool"
    and pending :: "'d \<Rightarrow> string"
  assumes feed_ready: "ready d \<Longrightarrow> ready (snd (feed d c))"
    and feed_Nil: "ready d \<Longrightarrow> feed d [] = ([], d)"
    and feed_split: "ready d \<Longrightarrow>
      feed d (a @ b) = (fst (feed d a) @ fst (feed (snd (feed d a)) b), snd (feed (snd (feed d a)) b))"
    and feed_lossless: "ready d \<Longrightarrow>
      concat (fst (feed d c)) @ pending (snd (feed d c)) = pending d @ c"
begin

fun feed_all :: "'d \<Rightarrow> string list \<Rightarrow> string list \<times> 'd" where
  "feed_all d [] = ([], d)"
| "feed_all d (c # cs) =
     (fst (feed d c) @ fst (feed_all (snd (feed d c)) cs), snd (feed_all (snd (feed d c)) cs))"

lemma feed_all_concat: "ready d \<Longrightarrow> feed_all d cs = feed d (concat cs)"
  by (induction cs arbitrary: d) (simp_all add: feed_Nil feed_split [of _ _ "concat _"] feed_ready)

lemma feed_all_lossless:
  "ready d \<Longrightarrow> concat (fst (feed_all d cs)) @ pending (snd (feed_all d cs)) = pending d @ concat cs"
  by (simp add: feed_all_concat feed_lossless)

lemma feed_all_rechunk: "ready d \<Longrightarrow> concat cs = concat cs' \<Longrightarrow> feed_all d cs = feed_all d cs'"
  by (simp add: feed_all_concat)

end

interpretation sse: chunk_decoder Feed drained buffer
proof
  fix d :: sse_decoder and a b c :: string
  assume d: "drained d"
  show "drained (snd (Feed d c))" using d by (rule drained_Feed)
  show "Feed d [] = ([], d)" by (simp add: Feed_def)
  show "Feed d (a @ b) = (fst (Feed d a) @ fst (Feed (snd (Feed d a)) b), snd (Feed (snd (Feed d a)) b))"
    using d by (rule Feed_append)
  show "concat (fst (Feed d c)) @ buffer (snd (Feed d c)) = buffer d @ c"
    using d drain_concat by (simp add: Feed_nonempty_or_drained)
qed

text \<open>
  The reader of one stream: feed every chunk, then flush. (\<open>pumpStream\<close> runs this loop,
  emitting each frame as it comes.)
\<close>

fun read_frames :: "sse_decoder \<Rightarrow> string list \<Rightarrow> string list" where
  "read_frames d [] = (let (t, _) = Flush d in if t = [] then [] else [t])"
| "read_frames d (c # cs) = (let (fs, d') = Feed d c in fs @ read_frames d' cs)"

lemma read_frames_feed_all:
  "read_frames d cs =
     fst (sse.feed_all d cs) @ (let t = fst (Flush (snd (sse.feed_all d cs))) in if t = [] then [] else [t])"
  by (induction cs arbitrary: d) (simp_all add: split_beta Let_def)

lemma read_frames_rechunk:
  "concat chunks = concat chunks' \<Longrightarrow> read_frames new_decoder chunks = read_frames new_decoder chunks'"
  using sse.feed_all_rechunk [OF drained_new, of chunks chunks']
  by (simp only: read_frames_feed_all)

subsection \<open>Properties\<close>

text \<open>C12: the frames a stream reader gets do not depend on how the bytes were cut into chunks.\<close>

theorem sse_chunk_independent: "read_frames new_decoder chunks = read_frames new_decoder [concat chunks]"
  by (rule read_frames_rechunk) simp

text \<open>C13: the frames are the input, in order and complete, except for white space at the very end.\<close>

theorem sse_lossless:
  "\<exists>tail. concat chunks = concat (read_frames new_decoder chunks) @ tail \<and> TrimSpace tail = []"
proof -
  let ?d = "snd (sse.feed_all new_decoder chunks)"
  have "concat chunks = concat (fst (sse.feed_all new_decoder chunks)) @ buffer ?d"
    using sse.feed_all_lossless [OF drained_new, of chunks] by (simp add: new_decoder_def)
  then show ?thesis
    by (cases "TrimSpace (buffer ?d) = []") (simp_all add: read_frames_feed_all Flush_def Let_def)
qed

text \<open>What \<open>Feed\<close> returns are complete frames, each with one blank line, at its end; and after
  it the buffer holds no complete frame.\<close>

theorem sse_frames_complete:
  "list_all sse_frame (fst (Feed d chunk)) \<and> (chunk = [] \<or> frameEnd (buffer (snd (Feed d chunk))) = None)"
  by (auto simp: Feed_def split_beta list_all_iff drain_rest dest: drain_frames)

end
