(* ===== verification/Go_Json.thy ===== *)
theory Go_Json
  imports Go_Strings
begin

text \<open>
  JSON values as \<open>encoding/json\<close> hands them to the program, and its decoder and encoder on
  bytes. A decoded value is Go's \<open>any\<close>: \<open>nil\<close>, \<open>bool\<close>, a number kept as its literal text
  (\<open>json.Number\<close>; a Go integer put into a message is its decimal text), a string, a slice
  or a \<open>map[string]any\<close>. A map is a list of fields sorted by key without duplicates, the
  order in which the encoder prints it, so equal maps are equal lists.
\<close>

datatype json =
    JNull
  | JBool bool
  | JNum string
  | JStr string
  | JArr "json list"
  | JObj "(string \<times> json) list"

type_synonym obj = "(string \<times> json) list"

subsection \<open>Maps\<close>

fun obj_put :: "string \<Rightarrow> 'v \<Rightarrow> (string \<times> 'v) list \<Rightarrow> (string \<times> 'v) list" where
  "obj_put k v [] = [(k, v)]"
| "obj_put k v ((k', v') # r) =
     (if k = k' then (k, v) # r
      else if k < k' then (k, v) # (k', v') # r
      else (k', v') # obj_put k v r)"

text \<open>A map literal \<open>map[string]any{...}\<close>.\<close>

definition mk_obj :: "(string \<times> 'v) list \<Rightarrow> (string \<times> 'v) list" where
  "mk_obj fields = fold (\<lambda>(k, v). obj_put k v) fields []"

definition obj_delete :: "string \<Rightarrow> (string \<times> 'v) list \<Rightarrow> (string \<times> 'v) list" where
  "obj_delete k m = filter (\<lambda>p. fst p \<noteq> k) m"

text \<open>\<open>m[k]\<close> without the second result: \<open>nil\<close> for a missing key.\<close>

definition fld :: "obj \<Rightarrow> string \<Rightarrow> json" where
  "fld m k = (case map_of m k of None \<Rightarrow> JNull | Some v \<Rightarrow> v)"

definition sorted_obj :: "(string \<times> 'v) list \<Rightarrow> bool" where
  "sorted_obj m \<longleftrightarrow> sorted (map fst m) \<and> distinct (map fst m)"

lemma map_of_obj_put [json_get, simp]:
  "map_of (obj_put k v m) k' = (if k' = k then Some v else map_of m k')"
  by (induction m) auto

lemma fld_obj_put [json_get, simp]: "fld (obj_put k v m) k' = (if k' = k then v else fld m k')"
  by (simp add: fld_def)

lemma fld_Nil [json_get, simp]: "fld [] k = JNull"
  by (simp add: fld_def)

lemma map_of_obj_delete [json_get, simp]:
  "map_of (obj_delete k m) k' = (if k' = k then None else map_of m k')"
  by (induction m) (auto simp: obj_delete_def)

lemma keys_obj_put: "fst ` set (obj_put k v m) = insert k (fst ` set m)"
  by (simp add: dom_map_of_conv_image_fst [symmetric] dom_def) auto

lemma obj_put_not_Nil [simp]: "obj_put k v m \<noteq> []"
  by (cases m) (auto split: if_splits)

lemma sorted_obj_put [simp]: "sorted_obj m \<Longrightarrow> sorted_obj (obj_put k v m)"
proof (induction m)
  case (Cons p m)
  then show ?case
    by (cases p) (auto simp: sorted_obj_def keys_obj_put)
qed (simp add: sorted_obj_def)

lemma sorted_obj_Nil [simp]: "sorted_obj []"
  by (simp add: sorted_obj_def)

lemma sorted_mk_obj [simp]: "sorted_obj (mk_obj fields)"
proof -
  have "sorted_obj m \<Longrightarrow> sorted_obj (fold (\<lambda>(k, v). obj_put k v) fields m)" for m :: "(string \<times> 'a) list"
    by (induction fields arbitrary: m) auto
  then show ?thesis by (simp add: mk_obj_def)
qed

lemma sorted_obj_delete [simp]: "sorted_obj m \<Longrightarrow> sorted_obj (obj_delete k m)"
  by (auto simp: sorted_obj_def obj_delete_def sorted_filter distinct_map_filter)

subsection \<open>UTF-8\<close>

definition cont_byte :: "char \<Rightarrow> bool" where
  "cont_byte c \<longleftrightarrow> 128 \<le> byte c \<and> byte c \<le> 191"

text \<open>\<open>utf8.DecodeRune\<close>: the width of the valid rune at the front, 0 for an invalid byte.\<close>

fun rune_len :: "string \<Rightarrow> nat" where
  "rune_len [] = 0"
| "rune_len (a # r) =
     (let n = byte a in
      if n < 128 then 1
      else if 194 \<le> n \<and> n \<le> 223 then
        (case r of b # _ \<Rightarrow> if cont_byte b then 2 else 0 | [] \<Rightarrow> 0)
      else if 224 \<le> n \<and> n \<le> 239 then
        (case r of b # c # _ \<Rightarrow>
           if cont_byte b \<and> cont_byte c \<and> (n = 224 \<longrightarrow> 160 \<le> byte b) \<and> (n = 237 \<longrightarrow> byte b \<le> 159)
           then 3 else 0
         | _ \<Rightarrow> 0)
      else if 240 \<le> n \<and> n \<le> 244 then
        (case r of b # c # d # _ \<Rightarrow>
           if cont_byte b \<and> cont_byte c \<and> cont_byte d \<and>
              (n = 240 \<longrightarrow> 144 \<le> byte b) \<and> (n = 244 \<longrightarrow> byte b \<le> 143)
           then 4 else 0
         | _ \<Rightarrow> 0)
      else 0)"

declare rune_len.simps(2) [simp del]

lemma rune_len_ascii: "byte c < 128 \<Longrightarrow> rune_len (c # s) = 1"
  by (simp add: rune_len.simps)

lemma rune_len_le: "rune_len s \<le> length s"
  by (cases s) (auto simp: rune_len.simps Let_def split: list.splits)

text \<open>\<open>utf8.AppendRune\<close> for a code point that is no surrogate.\<close>

definition utf8_encode :: "nat \<Rightarrow> string" where
  "utf8_encode n =
     (if n < 128 then [char_of n]
      else if n < 2048 then [char_of (192 + n div 64), char_of (128 + n mod 64)]
      else if n < 65536 then
        [char_of (224 + n div 4096), char_of (128 + n div 64 mod 64), char_of (128 + n mod 64)]
      else
        [char_of (240 + n div 262144), char_of (128 + n div 4096 mod 64),
         char_of (128 + n div 64 mod 64), char_of (128 + n mod 64)])"

text \<open>U+FFFD, what an invalid byte or a lone surrogate is replaced with.\<close>

definition replacement :: string where
  "replacement = [CHR 0xEF, CHR 0xBF, CHR 0xBD]"

subsection \<open>The encoder\<close>

definition hex_digit :: "nat \<Rightarrow> char" where
  "hex_digit n = (if n < 10 then char_of (48 + n) else char_of (87 + n))"

text \<open>How \<open>json.Marshal\<close> writes one ASCII byte of a string, HTML escaping on.\<close>

definition esc_ascii :: "char \<Rightarrow> string" where
  "esc_ascii c =
     (if c = CHR 0x22 then [CHR 0x5C, CHR 0x22]
      else if c = CHR 0x5C then [CHR 0x5C, CHR 0x5C]
      else if c = CHR 0x08 then [CHR 0x5C, CHR ''b'']
      else if c = CHR 0x0C then [CHR 0x5C, CHR ''f'']
      else if c = CHR 0x0A then [CHR 0x5C, CHR ''n'']
      else if c = CHR 0x0D then [CHR 0x5C, CHR ''r'']
      else if c = CHR 0x09 then [CHR 0x5C, CHR ''t'']
      else if byte c < 32 \<or> c = CHR 0x3C \<or> c = CHR 0x3E \<or> c = CHR 0x26 then
        [CHR 0x5C, CHR ''u'', CHR ''0'', CHR ''0'', hex_digit (byte c div 16), hex_digit (byte c mod 16)]
      else [c])"

function quote_body :: "string \<Rightarrow> string" where
  "quote_body [] = []"
| "quote_body (c # r) =
     (if byte c < 128 then esc_ascii c @ quote_body r
      else if rune_len (c # r) = 0 then
        [CHR 0x5C, CHR ''u'', CHR ''f'', CHR ''f'', CHR ''f'', CHR ''d''] @ quote_body r
      else if take 3 (c # r) = [CHR 0xE2, CHR 0x80, CHR 0xA8] then
        [CHR 0x5C, CHR ''u'', CHR ''2'', CHR ''0'', CHR ''2'', CHR ''8''] @ quote_body (drop 3 (c # r))
      else if take 3 (c # r) = [CHR 0xE2, CHR 0x80, CHR 0xA9] then
        [CHR 0x5C, CHR ''u'', CHR ''2'', CHR ''0'', CHR ''2'', CHR ''9''] @ quote_body (drop 3 (c # r))
      else take (rune_len (c # r)) (c # r) @ quote_body (drop (rune_len (c # r)) (c # r)))"
  by pat_completeness auto
termination
  by (relation "measure length") (simp_all)

definition quote :: "string \<Rightarrow> string" where
  "quote s = CHR 0x22 # quote_body s @ [CHR 0x22]"

text \<open>\<open>json.Marshal\<close>; a map is printed in the order of its keys.\<close>

fun encode :: "json \<Rightarrow> string" where
  "encode JNull = ''null''"
| "encode (JBool b) = (if b then ''true'' else ''false'')"
| "encode (JNum s) = (if s = [] then ''0'' else s)"
| "encode (JStr s) = quote s"
| "encode (JArr vs) = CHR ''['' # Join (map encode vs) '','' @ '']''"
| "encode (JObj m) = CHR 0x7B # Join (map (\<lambda>(k, v). quote k @ CHR '':'' # encode v) m) '','' @ [CHR 0x7D]"

subsection \<open>The decoder\<close>

definition json_space :: "char \<Rightarrow> bool" where
  "json_space c \<longleftrightarrow> c = CHR 0x20 \<or> c = CHR 0x09 \<or> c = CHR 0x0A \<or> c = CHR 0x0D"

definition skip_ws :: "string \<Rightarrow> string" where
  "skip_ws s = dropWhile json_space s"

text \<open>Numbers: \<open>-?(0|[1-9][0-9]*)([.][0-9]+)?([eE][+-]?[0-9]+)?\<close>, as text and rest.\<close>

definition digits1 :: "string \<Rightarrow> (string \<times> string) option" where
  "digits1 s = (let d = takeWhile is_digit s in if d = [] then None else Some (d, dropWhile is_digit s))"

definition num_int :: "string \<Rightarrow> (string \<times> string) option" where
  "num_int s = (case s of [] \<Rightarrow> None
     | c # r \<Rightarrow> if c = CHR ''0'' then Some ([c], r) else digits1 s)"

definition num_frac :: "string \<Rightarrow> (string \<times> string) option" where
  "num_frac s = (case s of [] \<Rightarrow> Some ([], [])
     | c # r \<Rightarrow> if c = CHR ''.'' then map_option (\<lambda>(d, r'). (c # d, r')) (digits1 r) else Some ([], s))"

definition num_exp :: "string \<Rightarrow> (string \<times> string) option" where
  "num_exp s = (case s of [] \<Rightarrow> Some ([], [])
     | c # r \<Rightarrow>
         if c = CHR ''e'' \<or> c = CHR ''E'' then
           (case r of [] \<Rightarrow> None
            | g # r' \<Rightarrow>
                if g = CHR ''+'' \<or> g = CHR ''-''
                then map_option (\<lambda>(d, t). (c # g # d, t)) (digits1 r')
                else map_option (\<lambda>(d, t). (c # d, t)) (digits1 r))
         else Some ([], s))"

definition num_unsigned :: "string \<Rightarrow> (string \<times> string) option" where
  "num_unsigned s =
     (case num_int s of None \<Rightarrow> None | Some (i, r1) \<Rightarrow>
     (case num_frac r1 of None \<Rightarrow> None | Some (f, r2) \<Rightarrow>
     (case num_exp r2 of None \<Rightarrow> None | Some (e, r3) \<Rightarrow> Some (i @ f @ e, r3))))"

definition number :: "string \<Rightarrow> (string \<times> string) option" where
  "number s = (case s of [] \<Rightarrow> None
     | c # r \<Rightarrow> if c = CHR ''-'' then map_option (\<lambda>(n, t). (c # n, t)) (num_unsigned r)
               else num_unsigned s)"

text \<open>The rest of a string after its opening quote: its value and what follows it.\<close>

definition hex_val :: "char \<Rightarrow> nat option" where
  "hex_val c =
     (let n = byte c in
      if 48 \<le> n \<and> n \<le> 57 then Some (n - 48)
      else if 97 \<le> n \<and> n \<le> 102 then Some (n - 87)
      else if 65 \<le> n \<and> n \<le> 70 then Some (n - 55)
      else None)"

fun hex4 :: "string \<Rightarrow> nat option" where
  "hex4 (a # b # c # d # _) =
     (case (hex_val a, hex_val b, hex_val c, hex_val d) of
        (Some w, Some x, Some y, Some z) \<Rightarrow> Some (4096 * w + 256 * x + 16 * y + z)
      | _ \<Rightarrow> None)"
| "hex4 _ = None"

text \<open>The rune of a \<open>\u\<close> escape whose four digits start the string, and the bytes it takes
  after the \<open>\u\<close>: 10 for a surrogate pair, else 4.\<close>

definition hex_rune :: "string \<Rightarrow> (string \<times> nat) option" where
  "hex_rune r =
     (case hex4 r of None \<Rightarrow> None
      | Some n \<Rightarrow>
          if 55296 \<le> n \<and> n \<le> 57343 then
            (case (if take 2 (drop 4 r) = [CHR 0x5C, CHR ''u''] then hex4 (drop 6 r) else None) of
               Some m \<Rightarrow>
                 if n < 56320 \<and> 56320 \<le> m \<and> m \<le> 57343
                 then Some (utf8_encode (65536 + (n - 55296) * 1024 + (m - 56320)), 10)
                 else Some (replacement, 4)
             | None \<Rightarrow> Some (replacement, 4))
          else Some (utf8_encode n, 4))"

definition unescape :: "char \<Rightarrow> char option" where
  "unescape e =
     (if e = CHR 0x22 \<or> e = CHR 0x5C \<or> e = CHR ''/'' then Some e
      else if e = CHR ''b'' then Some (CHR 0x08)
      else if e = CHR ''f'' then Some (CHR 0x0C)
      else if e = CHR ''n'' then Some (CHR 0x0A)
      else if e = CHR ''r'' then Some (CHR 0x0D)
      else if e = CHR ''t'' then Some (CHR 0x09)
      else None)"

definition add_text :: "string \<Rightarrow> (string \<times> string) option \<Rightarrow> (string \<times> string) option" where
  "add_text t p = map_option (\<lambda>(s, r). (t @ s, r)) p"

function unquote :: "string \<Rightarrow> (string \<times> string) option" where
  "unquote [] = None"
| "unquote (c # r) =
     (if c = CHR 0x22 then Some ([], r)
      else if c = CHR 0x5C then
        (case r of [] \<Rightarrow> None
         | e # r' \<Rightarrow>
             if e = CHR ''u'' then
               (case hex_rune r' of None \<Rightarrow> None
                | Some (t, n) \<Rightarrow> add_text t (unquote (drop n r')))
             else (case unescape e of None \<Rightarrow> None | Some x \<Rightarrow> add_text [x] (unquote r')))
      else if byte c < 32 then None
      else if rune_len (c # r) = 0 then add_text replacement (unquote r)
      else add_text (take (rune_len (c # r)) (c # r)) (unquote (drop (rune_len (c # r)) (c # r))))"
  by pat_completeness auto
termination
  by (relation "measure length") (simp_all)

lemma unquote_shorter: "unquote s = Some (t, r) \<Longrightarrow> length r < length s"
proof (induction s arbitrary: t r rule: unquote.induct)
  case (2 c s)
  show ?case
    using 2 by (fastforce simp: add_text_def split: if_splits list.splits option.splits)
qed simp

lemma skip_ws_length: "length (skip_ws s) \<le> length s"
  by (simp add: skip_ws_def length_dropWhile_le)

text \<open>The literals \<open>true\<close>, \<open>false\<close>, \<open>null\<close>.\<close>

definition literal_val :: "string \<Rightarrow> (json \<times> string) option" where
  "literal_val s =
     (if HasPrefix s ''true'' then Some (JBool True, drop 4 s)
      else if HasPrefix s ''false'' then Some (JBool False, drop 5 s)
      else if HasPrefix s ''null'' then Some (JNull, drop 4 s)
      else None)"

text \<open>
  A value at the front of the input. The first argument is the nesting still allowed (the
  scanner refuses more than 10000 open arrays and objects). The comparisons of lengths
  always hold (\<open>decode_shorter\<close>); they make the termination evident.
\<close>

function decode_val :: "int \<Rightarrow> string \<Rightarrow> (json \<times> string) option"
  and decode_elems :: "int \<Rightarrow> string \<Rightarrow> (json list \<times> string) option"
  and decode_members :: "int \<Rightarrow> string \<Rightarrow> obj \<Rightarrow> (obj \<times> string) option"
where
  "decode_val d s =
     (case skip_ws s of [] \<Rightarrow> None
      | c # r \<Rightarrow>
          if c = CHR 0x22 then map_option (\<lambda>(t, r'). (JStr t, r')) (unquote r)
          else if c = CHR ''['' then
            (if d \<le> 0 then None
             else (case skip_ws r of [] \<Rightarrow> None
                   | e # r' \<Rightarrow>
                       if e = CHR '']'' then Some (JArr [], r')
                       else if length r < length s
                       then map_option (\<lambda>(vs, r''). (JArr vs, r'')) (decode_elems (d - 1) r)
                       else None))
          else if c = CHR 0x7B then
            (if d \<le> 0 then None
             else (case skip_ws r of [] \<Rightarrow> None
                   | e # r' \<Rightarrow>
                       if e = CHR 0x7D then Some (JObj [], r')
                       else if length r < length s
                       then map_option (\<lambda>(m, r''). (JObj m, r'')) (decode_members (d - 1) r [])
                       else None))
          else if c = CHR ''-'' \<or> is_digit c
          then map_option (\<lambda>(n, r'). (JNum n, r')) (number (c # r))
          else literal_val (c # r))"
| "decode_elems d s =
     (case decode_val d s of None \<Rightarrow> None
      | Some (v, r) \<Rightarrow>
          (case skip_ws r of [] \<Rightarrow> None
           | c # r' \<Rightarrow>
               if c = CHR '','' then
                 (if length r' < length s
                  then map_option (\<lambda>(vs, r''). (v # vs, r'')) (decode_elems d r') else None)
               else if c = CHR '']'' then Some ([v], r')
               else None))"
| "decode_members d s m =
     (case skip_ws s of [] \<Rightarrow> None
      | q # s1 \<Rightarrow>
          if q \<noteq> CHR 0x22 then None else
          (case unquote s1 of None \<Rightarrow> None
           | Some (k, s2) \<Rightarrow>
               (case skip_ws s2 of [] \<Rightarrow> None
                | c # s3 \<Rightarrow>
                    if c \<noteq> CHR '':'' \<or> \<not> length s3 < length s then None else
                    (case decode_val d s3 of None \<Rightarrow> None
                     | Some (v, r) \<Rightarrow>
                         (case skip_ws r of [] \<Rightarrow> None
                          | e # r' \<Rightarrow>
                              if e = CHR '','' then
                                (if length r' < length s then decode_members d r' (obj_put k v m) else None)
                              else if e = CHR 0x7D then Some (obj_put k v m, r')
                              else None)))))"
  by pat_completeness auto
termination
  by (relation "measure (\<lambda>x. case x of Inl (d, s) \<Rightarrow> 2 * length s
        | Inr (Inl (d, s)) \<Rightarrow> 2 * length s + 1
        | Inr (Inr (d, s, m)) \<Rightarrow> 2 * length s + 1)") auto

declare decode_val.simps [simp del] decode_elems.simps [simp del] decode_members.simps [simp del]

definition max_depth :: int where "max_depth = 10000"

text \<open>
  \<open>decode_first\<close> is \<open>json.Decoder.Decode\<close> into an \<open>any\<close> with \<open>UseNumber\<close>: the first value,
  what follows it is not read. \<open>decode_all\<close> is \<open>json.Unmarshal\<close>: nothing but white space may
  follow. \<open>Valid\<close> is \<open>json.Valid\<close>.
\<close>

definition decode_first :: "string \<Rightarrow> json option" where
  "decode_first s = map_option fst (decode_val max_depth s)"

definition decode_all :: "string \<Rightarrow> json option" where
  "decode_all s =
     (case decode_val max_depth s of None \<Rightarrow> None
      | Some (v, r) \<Rightarrow> if skip_ws r = [] then Some v else None)"

definition Valid :: "string \<Rightarrow> bool" where
  "Valid s \<longleftrightarrow> decode_all s \<noteq> None"

lemma Valid_decode_first: "Valid s \<Longrightarrow> \<exists>v. decode_first s = Some v"
  by (auto simp: Valid_def decode_all_def decode_first_def split: option.splits)

lemma decode_all_first: "decode_all s = Some v \<Longrightarrow> decode_first s = Some v"
  by (auto simp: decode_all_def decode_first_def split: option.splits if_splits)

end
