(* ===== verification/Go_Json_Roundtrip.thy ===== *)
theory Go_Json_Roundtrip
  imports Go_Json
begin

text \<open>
  The decoder reads back what the encoder writes: for a value whose strings are valid UTF-8,
  whose numbers are JSON literals, whose maps are sorted and whose nesting is within the
  scanner's limit, \<open>decode_all (encode v) = Some v\<close>. The translators rest on this through the
  locale \<open>json_codec\<close>.
\<close>

function valid_utf8 :: "string \<Rightarrow> bool" where
  "valid_utf8 s =
     (if s = [] then True else if rune_len s = 0 then False else valid_utf8 (drop (rune_len s) s))"
  by pat_completeness auto
termination
  by (relation "measure length") auto

declare valid_utf8.simps [simp del]

fun wf_json :: "json \<Rightarrow> bool" where
  "wf_json JNull = True"
| "wf_json (JBool b) = True"
| "wf_json (JNum n) = (number n = Some (n, []))"
| "wf_json (JStr s) = valid_utf8 s"
| "wf_json (JArr vs) = list_all wf_json vs"
| "wf_json (JObj m) = (sorted_obj m \<and> list_all (\<lambda>(k, v). valid_utf8 k \<and> wf_json v) m)"

fun jdepth :: "json \<Rightarrow> nat" where
  "jdepth (JArr vs) = Suc (fold max (map jdepth vs) 0)"
| "jdepth (JObj m) = Suc (fold max (map (\<lambda>(k, v). jdepth v) m) 0)"
| "jdepth _ = 0"

subsection \<open>Strings\<close>

lemma rune_len_take:
  assumes "rune_len s \<noteq> 0"
  shows "rune_len (take (rune_len s) s @ t) = rune_len s"
  using assms by (cases s) (auto simp: rune_len.simps Let_def split: list.splits if_splits)

lemma byte_lt: "byte c < 256"
  by (simp add: byte_def)

lemma char_of_byte [simp]: "char_of (byte c) = c"
  by (simp add: byte_def)

lemma hex_val_digit: "n < 16 \<Longrightarrow> hex_val (hex_digit n) = Some n"
  by (auto simp: hex_val_def hex_digit_def byte_def Let_def)

lemma hex_rune_ascii:
  assumes "n < 128"
  shows "hex_rune (CHR ''0'' # CHR ''0'' # hex_digit (n div 16) # hex_digit (n mod 16) # t)
    = Some ([char_of n], 4)"
proof -
  have h: "hex_val (CHR ''0'') = Some 0" by (simp add: hex_val_def byte_def)
  have "hex_val (hex_digit (n div 16)) = Some (n div 16)" "hex_val (hex_digit (n mod 16)) = Some (n mod 16)"
    using assms by (auto intro!: hex_val_digit)
  with h assms show ?thesis
    by (simp add: hex_rune_def utf8_encode_def)
qed

lemma hex_rune_2028:
  "hex_rune (CHR ''2'' # CHR ''0'' # CHR ''2'' # CHR ''8'' # t) = Some ([CHR 0xE2, CHR 0x80, CHR 0xA8], 4)"
  "hex_rune (CHR ''2'' # CHR ''0'' # CHR ''2'' # CHR ''9'' # t) = Some ([CHR 0xE2, CHR 0x80, CHR 0xA9], 4)"
  by (simp_all add: hex_rune_def hex_val_def byte_def Let_def utf8_encode_def char_of_eq_iff)

lemma unquote_esc_ascii:
  assumes "byte c < 128"
  shows "unquote (esc_ascii c @ t) = add_text [c] (unquote t)"
proof -
  have "c = CHR 0x22 \<or> c = CHR 0x5C \<or> c = CHR 0x08 \<or> c = CHR 0x0C \<or> c = CHR 0x0A \<or>
      c = CHR 0x0D \<or> c = CHR 0x09 \<or>
      esc_ascii c = [CHR 0x5C, CHR ''u'', CHR ''0'', CHR ''0'', hex_digit (byte c div 16), hex_digit (byte c mod 16)] \<or>
      (esc_ascii c = [c] \<and> c \<noteq> CHR 0x22 \<and> c \<noteq> CHR 0x5C \<and> \<not> byte c < 32)"
    unfolding esc_ascii_def by argo
  then consider "c = CHR 0x22" | "c = CHR 0x5C" | "c = CHR 0x08" | "c = CHR 0x0C" | "c = CHR 0x0A"
    | "c = CHR 0x0D" | "c = CHR 0x09"
    | "esc_ascii c = [CHR 0x5C, CHR ''u'', CHR ''0'', CHR ''0'', hex_digit (byte c div 16), hex_digit (byte c mod 16)]"
    | "esc_ascii c = [c]" "c \<noteq> CHR 0x22" "c \<noteq> CHR 0x5C" "\<not> byte c < 32"
    by blast
  then show ?thesis
  proof cases
    case 8
    then show ?thesis using hex_rune_ascii [OF assms, of t] by (simp add: unescape_def)
  next
    case 9
    with assms show ?thesis by (simp add: rune_len_ascii)
  qed (simp_all add: esc_ascii_def unescape_def)
qed

lemma high_byte_no_ascii: "128 \<le> byte c \<Longrightarrow> byte d < 128 \<Longrightarrow> c \<noteq> d"
  by auto

lemma unquote_rune:
  assumes "128 \<le> byte c" "rune_len (c # s) \<noteq> 0"
  shows "unquote (take (rune_len (c # s)) (c # s) @ t) = add_text (take (rune_len (c # s)) (c # s)) (unquote t)"
proof -
  define n where "n = rune_len (c # s)"
  obtain k where n: "n = Suc k" using assms(2) n_def not0_implies_Suc by metis
  have len: "n \<le> length (c # s)" by (simp only: n_def rune_len_le)
  have r: "rune_len (c # take k s @ t) = n"
    using rune_len_take [OF assms(2), of t] n by (simp only: n_def [symmetric] take_Suc_Cons append_Cons)
  have q: "c \<noteq> CHR 0x22" "c \<noteq> CHR 0x5C" "\<not> byte c < 32"
    using assms(1) by (auto simp: byte_def)
  have "unquote (c # take k s @ t) = add_text (take n (c # take k s @ t)) (unquote (drop n (c # take k s @ t)))"
    using q r n by simp
  moreover have "take n (c # take k s @ t) = take n (c # s)" "drop n (c # take k s @ t) = t"
    using len n by simp_all
  ultimately show ?thesis by (simp only: n_def [symmetric]) (simp add: n)
qed

lemma take3_E2:
  assumes "take 3 (c # s) = [CHR 0xE2, CHR 0x80, x]" "x = CHR 0xA8 \<or> x = CHR 0xA9"
  shows "rune_len (c # s) = 3"
proof -
  from assms(1) obtain r where s: "c # s = CHR 0xE2 # CHR 0x80 # x # r"
    by (metis append_Cons append_take_drop_id append_Nil)
  show ?thesis using assms(2) by (auto simp: s rune_len.simps cont_byte_def byte_def)
qed

lemma unquote_quote_body: "valid_utf8 s \<Longrightarrow> unquote (quote_body s @ CHR 0x22 # t) = Some (s, t)"
proof (induction s rule: quote_body.induct)
  case (2 c s)
  let ?n = "rune_len (c # s)"
  have n0: "?n \<noteq> 0" and v: "valid_utf8 (drop ?n (c # s))"
    using 2(6) by (simp_all add: valid_utf8.simps [of "c # s"] split: if_splits)
  have split: "take ?n (c # s) @ drop ?n (c # s) = c # s" by (rule append_take_drop_id)
  show ?case
  proof (cases "byte c < 128")
    case True
    then have "?n = 1" by (simp add: rune_len_ascii)
    with v True 2(1) show ?thesis by (simp add: unquote_esc_ascii add_text_def)
  next
    case high: False
    have u: "unquote (quote_body (drop ?n (c # s)) @ CHR 0x22 # t) = Some (drop ?n (c # s), t)"
    proof (cases "take 3 (c # s) = [CHR 0xE2, CHR 0x80, CHR 0xA8] \<or> take 3 (c # s) = [CHR 0xE2, CHR 0x80, CHR 0xA9]")
      case True
      then have "?n = 3" using take3_E2 by blast
      with True v high n0 2(3,4) show ?thesis by metis
    next
      case False
      with v high n0 2(5) show ?thesis by blast
    qed
    show ?thesis
    proof (cases "take 3 (c # s) = [CHR 0xE2, CHR 0x80, CHR 0xA8] \<or> take 3 (c # s) = [CHR 0xE2, CHR 0x80, CHR 0xA9]")
      case True
      then have n3: "?n = 3" using take3_E2 by blast
      have "unquote (quote_body (c # s) @ CHR 0x22 # t) =
          add_text (take 3 (c # s)) (unquote (quote_body (drop 3 (c # s)) @ CHR 0x22 # t))"
        using True high n0 by (auto simp: hex_rune_2028)
      with u split show ?thesis by (simp only: n3) (simp add: add_text_def)
    next
      case False
      then have "quote_body (c # s) = take ?n (c # s) @ quote_body (drop ?n (c # s))"
        using high n0 by auto
      then have "unquote (quote_body (c # s) @ CHR 0x22 # t) =
          add_text (take ?n (c # s)) (unquote (quote_body (drop ?n (c # s)) @ CHR 0x22 # t))"
        using unquote_rune [of c s "quote_body (drop ?n (c # s)) @ CHR 0x22 # t"] high n0
        by (simp only: append_assoc) simp
      with u split show ?thesis by (simp add: add_text_def)
    qed
  qed
qed simp

subsection \<open>Numbers\<close>

text \<open>What may follow a number without becoming part of it.\<close>

definition num_char :: "char \<Rightarrow> bool" where
  "num_char c \<longleftrightarrow> is_digit c \<or> c = CHR ''.'' \<or> c = CHR ''e'' \<or> c = CHR ''E'' \<or> c = CHR ''+'' \<or> c = CHR ''-''"

definition stops :: "string \<Rightarrow> bool" where
  "stops s \<longleftrightarrow> (case s of [] \<Rightarrow> True | c # _ \<Rightarrow> \<not> num_char c)"

lemma stops_simps [simp]: "stops []" "stops (c # s) = (\<not> num_char c)"
  by (simp_all add: stops_def)

lemma digits1_append:
  assumes "digits1 s = Some (d, r)" "r = [] \<Longrightarrow> stops t"
  shows "digits1 (s @ t) = Some (d, r @ t)"
proof -
  from assms(1) have d: "d = takeWhile is_digit s" "r = dropWhile is_digit s" "d \<noteq> []"
    by (auto simp: digits1_def Let_def split: if_splits)
  show ?thesis
  proof (cases "r = []")
    case True
    then have "stops t" by (rule assms(2))
    from True d have all: "\<forall>c \<in> set s. is_digit c" by (metis dropWhile_eq_Nil_conv)
    then have "takeWhile is_digit s = s" by (simp add: takeWhile_eq_all_conv)
    with all d True \<open>stops t\<close> show ?thesis
      using assms(1) by (cases t) (auto simp: digits1_def Let_def num_char_def takeWhile_append2 dropWhile_append2)
  next
    case False
    then obtain c where "c \<in> set s" "\<not> is_digit c" by (metis d(2) dropWhile_eq_Nil_conv)
    with d show ?thesis by (simp add: digits1_def Let_def takeWhile_append1 dropWhile_append1)
  qed
qed

lemma num_int_append:
  "num_int s = Some (i, r) \<Longrightarrow> (r = [] \<Longrightarrow> stops t) \<Longrightarrow> num_int (s @ t) = Some (i, r @ t)"
  by (cases s) (auto simp: num_int_def digits1_append [of "_ # _", simplified] split: if_splits)

lemma num_frac_append:
  assumes "num_frac s = Some (f, r)" "r = [] \<Longrightarrow> stops t"
  shows "num_frac (s @ t) = Some (f, r @ t)"
proof (cases s)
  case Nil
  with assms show ?thesis by (cases t) (auto simp: num_frac_def num_char_def)
next
  case (Cons c u)
  with assms show ?thesis by (auto simp: num_frac_def digits1_append split: if_splits)
qed

lemma num_exp_append:
  assumes "num_exp s = Some (e, r)" "r = [] \<Longrightarrow> stops t"
  shows "num_exp (s @ t) = Some (e, r @ t)"
proof (cases s)
  case Nil
  with assms show ?thesis by (cases t) (auto simp: num_exp_def num_char_def)
next
  case (Cons c u)
  show ?thesis
  proof (cases u)
    case Nil
    with Cons assms show ?thesis by (auto simp: num_exp_def split: if_splits)
  next
    case u: (Cons g v)
    with Cons assms show ?thesis
      by (auto simp: num_exp_def digits1_append digits1_append [of "_ # _", simplified] split: if_splits)
  qed
qed

lemma digits1_rest: "digits1 s = Some (d, r) \<Longrightarrow> s = d @ r"
  by (auto simp: digits1_def Let_def split: if_splits)

lemma num_unsigned_append:
  assumes "num_unsigned s = Some (n, [])" "stops t"
  shows "num_unsigned (s @ t) = Some (n, t)"
proof -
  from assms(1) obtain i r1 f r2 e where
    i: "num_int s = Some (i, r1)" and f: "num_frac r1 = Some (f, r2)"
    and e: "num_exp r2 = Some (e, [])" and n: "n = i @ f @ e"
    by (auto simp: num_unsigned_def split: option.splits)
  from num_int_append [OF i] num_frac_append [OF f] num_exp_append [OF e] assms(2)
  show ?thesis by (simp add: num_unsigned_def n)
qed

lemma number_append:
  "number s = Some (n, []) \<Longrightarrow> stops t \<Longrightarrow> number (s @ t) = Some (n, t)"
  by (cases s) (auto simp: number_def num_unsigned_append num_unsigned_append [of "_ # _", simplified] split: if_splits)

lemma number_front: "number s = Some (n, r) \<Longrightarrow> \<exists>c u. s = c # u \<and> (c = CHR ''-'' \<or> is_digit c)"
  by (cases s)
    (auto simp: number_def num_unsigned_def num_int_def digits1_def Let_def split: if_splits option.splits,
     simp_all add: is_digit_def byte_def)

subsection \<open>Values\<close>

lemma skip_ws_fix: "\<not> json_space c \<Longrightarrow> skip_ws (c # s) = c # s"
  by (simp add: skip_ws_def)

lemma json_space_simps [simp]:
  "\<not> json_space (CHR 0x22)" "\<not> json_space (CHR ''['')" "\<not> json_space (CHR '']'')"
  "\<not> json_space (CHR 0x7B)" "\<not> json_space (CHR 0x7D)" "\<not> json_space (CHR '','')"
  "\<not> json_space (CHR '':'')" "\<not> json_space (CHR ''t'')" "\<not> json_space (CHR ''f'')"
  "\<not> json_space (CHR ''n'')" "\<not> json_space (CHR ''-'')"
  by (simp_all add: json_space_def)

lemma num_char_simps [simp]: "\<not> num_char (CHR '','')" "\<not> num_char (CHR '']'')" "\<not> num_char (CHR 0x7D)"
  by (simp_all add: num_char_def is_digit_def byte_def)

lemma digit_no_mark:
  assumes "is_digit c"
  shows "\<not> json_space c" "c \<noteq> CHR 0x22" "c \<noteq> CHR ''[''" "c \<noteq> CHR '']''" "c \<noteq> CHR 0x7B"
  using assms by (auto simp: is_digit_def json_space_def byte_def)

text \<open>The first byte of an encoded value: no blank, no closing bracket.\<close>

lemma encode_front:
  "wf_json v \<Longrightarrow> \<exists>c s. encode v = c # s \<and> \<not> json_space c \<and> c \<noteq> CHR '']''"
proof (cases v)
  case (JNum n)
  assume "wf_json v"
  with JNum number_front [of n n "[]"] obtain c u
    where n: "n = c # u" and c: "c = CHR ''-'' \<or> is_digit c"
    by auto
  from c have "\<not> json_space c \<and> c \<noteq> CHR '']''"
    by (auto dest: digit_no_mark)
  with n show ?thesis by (simp add: JNum)
qed (auto simp: quote_def)

lemma fold_max_ge: "(x::nat) \<in> set xs \<Longrightarrow> x \<le> fold max xs a"
  using Max_ge [of "set (a # xs)" x] by (simp add: Max.set_eq_fold [symmetric])

text \<open>One value reads back in front of any text that cannot extend a number.\<close>

definition reads_back :: "json \<Rightarrow> bool" where
  "reads_back v \<longleftrightarrow> (\<forall>d t. int (jdepth v) \<le> d \<longrightarrow> stops t \<longrightarrow> decode_val d (encode v @ t) = Some (v, t))"

lemma decode_elems_encode:
  assumes "vs \<noteq> []" "\<And>v. v \<in> set vs \<Longrightarrow> reads_back v \<and> int (jdepth v) \<le> d"
  shows "decode_elems d (Join (map encode vs) '','' @ CHR '']'' # t) = Some (vs, t)"
  using assms
proof (induction vs)
  case (Cons v vs)
  have v: "decode_val d (encode v @ u) = Some (v, u)" if "stops u" for u
    using Cons.prems(2) [of v] that by (simp add: reads_back_def)
  show ?case
  proof (cases "vs = []")
    case True
    with v [of "CHR '']'' # t"] show ?thesis
      by (simp add: decode_elems.simps [of _ "encode v @ _"] skip_ws_fix)
  next
    case False
    then have j: "Join (map encode (v # vs)) '','' @ CHR '']'' # t =
        encode v @ CHR '','' # (Join (map encode vs) '','' @ CHR '']'' # t)"
      by (simp add: Join_Cons)
    have "decode_elems d (Join (map encode vs) '','' @ CHR '']'' # t) = Some (vs, t)"
      using Cons False by simp
    then show ?thesis
      unfolding j
      by (simp add: decode_elems.simps [of _ "encode v @ _"] skip_ws_fix v)
  qed
qed simp

definition encode_field :: "string \<times> json \<Rightarrow> string" where
  "encode_field p = quote (fst p) @ CHR '':'' # encode (snd p)"

lemma encode_JObj:
  "encode (JObj m) = CHR 0x7B # Join (map encode_field m) '','' @ [CHR 0x7D]"
  by (simp add: encode_field_def [abs_def] case_prod_beta')

lemma decode_member_step:
  assumes "valid_utf8 k" "reads_back v" "int (jdepth v) \<le> d" "stops t"
  shows "decode_members d (encode_field (k, v) @ t) m =
    (case skip_ws t of [] \<Rightarrow> None
     | e # r \<Rightarrow> if e = CHR '','' then
                  (if length r < length (encode_field (k, v) @ t) then decode_members d r (obj_put k v m) else None)
                else if e = CHR 0x7D then Some (obj_put k v m, r) else None)"
proof -
  have "unquote (quote_body k @ CHR 0x22 # CHR '':'' # encode v @ t) = Some (k, CHR '':'' # encode v @ t)"
    using assms(1) by (rule unquote_quote_body)
  moreover have "decode_val d (encode v @ t) = Some (v, t)"
    using assms(2-4) by (simp add: reads_back_def)
  ultimately show ?thesis
    by (simp add: decode_members.simps [of _ "encode_field (k, v) @ t"])
       (simp add: encode_field_def quote_def skip_ws_fix)
qed

lemma decode_members_encode:
  assumes "m \<noteq> []" "\<And>k v. (k, v) \<in> set m \<Longrightarrow> valid_utf8 k \<and> reads_back v \<and> int (jdepth v) \<le> d"
  shows "decode_members d (Join (map encode_field m) '','' @ CHR 0x7D # t) acc =
    Some (fold (\<lambda>(k, v). obj_put k v) m acc, t)"
  using assms
proof (induction m arbitrary: acc)
  case (Cons p m)
  obtain k v where p: "p = (k, v)" by (cases p)
  have kv: "valid_utf8 k" "reads_back v" "int (jdepth v) \<le> d"
    using Cons.prems(2) [of k v] by (auto simp: p)
  show ?case
  proof (cases "m = []")
    case True
    with decode_member_step [OF kv, of "CHR 0x7D # t" acc] show ?thesis
      by (simp add: p skip_ws_fix)
  next
    case False
    let ?r = "Join (map encode_field m) '','' @ CHR 0x7D # t"
    have j: "Join (map encode_field (p # m)) '','' @ CHR 0x7D # t = encode_field (k, v) @ CHR '','' # ?r"
      using False by (simp add: Join_Cons p)
    have "decode_members d ?r (obj_put k v acc) = Some (fold (\<lambda>(k, v). obj_put k v) m (obj_put k v acc), t)"
      by (rule Cons.IH [OF False]) (rule Cons.prems(2), simp)
    with decode_member_step [OF kv, of "CHR '','' # ?r" acc] show ?thesis
      unfolding j by (simp add: p skip_ws_fix)
  qed
qed simp

lemma obj_put_last:
  "(\<And>k'. k' \<in> fst ` set m \<Longrightarrow> k' < k) \<Longrightarrow> obj_put k v m = m @ [(k, v)]"
proof (induction m)
  case (Cons p m)
  then have "fst p < k" "obj_put k v m = m @ [(k, v)]" by auto
  then show ?case by (cases p) auto
qed simp

lemma fold_obj_put_sorted:
  "sorted_obj (acc @ m) \<Longrightarrow> fold (\<lambda>(k, v). obj_put k v) m acc = acc @ m"
proof (induction m arbitrary: acc)
  case (Cons p m)
  obtain k v where p: "p = (k, v)" by (cases p)
  have "obj_put k v acc = acc @ [(k, v)]"
  proof (rule obj_put_last)
    fix k' assume "k' \<in> fst ` set acc"
    with Cons.prems show "k' < k"
      by (auto simp: sorted_obj_def sorted_append p order_le_less)
  qed
  with Cons.IH [of "acc @ [(k, v)]"] Cons.prems show ?case by (simp add: p)
qed simp

lemma mk_obj_sorted: "sorted_obj m \<Longrightarrow> mk_obj m = m"
  using fold_obj_put_sorted [of "[]" m] by (simp add: mk_obj_def)

lemma reads_back_wf: "wf_json v \<Longrightarrow> reads_back v"
proof (induction v)
  case (JNum n)
  then have num: "number n = Some (n, [])" by simp
  then obtain c u where n: "n = c # u" and c: "c = CHR ''-'' \<or> is_digit c"
    using number_front by blast
  have sp: "\<not> json_space c \<and> c \<noteq> CHR 0x22 \<and> c \<noteq> CHR ''['' \<and> c \<noteq> CHR 0x7B"
    using c by (auto dest: digit_no_mark)
  have "decode_val d (n @ t) = Some (JNum n, t)" if "stops t" for d t
    using number_append [OF num that] c sp by (auto simp: n decode_val.simps [of d] skip_ws_fix)
  then show ?case by (simp add: reads_back_def n)
next
  case (JStr s)
  then show ?case
    by (simp add: reads_back_def quote_def decode_val.simps [of _ "_ # _"] skip_ws_fix unquote_quote_body)
next
  case (JArr vs)
  have el: "reads_back v \<and> int (jdepth v) \<le> d - 1"
    if "v \<in> set vs" "int (jdepth (JArr vs)) \<le> d" for v d
    using that JArr fold_max_ge [of "jdepth v" "map jdepth vs" 0] by (auto simp: list_all_iff)
  show ?case
  proof (cases "vs = []")
    case True
    then show ?thesis by (simp add: reads_back_def decode_val.simps [of _ "_ # _"] skip_ws_fix)
  next
    case False
    then obtain v ws where vs: "vs = v # ws" by (cases vs) auto
    with JArr have "wf_json v" by simp
    then obtain c u where cu: "encode v = c # u" "\<not> json_space c" "c \<noteq> CHR '']''"
      using encode_front by blast
    have front: "\<exists>u'. Join (map encode vs) '','' = c # u'"
      by (cases ws) (simp_all add: vs cu)
    have "decode_val d (encode (JArr vs) @ t) = Some (JArr vs, t)" if "int (jdepth (JArr vs)) \<le> d" for d t
    proof -
      have "0 < d" using that by simp
      with front cu decode_elems_encode [OF False, of "d - 1" t] el [OF _ that] show ?thesis
        by (auto simp: decode_val.simps [of d "_ # _"] skip_ws_fix)
    qed
    then show ?thesis by (simp add: reads_back_def del: encode.simps jdepth.simps)
  qed
next
  case (JObj m)
  have el: "valid_utf8 k \<and> reads_back v \<and> int (jdepth v) \<le> d - 1"
    if "(k, v) \<in> set m" "int (jdepth (JObj m)) \<le> d" for k v d
    using that JObj.prems JObj.IH [of "(k, v)" v]
      fold_max_ge [of "jdepth v" "map (\<lambda>(k, v). jdepth v) m" 0]
    by (fastforce simp: list_all_iff)
  show ?case
  proof (cases "m = []")
    case True
    then show ?thesis by (simp add: reads_back_def decode_val.simps [of _ "_ # _"] skip_ws_fix)
  next
    case False
    have front: "\<exists>u'. Join (map encode_field m) '','' = CHR 0x22 # u'"
      using False by (cases m; cases "tl m") (simp_all add: encode_field_def quote_def)
    have "decode_val d (encode (JObj m) @ t) = Some (JObj m, t)" if "int (jdepth (JObj m)) \<le> d" for d t
    proof -
      have "0 < d" using that by simp
      moreover have "fold (\<lambda>(k, v). obj_put k v) m [] = m"
        using JObj.prems fold_obj_put_sorted [of "[]" m] by simp
      ultimately show ?thesis
        using front decode_members_encode [OF False, of "d - 1" t "[]"] el [OF _ that]
        by (auto simp: decode_val.simps [of d "_ # _"] skip_ws_fix encode_JObj simp del: encode.simps)
    qed
    then show ?thesis by (simp add: reads_back_def del: encode.simps jdepth.simps)
  qed
qed (auto simp: reads_back_def decode_val.simps [of _ "_ # _"] skip_ws_fix literal_val_def HasPrefix_def
        is_digit_def byte_def)

theorem decode_encode:
  assumes "wf_json v" "jdepth v \<le> 10000"
  shows "decode_val max_depth (encode v) = Some (v, [])"
proof -
  have "\<forall>t. stops t \<longrightarrow> decode_val 10000 (encode v @ t) = Some (v, t)"
    using reads_back_wf [OF assms(1)] assms(2) by (simp add: reads_back_def)
  then show ?thesis by (metis append_Nil2 max_depth_def stops_simps(1))
qed

lemma decode_all_encode: "wf_json v \<Longrightarrow> jdepth v \<le> 10000 \<Longrightarrow> decode_all (encode v) = Some v"
  by (simp add: decode_all_def decode_encode skip_ws_def)

lemma decode_first_encode: "wf_json v \<Longrightarrow> jdepth v \<le> 10000 \<Longrightarrow> decode_first (encode v) = Some v"
  by (simp add: decode_first_def decode_encode)

lemma fold_max_le: "fold max xs a \<le> (n :: nat) \<longleftrightarrow> a \<le> n \<and> (\<forall>x \<in> set xs. x \<le> n)"
  by (induction xs arbitrary: a) auto

lemma jdepth_bound: "(\<And>x. x \<in> set xs \<Longrightarrow> x \<le> n) \<Longrightarrow> a \<le> n \<Longrightarrow> fold max xs a \<le> (n :: nat)"
  by (simp add: fold_max_le)

lemma jdepth_members:
  "list_all (\<lambda>(k, v). jdepth v \<le> n) m \<Longrightarrow> jdepth (JObj m) \<le> Suc n"
  by (auto simp: list_all_iff intro!: jdepth_bound)

subsection \<open>The codec as an interface\<close>

locale json_codec =
  fixes enc :: "json \<Rightarrow> string"
    and dec :: "string \<Rightarrow> json option"
    and printable :: "json \<Rightarrow> bool"
  assumes dec_enc: "printable v \<Longrightarrow> dec (enc v) = Some v"
begin

lemma enc_inj: "printable v \<Longrightarrow> printable w \<Longrightarrow> enc v = enc w \<Longrightarrow> v = w"
  by (metis dec_enc option.inject)

lemma enc_dec_enc: "printable v \<Longrightarrow> map_option enc (dec (enc v)) = Some (enc v)"
  by (simp add: dec_enc)

end

definition printable :: "json \<Rightarrow> bool" where
  "printable v \<longleftrightarrow> wf_json v \<and> jdepth v \<le> 10000"

interpretation whole: json_codec encode decode_all printable
  by unfold_locales (simp add: printable_def decode_all_encode)

interpretation first: json_codec encode decode_first printable
  by unfold_locales (simp add: printable_def decode_first_encode)

end
