(* ===== verification/Go_Float.thy ===== *)
theory Go_Float
  imports Go_Json
begin

text \<open>
  \<open>json.Unmarshal\<close> without \<open>UseNumber\<close> turns every number into a \<open>float64\<close>, and
  \<open>json.Marshal\<close> prints the shortest decimal that reads back as that \<open>float64\<close>.
  \<open>float_text\<close> is the composition on the text of a number: the literal is rounded to the
  nearest binary64 value (ties to even), \<open>None\<close> when it is out of range (an error of
  \<open>Unmarshal\<close>); the value is printed as \<open>encoding/json\<close> does, with an exponent below
  \<open>1e-6\<close> and from \<open>1e21\<close> on. Everything is computed on \<open>int\<close>.
\<close>

fun dec_int :: "int \<Rightarrow> string \<Rightarrow> int" where
  "dec_int n [] = n"
| "dec_int n (c # s) = dec_int (10 * n + int (digit_val c)) s"

text \<open>Sign, digits and decimal exponent of a literal: the value is \<open>m * 10 ^ e\<close>.\<close>

definition lit_parts :: "string \<Rightarrow> bool \<times> int \<times> int" where
  "lit_parts s =
     (let (neg, u) = parse_sign s;
          i = takeWhile is_digit u; r = dropWhile is_digit u;
          (f, t) = (case r of [] \<Rightarrow> ([], [])
             | c # r' \<Rightarrow> if c = CHR ''.'' then (takeWhile is_digit r', dropWhile is_digit r') else ([], r));
          e = (case t of [] \<Rightarrow> 0
             | _ # t' \<Rightarrow> (let (eneg, ed) = parse_sign t'; x = dec_int 0 ed in if eneg then - x else x))
      in (neg, dec_int 0 (i @ f), e - int (length f)))"

function bits :: "int \<Rightarrow> int" where
  "bits n = (if n \<le> 0 then 0 else 1 + bits (n div 2))"
  by pat_completeness auto
termination
  by (relation "measure nat") auto

declare bits.simps [simp del]

text \<open>\<open>n / (d * 2 ^ e)\<close>, rounded to the nearest integer, ties to even.\<close>

definition scale2 :: "int \<Rightarrow> int \<Rightarrow> int \<Rightarrow> int \<times> int" where
  "scale2 n d e = (if 0 \<le> e then (n, d * 2 ^ nat e) else (n * 2 ^ nat (- e), d))"

definition round_even :: "int \<Rightarrow> int \<Rightarrow> int" where
  "round_even n d =
     (let q = n div d; r = n mod d
      in if 2 * r > d \<or> (2 * r = d \<and> odd q) then q + 1 else q)"

text \<open>The binary64 value nearest to \<open>n / d\<close> as mantissa and exponent, \<open>None\<close> on overflow.\<close>

definition to_float :: "int \<Rightarrow> int \<Rightarrow> (int \<times> int) option" where
  "to_float n d =
     (if n = 0 then Some (0, - 1074)
      else
        (let b = bits n - bits d - 53;
             (n1, d1) = scale2 n d b;
             e = max (if n1 div d1 < 9007199254740992 then b else b + 1) (- 1074);
             (n2, d2) = scale2 n d e;
             m = round_even n2 d2;
             (m', e') = (if m = 9007199254740992 then (4503599627370496, e + 1) else (m, e))
         in if e' > 971 then None else Some (m', e')))"

definition ratio10 :: "int \<Rightarrow> int \<Rightarrow> int \<times> int" where
  "ratio10 m e = (if 0 \<le> e then (m * 10 ^ nat e, 1) else (m, 10 ^ nat (- e)))"

definition ParseFloat :: "string \<Rightarrow> (bool \<times> int \<times> int) option" where
  "ParseFloat s =
     (let (neg, m, e) = lit_parts s; (n, d) = ratio10 m e
      in map_option (\<lambda>(b, x). (neg, b, x)) (to_float n d))"

function int_text :: "int \<Rightarrow> string" where
  "int_text n =
     (if n < 10 then [digit_char (nat n)] else int_text (n div 10) @ [digit_char (nat (n mod 10))])"
  by pat_completeness auto
termination
  by (relation "measure nat") auto

declare int_text.simps [simp del]

text \<open>The decimal exponent \<open>k\<close> with \<open>10 ^ (k - 1) \<le> n / d < 10 ^ k\<close>.\<close>

function small_exp :: "int \<Rightarrow> int \<Rightarrow> int" where
  "small_exp n d = (if n \<le> 0 \<or> d \<le> n then 1 else small_exp (10 * n) d - 1)"
  by pat_completeness auto
termination
  by (relation "measure (\<lambda>(n, d). nat (d - n))") auto

declare small_exp.simps [simp del]

definition dec_exp :: "int \<Rightarrow> int \<Rightarrow> int" where
  "dec_exp n d = (if d \<le> n then int (length (int_text (n div d))) else small_exp n d)"

text \<open>The shortest digits \<open>D\<close> with \<open>D * 10 ^ x\<close> reading back as the value, of at most 17. Seventeen
  digits tell all binary64 values apart, so the first equation of \<open>shortest\<close> is the end of the
  fuel only.\<close>

definition digits_of :: "int \<Rightarrow> int \<Rightarrow> int \<Rightarrow> int \<Rightarrow> int \<Rightarrow> (int \<times> int) option" where
  "digits_of m e n d x =
     (let (n1, d1) = (if 0 \<le> x then (n, d * 10 ^ nat x) else (n * 10 ^ nat (- x), d));
          lo = n1 div d1; hi = lo + 1;
          ok = (\<lambda>D. let (a, b) = ratio10 D x in to_float a b = Some (m, e))
      in if ok lo \<and> (\<not> ok hi \<or> 2 * (n1 mod d1) \<le> d1) then Some (lo, x)
         else if ok hi then Some (hi, x) else None)"

fun shortest :: "nat \<Rightarrow> int \<Rightarrow> int \<Rightarrow> int \<Rightarrow> int \<Rightarrow> int \<Rightarrow> int \<times> int" where
  "shortest 0 m e n d x = (max 1 (n div d), 0)"
| "shortest (Suc fuel) m e n d x =
     (case digits_of m e n d x of Some p \<Rightarrow> p | None \<Rightarrow> shortest fuel m e n d (x - 1))"

definition zeros :: "int \<Rightarrow> string" where
  "zeros n = replicate (nat n) (CHR ''0'')"

definition strip_zeros :: "string \<Rightarrow> string" where
  "strip_zeros s = rev (dropWhile (\<lambda>c. c = CHR ''0'') (rev s))"

text \<open>The digits \<open>ds\<close> with the decimal point after position \<open>dp\<close>.\<close>

definition format_f :: "string \<Rightarrow> int \<Rightarrow> string" where
  "format_f ds dp =
     (if dp \<le> 0 then ''0.'' @ zeros (- dp) @ ds
      else if int (length ds) \<le> dp then ds @ zeros (dp - int (length ds))
      else take (nat dp) ds @ ''.'' @ drop (nat dp) ds)"

definition format_e :: "string \<Rightarrow> int \<Rightarrow> string" where
  "format_e ds dp =
     take 1 ds @ (if drop 1 ds = [] then [] else ''.'' @ drop 1 ds) @ ''e'' @
     (if dp - 1 < 0 then [] else ''+'') @ Itoa (dp - 1)"

definition format_float :: "bool \<times> int \<times> int \<Rightarrow> string" where
  "format_float f =
     (let (neg, m, e) = f in
      (if neg then ''-'' else []) @
      (if m = 0 then ''0''
       else
         (let (num, den) = (if 0 \<le> e then (m * 2 ^ nat e, 1) else (m, 2 ^ nat (- e)));
              k = dec_exp num den;
              (D, x) = shortest 17 m e num den (k - 1);
              all = int_text D; ds = strip_zeros all; dp = int (length all) + x
          in if num * 4722366482869645213696 < den * 4722366482869645 \<or> den * 1000000000000000000000 \<le> num
             then format_e ds dp else format_f ds dp)))"

definition float_text :: "string \<Rightarrow> string option" where
  "float_text s = map_option format_float (ParseFloat s)"

text \<open>
  The bound \<open>1e-6\<close> of the encoder is the \<open>float64\<close> constant \<open>4722366482869645 / 2 ^ 72\<close>.

  \<open>json.Unmarshal\<close> into \<open>any\<close> followed by any number of moves and a \<open>json.Marshal\<close>: the
  numbers inside a value are replaced by their \<open>float64\<close> text. \<open>None\<close> is the error of
  \<open>Unmarshal\<close> for a number out of range.
\<close>

fun opt_list :: "'a option list \<Rightarrow> 'a list option" where
  "opt_list [] = Some []"
| "opt_list (None # xs) = None"
| "opt_list (Some x # xs) = map_option (Cons x) (opt_list xs)"

fun float_json :: "json \<Rightarrow> json option" where
  "float_json (JNum n) = map_option JNum (float_text n)"
| "float_json (JArr vs) = map_option JArr (opt_list (map float_json vs))"
| "float_json (JObj m) =
     map_option JObj (opt_list (map (\<lambda>(k, v). map_option (Pair k) (float_json v)) m))"
| "float_json v = Some v"

end
