(* ===== verification/Values.thy ===== *)
theory Values
  imports Go_Json_Roundtrip Go_Float
begin

text \<open>
  The accessors the translators share (the helpers at the end of
  \<open>internal/translate/claude_responses.go\<close>): reading strings, numbers, arrays and objects
  out of decoded JSON, with the defaults the code uses for missing or mistyped values.
\<close>

definition decodeObject :: "string \<Rightarrow> obj res" where
  "decodeObject raw =
     (case decode_first raw of
        Some (JObj m) \<Rightarrow> Inr m
      | Some JNull \<Rightarrow> Inl (ErrorText ''expected a JSON object'')
      | _ \<Rightarrow> Inl JsonError)"

definition copyField :: "obj \<Rightarrow> obj \<Rightarrow> string \<Rightarrow> string \<Rightarrow> obj" where
  "copyField out m source destination =
     (case map_of m source of Some v \<Rightarrow> obj_put destination v out | None \<Rightarrow> out)"

fun arrayValue :: "json \<Rightarrow> json list" where
  "arrayValue (JArr vs) = vs"
| "arrayValue _ = []"

fun objectValue :: "json \<Rightarrow> obj" where
  "objectValue (JObj m) = m"
| "objectValue _ = []"

fun rawStringValue :: "json \<Rightarrow> string" where
  "rawStringValue (JStr s) = s"
| "rawStringValue _ = []"

definition stringValue :: "json \<Rightarrow> string" where
  "stringValue v = TrimSpace (rawStringValue v)"

text \<open>The comma-ok type assertions \<open>v.(map[string]any)\<close> and \<open>v.([]any)\<close>.\<close>

fun as_object :: "json \<Rightarrow> obj option" where
  "as_object (JObj m) = Some m"
| "as_object _ = None"

fun as_array :: "json \<Rightarrow> json list option" where
  "as_array (JArr vs) = Some vs"
| "as_array _ = None"

fun firstNonEmptyString :: "string list \<Rightarrow> string" where
  "firstNonEmptyString [] = []"
| "firstNonEmptyString (v # vs) =
     (if TrimSpace v \<noteq> [] then TrimSpace v else firstNonEmptyString vs)"

fun firstString :: "obj \<Rightarrow> string list \<Rightarrow> string" where
  "firstString m [] = []"
| "firstString m (k # ks) =
     (if stringValue (fld m k) \<noteq> [] then stringValue (fld m k) else firstString m ks)"

fun firstRawString :: "obj \<Rightarrow> string list \<Rightarrow> string" where
  "firstRawString m [] = []"
| "firstRawString m (k # ks) =
     (if rawStringValue (fld m k) \<noteq> [] then rawStringValue (fld m k) else firstRawString m ks)"

text \<open>\<open>numberValue\<close> gives the number itself or the Go integer 0; \<open>int64Value\<close> drops the error
  of \<open>json.Number.Int64\<close> and keeps its value.\<close>

fun numberValue :: "json \<Rightarrow> json" where
  "numberValue (JNum n) = JNum n"
| "numberValue _ = JNum ''0''"

fun int64Value :: "json \<Rightarrow> int64" where
  "int64Value (JNum n) = word_of_int (fst (ParseInt n))"
| "int64Value _ = 0"

definition int64_json :: "int64 \<Rightarrow> json" where
  "int64_json w = JNum (Itoa (sint w))"

definition nat_json :: "nat \<Rightarrow> json" where
  "nat_json n = JNum (Itoa (int n))"

definition is_json_string :: "json \<Rightarrow> bool" where
  "is_json_string v = (case v of JStr _ \<Rightarrow> True | _ \<Rightarrow> False)"

lemma stringValue_simps [simp]:
  "stringValue JNull = []" "stringValue (JBool b) = []" "stringValue (JNum n) = []"
  "stringValue (JArr vs) = []" "stringValue (JObj m) = []" "stringValue (JStr s) = TrimSpace s"
  by (simp_all add: stringValue_def)

lemma TrimSpace_stringValue [simp]: "TrimSpace (stringValue v) = stringValue v"
  by (simp add: stringValue_def)

lemma firstNonEmpty_trimmed: "TrimSpace (firstNonEmptyString vs) = firstNonEmptyString vs"
  by (induction vs) auto

lemma firstNonEmpty_default: "TrimSpace d \<noteq> [] \<Longrightarrow> d \<in> set vs \<Longrightarrow> firstNonEmptyString vs \<noteq> []"
  by (induction vs) auto

lemma firstString_firstNonEmpty:
  "firstString m ks = firstNonEmptyString (map (\<lambda>k. stringValue (fld m k)) ks)"
  by (induction ks) auto

lemma decodeObject_encode:
  "wf_json (JObj m) \<Longrightarrow> jdepth (JObj m) \<le> 10000 \<Longrightarrow> decodeObject (encode (JObj m)) = Inr m"
  by (simp add: decodeObject_def decode_first_encode del: encode.simps wf_json.simps jdepth.simps)

lemma numberValue_idem [simp]: "numberValue (numberValue v) = numberValue v"
  by (cases v) auto

end
