(* ===== verification/Sse_Frame.thy ===== *)
theory Sse_Frame
  imports Values
begin

text \<open>
  Server-sent-event frames of the stream translators: \<open>parseSSEFrame\<close>, \<open>claudeSSE\<close> and the
  block keys \<open>itemKey\<close>, \<open>contentKey\<close> (\<open>internal/translate/claude_responses_stream.go\<close>).
\<close>

definition event_tag :: string where "event_tag = ''event:''"
definition data_tag :: string where "data_tag = ''data:''"

text \<open>One round of the loop over the lines, on the variables \<open>event\<close> and \<open>dataLines\<close>.\<close>

definition parse_line :: "string \<Rightarrow> string \<times> string list \<Rightarrow> string \<times> string list" where
  "parse_line line acc =
     (let (event, dataLines) = acc
      in if HasPrefix line event_tag then (TrimSpace (TrimPrefix line event_tag), dataLines)
         else if HasPrefix line data_tag then (event, dataLines @ [TrimSpace (TrimPrefix line data_tag)])
         else (event, dataLines))"

definition crlf :: string where "crlf = [CHR 0x0D, CHR 0x0A]"
definition lf :: string where "lf = [CHR 0x0A]"

text \<open>The result is the event name, the data and the flag \<open>done\<close>; \<open>None\<close> is \<open>nil\<close> data.\<close>

definition parseSSEFrame :: "string \<Rightarrow> (string \<times> string option \<times> bool) res" where
  "parseSSEFrame frame =
     (let normalized = ReplaceAll frame crlf lf;
          (event, dataLines) = fold parse_line (Split (CHR 0x0A) normalized) ([], [])
      in if dataLines = [] then Inr (event, None, False)
         else
           (let joined = Join dataLines lf
            in if joined = ''[DONE]'' then Inr (event, None, True)
               else if \<not> Valid joined then Inl (ErrorText ''Responses SSE data is invalid JSON'')
               else Inr (event, Some joined, False)))"

definition claudeSSE :: "string \<times> obj \<Rightarrow> string" where
  "claudeSSE f = ''event: '' @ fst f @ lf @ ''data: '' @ encode (JObj (snd f)) @ lf @ lf"

text \<open>The numbers in a decoded payload are \<open>json.Number\<close>; the other cases of the type switch
  in \<open>numberKey\<close> do not occur.\<close>

fun numberKey :: "json \<Rightarrow> string" where
  "numberKey (JNum n) = n"
| "numberKey _ = []"

definition itemKey :: "obj \<Rightarrow> string" where
  "itemKey payload =
     (let index = numberKey (fld payload ''output_index'')
      in if index \<noteq> [] then ''item:'' @ index
         else ''item:'' @ firstNonEmptyString
                [stringValue (fld payload ''item_id''), stringValue (fld (objectValue (fld payload ''item'')) ''id'')])"

definition contentKey :: "obj \<Rightarrow> string" where
  "contentKey payload =
     itemKey payload @ '':content:'' @ firstNonEmptyString [numberKey (fld payload ''content_index''), ''0'']"

text \<open>The error of an \<open>error\<close> or \<open>response.failed\<close> event of the Responses stream.\<close>

definition stream_failure :: "obj \<Rightarrow> go_error" where
  "stream_failure payload =
     (let errorObject = (case as_object (fld payload ''response'') of
            Some response \<Rightarrow>
              (if objectValue (fld response ''error'') \<noteq> [] then objectValue (fld response ''error'')
               else objectValue (fld payload ''error''))
          | None \<Rightarrow> objectValue (fld payload ''error''));
          message = firstNonEmptyString [stringValue (fld errorObject ''message''),
            stringValue (fld payload ''message''), ''unknown upstream stream error'']
      in ErrorText (''Copilot Responses stream failed: '' @ message))"

lemma itemKey_not_Nil [simp]: "itemKey p \<noteq> []" "contentKey p \<noteq> []"
  by (simp_all add: itemKey_def contentKey_def Let_def)

subsection \<open>Text without control bytes\<close>

text \<open>What the encoder prints has no byte below 32, so it fits on one line of a frame.\<close>

definition no_ctl :: "string \<Rightarrow> bool" where
  "no_ctl s \<longleftrightarrow> list_all (\<lambda>c. 32 \<le> byte c) s"

lemma no_ctl_simps [simp]:
  "no_ctl []" "no_ctl (c # s) \<longleftrightarrow> 32 \<le> byte c \<and> no_ctl s" "no_ctl (s @ t) \<longleftrightarrow> no_ctl s \<and> no_ctl t"
  by (simp_all add: no_ctl_def)

lemma no_ctl_Join: "list_all no_ctl ss \<Longrightarrow> no_ctl sep \<Longrightarrow> no_ctl (Join ss sep)"
  by (induction ss sep rule: Join.induct) auto

lemma no_ctl_mem: "no_ctl s \<Longrightarrow> byte c < 32 \<Longrightarrow> c \<notin> set s"
  by (auto simp: no_ctl_def list_all_iff)

lemma no_ctl_hex: "n < 16 \<Longrightarrow> 32 \<le> byte (hex_digit n)"
  by (simp add: hex_digit_def byte_def)

lemma no_ctl_esc: "no_ctl (esc_ascii c)"
proof -
  have "byte c div 16 < 16" using byte_lt [of c] by simp
  then show ?thesis by (simp add: esc_ascii_def no_ctl_hex) (simp add: byte_def)
qed

lemma rune_high:
  assumes "128 \<le> byte c"
  shows "list_all (\<lambda>d. 128 \<le> byte d) (take (rune_len (c # r)) (c # r))"
proof -
  have cont: "cont_byte d \<Longrightarrow> 128 \<le> byte d" for d by (simp add: cont_byte_def)
  consider "r = []" | b where "r = [b]" | b d where "r = [b, d]" | b d e u where "r = b # d # e # u"
    by (metis neq_Nil_conv)
  then show ?thesis
    using assms by cases (simp_all add: rune_len.simps Let_def cont)
qed

lemma no_ctl_quote_body: "no_ctl (quote_body s)"
proof (induction s rule: quote_body.induct)
  case (2 c r)
  let ?n = "rune_len (c # r)"
  have "no_ctl (take ?n (c # r))" if "\<not> byte c < 128"
    using rune_high [of c r] that by (auto simp: no_ctl_def list_all_iff)
  moreover have "no_ctl [CHR 0x5C, CHR ''u'', CHR ''f'', CHR ''f'', CHR ''f'', CHR ''d'']"
    "no_ctl [CHR 0x5C, CHR ''u'', CHR ''2'', CHR ''0'', CHR ''2'', CHR ''8'']"
    "no_ctl [CHR 0x5C, CHR ''u'', CHR ''2'', CHR ''0'', CHR ''2'', CHR ''9'']"
    by (simp_all add: byte_def)
  ultimately show ?case
    using 2 no_ctl_esc [of c] by (simp only: quote_body.simps no_ctl_simps(3) split: if_split) blast
qed simp

lemma digits1_no_ctl: "digits1 s = Some (d, r) \<Longrightarrow> no_ctl d"
  by (auto simp: digits1_def Let_def no_ctl_def list_all_iff is_digit_def dest!: set_takeWhileD split: if_splits)

lemma number_no_ctl: "number s = Some (n, r) \<Longrightarrow> no_ctl n"
proof -
  have i: "num_int s = Some (n, r) \<Longrightarrow> no_ctl n" for s n r
    by (cases s) (auto simp: num_int_def byte_def dest: digits1_no_ctl split: if_splits)
  have f: "num_frac s = Some (n, r) \<Longrightarrow> no_ctl n" for s n r
    by (cases s) (auto simp: num_frac_def byte_def dest: digits1_no_ctl split: if_splits)
  have e: "num_exp s = Some (n, r) \<Longrightarrow> no_ctl n" for s n r
    by (auto simp: num_exp_def byte_def dest: digits1_no_ctl split: if_splits list.splits)
  have u: "num_unsigned s = Some (n, r) \<Longrightarrow> no_ctl n" for s n r
    by (auto simp: num_unsigned_def split: option.splits) (rule i, assumption, rule f, assumption, rule e, assumption)
  show "number s = Some (n, r) \<Longrightarrow> no_ctl n"
    by (cases s) (auto simp: number_def byte_def dest: u split: if_splits)
qed

lemma encode_no_ctl: "wf_json v \<Longrightarrow> no_ctl (encode v)"
proof (induction v rule: encode.induct)
  case (5 vs)
  then show ?case
    by (auto simp: byte_def list_all_iff intro!: no_ctl_Join)
next
  case (6 m)
  then show ?case
    by (auto simp: byte_def list_all_iff quote_def no_ctl_quote_body intro!: no_ctl_Join) blast
qed (auto simp: byte_def quote_def no_ctl_quote_body number_no_ctl)


subsection \<open>The round trip\<close>

lemma ReplaceAll_absent: "hd old \<notin> set s \<Longrightarrow> old \<noteq> [] \<Longrightarrow> ReplaceAll s old new = s"
  by (induction s) (auto simp: HasPrefix_iff neq_Nil_conv)

lemma parse_line_simps:
  "parse_line (''event: '' @ s) (e, ds) = (TrimSpace (CHR '' '' # s), ds)"
  "parse_line (''data: '' @ s) (e, ds) = (e, ds @ [TrimSpace (CHR '' '' # s)])"
  "parse_line [] acc = acc"
  by (simp_all add: parse_line_def event_tag_def data_tag_def HasPrefix_def TrimPrefix_def split: prod.split)

lemma TrimSpace_blank: "TrimSpace (CHR '' '' # s) = TrimSpace s"
  by (simp add: TrimSpace_def trim_left.simps [of "CHR '' '' # s"] ascii_space_def byte_def)

lemma frame_lines:
  assumes "no_ctl event" "no_ctl data"
  shows "Split (CHR 0x0A) (ReplaceAll (''event: '' @ event @ lf @ ''data: '' @ data @ lf @ lf) crlf lf) =
    [''event: '' @ event, ''data: '' @ data, [], []]"
proof -
  let ?s = "''event: '' @ event @ lf @ ''data: '' @ data @ lf @ lf"
  have "CHR 0x0D \<notin> set ?s"
    using no_ctl_mem [OF assms(1), of "CHR 0x0D"] no_ctl_mem [OF assms(2), of "CHR 0x0D"]
    by (simp add: lf_def byte_def)
  then have "ReplaceAll ?s crlf lf = ?s"
    by (intro ReplaceAll_absent) (simp_all add: crlf_def)
  moreover have no_lf: "CHR 0x0A \<notin> set (''event: '' @ event)" "CHR 0x0A \<notin> set (''data: '' @ data)"
    using no_ctl_mem [OF assms(1), of "CHR 0x0A"] no_ctl_mem [OF assms(2), of "CHR 0x0A"]
    by (simp_all add: byte_def)
  have "Split (CHR 0x0A) ((''event: '' @ event) @ CHR 0x0A # (''data: '' @ data) @ CHR 0x0A # [CHR 0x0A]) =
      [''event: '' @ event, ''data: '' @ data, [], []]"
    by (subst Split_append_sep [OF no_lf(1)], subst Split_append_sep [OF no_lf(2)]) simp
  ultimately show ?thesis by (simp add: lf_def)
qed

lemma encode_trim: "TrimSpace (encode (JObj m)) = encode (JObj m)"
  by (rule TrimSpace_graphic) (simp_all add: encode_JObj graphic_def byte_def)

lemma parse_claudeSSE:
  assumes "no_ctl event" "TrimSpace event = event" "printable (JObj m)"
  shows "parseSSEFrame (claudeSSE (event, m)) = Inr (event, Some (encode (JObj m)), False)"
proof -
  have "no_ctl (encode (JObj m))"
    using assms(3) encode_no_ctl printable_def by blast
  note lines = frame_lines [OF assms(1) this]
  have "Valid (encode (JObj m))"
    using whole.dec_enc [OF assms(3)] by (simp add: Valid_def del: encode.simps)
  moreover have "encode (JObj m) \<noteq> ''[DONE]''"
    by (simp add: encode_JObj)
  ultimately show ?thesis
    using assms(2)
    by (simp add: parseSSEFrame_def claudeSSE_def lines parse_line_simps TrimSpace_blank encode_trim
        del: encode.simps append_Cons)
qed

subsection \<open>Properties\<close>

text \<open>A frame \<open>claudeSSE\<close> writes is read back by \<open>parseSSEFrame\<close> and \<open>decodeObject\<close> as the same
  event and payload.\<close>

theorem claude_sse_round_trip:
  assumes "no_ctl event" "TrimSpace event = event" "printable (JObj m)"
  shows "(case parseSSEFrame (claudeSSE (event, m)) of
            Inr (event', Some data, False) \<Rightarrow> Some (event', decodeObject data) | _ \<Rightarrow> None) =
         Some (event, Inr m)"
  using assms(3) by (simp add: parse_claudeSSE [OF assms] decodeObject_encode printable_def
      del: encode.simps wf_json.simps jdepth.simps)

theorem claude_sse_round_trip_witness:
  "(case parseSSEFrame (claudeSSE (''message_stop'', mk_obj [(''type'', JStr ''message_stop'')])) of
      Inr (event', Some data, False) \<Rightarrow> Some (event', decodeObject data) | _ \<Rightarrow> None) =
   Some (''message_stop'', Inr (mk_obj [(''type'', JStr ''message_stop'')]))"
  by (rule claude_sse_round_trip) code_simp+

end
