(* ===== verification/Claude_Request.thy ===== *)
theory Claude_Request
  imports Values
begin

text \<open>
  Claude Messages requests rewritten as OpenAI Responses requests: \<open>claudeRequestToResponses\<close>
  and its helpers in \<open>internal/translate/claude_responses.go\<close>. The function is modelled in the
  pieces its body consists of: the copied fields, the system text, the tools, the tool choice,
  the reasoning effort, the output format and the message loop, whose body keeps a pending
  list of content parts that \<open>flushMessage\<close> turns into one message item.
\<close>

definition redactedThinkingPrefix :: string where
  "redactedThinkingPrefix = ''claude-redacted-thinking:''"

subsection \<open>Helpers\<close>

definition claudeSystemText :: "json \<Rightarrow> string" where
  "claudeSystemText value =
     (case value of JStr text \<Rightarrow> text
      | _ \<Rightarrow> Join (List.map_filter
               (\<lambda>rawPart. case as_object rawPart of
                  Some part \<Rightarrow>
                    (if stringValue (fld part ''type'') = ''text''
                     then Some (stringValue (fld part ''text'')) else None)
                | None \<Rightarrow> None) (arrayValue value)) [CHR 0x0A])"

definition effort_of_budget :: "int64 \<Rightarrow> string" where
  "effort_of_budget budget =
     (if budget = 0 then ''medium''
      else if sint budget \<le> 2048 then ''low''
      else if sint budget \<le> 8192 then ''medium''
      else ''high'')"

definition claudeReasoningEffort :: "obj \<Rightarrow> string" where
  "claudeReasoningEffort root =
     (let effort = (case as_object (fld root ''output_config'') of
                      Some outputConfig \<Rightarrow> ToLower (stringValue (fld outputConfig ''effort''))
                    | None \<Rightarrow> [])
      in if effort = ''low'' \<or> effort = ''medium'' \<or> effort = ''high'' then effort
         else if effort = ''max'' then ''high''
         else
           (let thinking = objectValue (fld root ''thinking'');
                t = stringValue (fld thinking ''type'')
            in if t \<noteq> ''enabled'' \<and> t \<noteq> ''adaptive'' then []
               else effort_of_budget (int64Value (fld thinking ''budget_tokens''))))"

definition claudeContentParts :: "json \<Rightarrow> obj list" where
  "claudeContentParts value =
     (case value of
        JStr text \<Rightarrow> [mk_obj [(''type'', JStr ''text''), (''text'', JStr text)]]
      | _ \<Rightarrow> List.map_filter as_object (arrayValue value))"

definition data_url :: "obj \<Rightarrow> string" where
  "data_url source =
     ''data:'' @ firstNonEmptyString [stringValue (fld source ''media_type''), ''application/octet-stream'']
       @ '';base64,'' @ stringValue (fld source ''data'')"

definition claudeImageToResponses :: "obj \<Rightarrow> obj res" where
  "claudeImageToResponses part =
     (case as_object (fld part ''source'') of
        None \<Rightarrow> Inl (ErrorText ''Claude image source is missing'')
      | Some source \<Rightarrow>
          (let t = stringValue (fld source ''type'')
           in if t = ''base64'' then
                Inr (mk_obj [(''type'', JStr ''input_image''), (''image_url'', JStr (data_url source))])
              else if t = ''url'' then
                Inr (mk_obj [(''type'', JStr ''input_image''), (''image_url'', JStr (stringValue (fld source ''url'')))])
              else Inl (ErrorQ ''unsupported Claude image source type '' t)))"

definition claudeDocumentToResponses :: "obj \<Rightarrow> obj res" where
  "claudeDocumentToResponses part =
     (case as_object (fld part ''source'') of
        None \<Rightarrow> Inl (ErrorText ''Claude document source is missing'')
      | Some source \<Rightarrow>
          (let t = stringValue (fld source ''type'');
               item = mk_obj [(''type'', JStr ''input_file'')];
               filled = (if t = ''base64'' then Inr (obj_put ''file_data'' (JStr (data_url source)) item)
                 else if t = ''url'' then Inr (obj_put ''file_url'' (JStr (stringValue (fld source ''url''))) item)
                 else if t = ''text'' then Inr (obj_put ''file_data'' (JStr (stringValue (fld source ''data''))) item)
                 else Inl (ErrorQ ''unsupported Claude document source type '' t));
               title = stringValue (fld part ''title'')
           in (case filled of Inl e \<Rightarrow> Inl e
               | Inr it \<Rightarrow> Inr (if title \<noteq> [] then obj_put ''filename'' (JStr title) it else it))))"

definition toolResultPart :: "obj \<Rightarrow> json list res" where
  "toolResultPart part =
     (let t = stringValue (fld part ''type'')
      in if t = ''text'' then
           Inr [JObj (mk_obj [(''type'', JStr ''input_text''), (''text'', JStr (stringValue (fld part ''text'')))])]
         else if t = ''image'' then
           (case claudeImageToResponses part of Inl e \<Rightarrow> Inl e | Inr img \<Rightarrow> Inr [JObj img])
         else Inr [])"

definition claudeToolResultOutput :: "json \<Rightarrow> json res" where
  "claudeToolResultOutput value =
     (case value of JStr text \<Rightarrow> Inr (JStr text)
      | _ \<Rightarrow> (case map_res toolResultPart (claudeContentParts value) of
                Inl e \<Rightarrow> Inl e
              | Inr parts \<Rightarrow> Inr (if concat parts = [] then JStr [] else JArr (concat parts))))"

subsection \<open>The fields beside the messages\<close>

definition request_base :: "string \<Rightarrow> bool \<Rightarrow> obj \<Rightarrow> obj" where
  "request_base model stream root =
     (let out0 = mk_obj [(''model'', JStr model), (''stream'', JBool stream), (''input'', JArr [])];
          out1 = copyField out0 root ''max_tokens'' ''max_output_tokens'';
          out2 = copyField out1 root ''temperature'' ''temperature'';
          out3 = copyField out2 root ''top_p'' ''top_p''
      in copyField out3 root ''metadata'' ''metadata'')"

definition convert_tool :: "json \<Rightarrow> json option" where
  "convert_tool rawTool =
     (case as_object rawTool of
        None \<Rightarrow> None
      | Some tool \<Rightarrow>
          (if stringValue (fld tool ''name'') = [] then None
           else
             (let item = mk_obj [(''type'', JStr ''function''), (''name'', JStr (stringValue (fld tool ''name''))),
                                 (''parameters'', JObj (objectValue (fld tool ''input_schema'')))];
                  description = stringValue (fld tool ''description'')
              in Some (JObj (if description \<noteq> [] then obj_put ''description'' (JStr description) item else item)))))"

definition add_tools :: "obj \<Rightarrow> obj \<Rightarrow> obj" where
  "add_tools root out =
     (case as_array (fld root ''tools'') of
        None \<Rightarrow> out
      | Some tools \<Rightarrow>
          (let converted = List.map_filter convert_tool tools
           in if converted \<noteq> [] then obj_put ''tools'' (JArr converted) out else out))"

definition add_tool_choice :: "obj \<Rightarrow> obj \<Rightarrow> obj" where
  "add_tool_choice root out =
     (case as_object (fld root ''tool_choice'') of
        None \<Rightarrow> out
      | Some choice \<Rightarrow>
          (let t = stringValue (fld choice ''type''); name = stringValue (fld choice ''name'')
           in if t = ''auto'' then obj_put ''tool_choice'' (JStr ''auto'') out
              else if t = ''any'' then obj_put ''tool_choice'' (JStr ''required'') out
              else if t = ''none'' then obj_put ''tool_choice'' (JStr ''none'') out
              else if t = ''tool'' \<and> name \<noteq> [] then
                obj_put ''tool_choice'' (JObj (mk_obj [(''type'', JStr ''function''), (''name'', JStr name)])) out
              else out))"

definition add_reasoning :: "obj \<Rightarrow> obj \<Rightarrow> obj" where
  "add_reasoning root out =
     (let effort = claudeReasoningEffort root
      in if effort \<noteq> []
         then obj_put ''reasoning'' (JObj (mk_obj [(''effort'', JStr effort), (''summary'', JStr ''auto'')])) out
         else out)"

definition add_text_format :: "obj \<Rightarrow> obj \<Rightarrow> obj" where
  "add_text_format root out =
     (case as_object (fld root ''output_config'') of
        None \<Rightarrow> out
      | Some outputConfig \<Rightarrow>
          (case as_object (fld outputConfig ''format'') of
             None \<Rightarrow> out
           | Some format \<Rightarrow>
               (let f = mk_obj format;
                    responsesFormat =
                      (if stringValue (fld f ''type'') = ''json_schema'' \<and> stringValue (fld f ''name'') = []
                       then obj_put ''name'' (JStr ''claude_structured_output'') f else f)
                in obj_put ''text'' (JObj (mk_obj [(''format'', JObj responsesFormat)])) out)))"

subsection \<open>The message loop\<close>

definition message_item :: "string \<Rightarrow> json list \<Rightarrow> json" where
  "message_item role pending =
     JObj (mk_obj [(''type'', JStr ''message''), (''role'', JStr role), (''content'', JArr pending)])"

text \<open>The closure \<open>flushMessage\<close> on the variables \<open>input\<close> and \<open>pending\<close>.\<close>

definition flushMessage :: "string \<Rightarrow> json list \<times> json list \<Rightarrow> json list \<times> json list" where
  "flushMessage role st =
     (let (input, pending) = st
      in if pending = [] then (input, pending) else (input @ [message_item role pending], []))"

definition text_part :: "string \<Rightarrow> obj \<Rightarrow> json" where
  "text_part role part =
     JObj (mk_obj [(''type'', JStr (if role = ''assistant'' then ''output_text'' else ''input_text'')),
                   (''text'', JStr (stringValue (fld part ''text'')))])"

definition thinking_item :: "obj \<Rightarrow> json" where
  "thinking_item part =
     (let item = mk_obj [(''type'', JStr ''reasoning''),
            (''summary'', JArr [JObj (mk_obj [(''type'', JStr ''summary_text''),
                                             (''text'', JStr (stringValue (fld part ''thinking'')))])])];
          signature = stringValue (fld part ''signature'')
      in JObj (if signature \<noteq> [] then obj_put ''encrypted_content'' (JStr signature) item else item))"

definition redacted_item :: "string \<Rightarrow> json" where
  "redacted_item data =
     JObj (mk_obj [(''type'', JStr ''reasoning''), (''summary'', JArr []),
                   (''encrypted_content'', JStr (redactedThinkingPrefix @ data))])"

definition call_item :: "obj \<Rightarrow> json" where
  "call_item part =
     JObj (mk_obj [(''type'', JStr ''function_call''),
                   (''call_id'', JStr (firstString part [''id'', ''tool_use_id''])),
                   (''name'', JStr (stringValue (fld part ''name''))),
                   (''arguments'', JStr (encode (JObj (objectValue (fld part ''input'')))))])"

definition result_item :: "obj \<Rightarrow> json \<Rightarrow> json" where
  "result_item part output =
     JObj (mk_obj [(''type'', JStr ''function_call_output''),
                   (''call_id'', JStr (stringValue (fld part ''tool_use_id''))),
                   (''output'', output)])"

definition convert_part :: "string \<Rightarrow> obj \<Rightarrow> json list \<times> json list \<Rightarrow> (json list \<times> json list) res" where
  "convert_part role part st =
     (let partType = stringValue (fld part ''type''); (input, pending) = st
      in if partType = ''text'' then Inr (input, pending @ [text_part role part])
         else if partType = ''image'' then
           (case claudeImageToResponses part of Inl e \<Rightarrow> Inl e | Inr img \<Rightarrow> Inr (input, pending @ [JObj img]))
         else if partType = ''document'' then
           (case claudeDocumentToResponses part of Inl e \<Rightarrow> Inl e | Inr d \<Rightarrow> Inr (input, pending @ [JObj d]))
         else if partType = ''thinking'' then
           (let (input', pending') = flushMessage role st in Inr (input' @ [thinking_item part], pending'))
         else if partType = ''redacted_thinking'' then
           (let (input', pending') = flushMessage role st; data = stringValue (fld part ''data'')
            in Inr (if data \<noteq> [] then input' @ [redacted_item data] else input', pending'))
         else if partType = ''tool_use'' \<or> partType = ''server_tool_use'' then
           (let (input', pending') = flushMessage role st in Inr (input' @ [call_item part], pending'))
         else if partType = ''tool_result'' then
           (let (input', pending') = flushMessage role st
            in (case claudeToolResultOutput (fld part ''content'') of
                  Inl e \<Rightarrow> Inl e
                | Inr output \<Rightarrow> Inr (input' @ [result_item part output], pending')))
         else Inr st)"

fun convert_parts :: "string \<Rightarrow> obj list \<Rightarrow> json list \<times> json list \<Rightarrow> (json list \<times> json list) res" where
  "convert_parts role [] st = Inr st"
| "convert_parts role (p # ps) st =
     (case convert_part role p st of Inl e \<Rightarrow> Inl e | Inr st' \<Rightarrow> convert_parts role ps st')"

definition convert_message :: "json list \<Rightarrow> json \<Rightarrow> json list res" where
  "convert_message input rawMessage =
     (case as_object rawMessage of
        None \<Rightarrow> Inr input
      | Some message \<Rightarrow>
          (let role = stringValue (fld message ''role'')
           in if role \<noteq> ''user'' \<and> role \<noteq> ''assistant'' then Inr input
              else (case convert_parts role (claudeContentParts (fld message ''content'')) (input, []) of
                      Inl e \<Rightarrow> Inl e
                    | Inr st \<Rightarrow> Inr (fst (flushMessage role st)))))"

fun convert_messages :: "json list \<Rightarrow> json list \<Rightarrow> json list res" where
  "convert_messages input [] = Inr input"
| "convert_messages input (m # ms) =
     (case convert_message input m of Inl e \<Rightarrow> Inl e | Inr input' \<Rightarrow> convert_messages input' ms)"

definition claudeRequest_obj :: "string \<Rightarrow> obj \<Rightarrow> bool \<Rightarrow> obj res" where
  "claudeRequest_obj model root stream =
     (let out0 = request_base model stream root;
          instructions = claudeSystemText (fld root ''system'');
          out1 = (if instructions \<noteq> [] then obj_put ''instructions'' (JStr instructions) out0 else out0);
          out = add_text_format root (add_reasoning root (add_tool_choice root (add_tools root out1)))
      in (case convert_messages [] (arrayValue (fld root ''messages'')) of
            Inl e \<Rightarrow> Inl e
          | Inr input \<Rightarrow> Inr (obj_put ''input'' (JArr input) out)))"

definition claudeRequestToResponses :: "string \<Rightarrow> string \<Rightarrow> bool \<Rightarrow> string res" where
  "claudeRequestToResponses model body stream =
     (case decodeObject body of
        Inl e \<Rightarrow> Inl (Wrap ''decode Claude request: '' e)
      | Inr root \<Rightarrow>
          (case claudeRequest_obj model root stream of
             Inl e \<Rightarrow> Inl e | Inr out \<Rightarrow> Inr (encode (JObj out))))"

subsection \<open>What the message loop computes\<close>

text \<open>
  The specification does not have the pending list. Each part of a message is classified:
  it is content (text, image, document), or it interrupts the message (reasoning, tool calls,
  tool results: zero or one item of its own), or it is ignored. A maximal run of parts without
  an interruption becomes one message item holding the content of the run.
\<close>

datatype part_class = Content json | Break "json list" | Ignored

definition classify_part :: "string \<Rightarrow> obj \<Rightarrow> part_class res" where
  "classify_part role part =
     (let t = stringValue (fld part ''type'')
      in if t = ''text'' then Inr (Content (text_part role part))
         else if t = ''image'' then
           (case claudeImageToResponses part of Inl e \<Rightarrow> Inl e | Inr img \<Rightarrow> Inr (Content (JObj img)))
         else if t = ''document'' then
           (case claudeDocumentToResponses part of Inl e \<Rightarrow> Inl e | Inr d \<Rightarrow> Inr (Content (JObj d)))
         else if t = ''thinking'' then Inr (Break [thinking_item part])
         else if t = ''redacted_thinking'' then
           (let data = stringValue (fld part ''data'') in Inr (Break (if data \<noteq> [] then [redacted_item data] else [])))
         else if t = ''tool_use'' \<or> t = ''server_tool_use'' then Inr (Break [call_item part])
         else if t = ''tool_result'' then
           (case claudeToolResultOutput (fld part ''content'') of
              Inl e \<Rightarrow> Inl e | Inr output \<Rightarrow> Inr (Break [result_item part output]))
         else Inr Ignored)"

fun is_break :: "part_class \<Rightarrow> bool" where
  "is_break (Break is) = True"
| "is_break _ = False"

fun contents :: "part_class list \<Rightarrow> json list" where
  "contents [] = []"
| "contents (Content j # cs) = j # contents cs"
| "contents (_ # cs) = contents cs"

definition run :: "part_class list \<Rightarrow> part_class list" where
  "run cs = takeWhile (\<lambda>c. \<not> is_break c) cs"

definition after_run :: "part_class list \<Rightarrow> part_class list" where
  "after_run cs = dropWhile (\<lambda>c. \<not> is_break c) cs"

lemma after_run_length: "length (after_run cs) \<le> length cs"
  by (simp add: after_run_def length_dropWhile_le)

function blocks :: "string \<Rightarrow> part_class list \<Rightarrow> json list" where
  "blocks role [] = []"
| "blocks role (Break is # cs) = is @ blocks role cs"
| "blocks role (Ignored # cs) = blocks role cs"
| "blocks role (Content j # cs) =
     message_item role (j # contents (run cs)) # blocks role (after_run cs)"
  by pat_completeness auto
termination
  by (relation "measure (\<lambda>(_, cs). length cs)") (auto simp: le_imp_less_Suc after_run_length)

lemma run_simps [simp]:
  "run [] = []" "after_run [] = []"
  "run (Break is # cs) = []" "after_run (Break is # cs) = Break is # cs"
  "run (Content j # cs) = Content j # run cs" "after_run (Content j # cs) = after_run cs"
  "run (Ignored # cs) = Ignored # run cs" "after_run (Ignored # cs) = after_run cs"
  by (simp_all add: run_def after_run_def)

lemma flushMessage_simps [simp]:
  "flushMessage role (input, []) = (input, [])"
  "p \<noteq> [] \<Longrightarrow> flushMessage role (input, p) = (input @ [message_item role p], [])"
  by (simp_all add: flushMessage_def)

lemma flushMessage_pending: "snd (flushMessage role st) = []"
  by (cases st) (simp add: flushMessage_def)

lemma convert_part_classify:
  "convert_part role p (input, pending) =
     (case classify_part role p of
        Inl e \<Rightarrow> Inl e
      | Inr (Content j) \<Rightarrow> Inr (input, pending @ [j])
      | Inr (Break is) \<Rightarrow> Inr (fst (flushMessage role (input, pending)) @ is, [])
      | Inr Ignored \<Rightarrow> Inr (input, pending))"
  using flushMessage_pending [of role "(input, pending)"]
  by (cases "flushMessage role (input, pending)")
     (simp add: convert_part_def classify_part_def Let_def split: sum.split)

definition blocks_from :: "string \<Rightarrow> json list \<Rightarrow> part_class list \<Rightarrow> json list" where
  "blocks_from role pending cs =
     (if pending = [] then blocks role cs
      else message_item role (pending @ contents (run cs)) # blocks role (after_run cs))"

lemma blocks_from_simps:
  "blocks_from role pending [] = fst (flushMessage role ([], pending))"
  "blocks_from role pending (Content j # cs) = blocks_from role (pending @ [j]) cs"
  "blocks_from role pending (Break is # cs) = fst (flushMessage role ([], pending)) @ is @ blocks_from role [] cs"
  "blocks_from role pending (Ignored # cs) = blocks_from role pending cs"
  by (auto simp: blocks_from_def)

lemma flush_input: "fst (flushMessage role (input, p)) = input @ fst (flushMessage role ([], p))"
  by (cases "p = []") simp_all

lemma convert_parts_blocks:
  "(case convert_parts role ps (input, pending) of
      Inl e \<Rightarrow> Inl e | Inr st \<Rightarrow> Inr (fst (flushMessage role st))) =
   (case map_res (classify_part role) ps of
      Inl e \<Rightarrow> Inl e | Inr cs \<Rightarrow> Inr (input @ blocks_from role pending cs))"
proof (induction ps arbitrary: input pending)
  case Nil
  then show ?case by (simp add: blocks_from_simps flush_input [of role input])
next
  case (Cons p ps)
  show ?case
  proof (cases "classify_part role p")
    case (Inl e)
    then show ?thesis by (simp add: convert_part_classify)
  next
    case (Inr c)
    then show ?thesis
      by (cases c; cases "map_res (classify_part role) ps")
         (simp_all add: convert_part_classify Cons.IH blocks_from_simps flush_input [of role input] split: sum.split)
  qed
qed

text \<open>The items one message contributes, and the whole input.\<close>

definition message_blocks :: "json \<Rightarrow> json list res" where
  "message_blocks rawMessage =
     (case as_object rawMessage of
        None \<Rightarrow> Inr []
      | Some message \<Rightarrow>
          (let role = stringValue (fld message ''role'')
           in if role \<noteq> ''user'' \<and> role \<noteq> ''assistant'' then Inr []
              else (case map_res (classify_part role) (claudeContentParts (fld message ''content'')) of
                      Inl e \<Rightarrow> Inl e | Inr cs \<Rightarrow> Inr (blocks role cs))))"

lemma convert_message_blocks:
  "convert_message input m = (case message_blocks m of Inl e \<Rightarrow> Inl e | Inr is \<Rightarrow> Inr (input @ is))"
proof (cases "as_object m")
  case None
  then show ?thesis by (simp add: convert_message_def message_blocks_def)
next
  case (Some message)
  let ?role = "stringValue (fld message ''role'')"
  show ?thesis
    using Some convert_parts_blocks [of ?role "claudeContentParts (fld message ''content'')" input "[]"]
    by (auto simp: convert_message_def message_blocks_def Let_def blocks_from_def split: sum.splits)
qed

lemma convert_messages_blocks:
  "convert_messages input ms =
     (case map_res message_blocks ms of Inl e \<Rightarrow> Inl e | Inr iss \<Rightarrow> Inr (input @ concat iss))"
proof (induction ms arbitrary: input)
  case (Cons m ms)
  then show ?case
    by (simp add: convert_message_blocks split: sum.split)
qed simp

text \<open>
  What a conversation says, read from the client's messages and from the items of the translated
  request: who said which text, what was thought, which tools were called with which arguments, and
  which calls were answered.
\<close>

datatype turn = Spoken string string | Thought string | Called string string string | Answered string

definition part_turns :: "string \<Rightarrow> obj \<Rightarrow> turn list" where
  "part_turns role part =
     (let t = stringValue (fld part ''type'')
      in if t = ''text'' then [Spoken role (stringValue (fld part ''text''))]
         else if t = ''thinking'' then [Thought (stringValue (fld part ''thinking''))]
         else if t = ''tool_use'' \<or> t = ''server_tool_use'' then
           [Called (if stringValue (fld part ''id'') \<noteq> [] then stringValue (fld part ''id'')
                    else stringValue (fld part ''tool_use_id''))
              (stringValue (fld part ''name'')) (encode (JObj (objectValue (fld part ''input''))))]
         else if t = ''tool_result'' then [Answered (stringValue (fld part ''tool_use_id''))]
         else [])"

definition body_turns :: "string \<Rightarrow> json \<Rightarrow> turn list" where
  "body_turns role content =
     (case content of JStr t \<Rightarrow> [Spoken role (TrimSpace t)]
      | _ \<Rightarrow> concat (map (\<lambda>part. part_turns role (objectValue part)) (arrayValue content)))"

definition message_turns :: "json \<Rightarrow> turn list" where
  "message_turns message =
     (let m = objectValue message; role = stringValue (fld m ''role'')
      in if role \<noteq> ''user'' \<and> role \<noteq> ''assistant'' then []
         else body_turns role (fld m ''content''))"

definition content_turns :: "string \<Rightarrow> json \<Rightarrow> turn list" where
  "content_turns role j =
     (let m = objectValue j
      in if fld m ''type'' = JStr (if role = ''assistant'' then ''output_text'' else ''input_text'')
         then [Spoken role (rawStringValue (fld m ''text''))] else [])"

definition item_turns :: "json \<Rightarrow> turn list" where
  "item_turns item =
     (let m = objectValue item; t = rawStringValue (fld m ''type'')
      in if t = ''message'' then
           concat (map (content_turns (rawStringValue (fld m ''role''))) (arrayValue (fld m ''content'')))
         else if t = ''reasoning'' then
           map (\<lambda>part. Thought (rawStringValue (fld (objectValue part) ''text''))) (arrayValue (fld m ''summary''))
         else if t = ''function_call'' then
           [Called (rawStringValue (fld m ''call_id'')) (rawStringValue (fld m ''name'')) (rawStringValue (fld m ''arguments''))]
         else if t = ''function_call_output'' then [Answered (rawStringValue (fld m ''call_id''))]
         else [])"

lemma fld_mk_obj_Cons: "fld (mk_obj ((k, v) # fs)) x = (case map_of (rev fs) x of Some w \<Rightarrow> w | None \<Rightarrow> if x = k then v else JNull)"
proof -
  have "map_of (fold (\<lambda>(k, v). obj_put k v) fs m) x = (case map_of (rev fs) x of Some w \<Rightarrow> Some w | None \<Rightarrow> map_of m x)" for m :: obj
    by (induction fs arbitrary: m) (auto simp: map_add_Some_iff map_add_def split: option.splits)
  then show ?thesis by (simp add: mk_obj_def fld_def split: option.splits)
qed

fun class_turns :: "string \<Rightarrow> part_class \<Rightarrow> turn list" where
  "class_turns role (Content j) = content_turns role j"
| "class_turns role (Break is) = concat (map item_turns is)"
| "class_turns role Ignored = []"

lemma item_turns_message: "item_turns (message_item role js) = concat (map (content_turns role) js)"
  by (simp add: item_turns_def message_item_def fld_mk_obj_Cons Let_def)

lemma run_turns: "concat (map (class_turns role) (run cs)) = concat (map (content_turns role) (contents (run cs)))"
proof (induction cs)
  case (Cons c cs)
  then show ?case by (cases c) simp_all
qed simp

lemma turns_split:
  "concat (map (class_turns role) cs) =
     concat (map (content_turns role) (contents (run cs))) @ concat (map (class_turns role) (after_run cs))"
proof -
  have "run cs @ after_run cs = cs" by (simp add: run_def after_run_def)
  then show ?thesis by (metis concat_append run_turns map_append)
qed

lemma blocks_turns: "concat (map item_turns (blocks role cs)) = concat (map (class_turns role) cs)"
proof (induction role cs rule: blocks.induct)
  case (4 role j cs)
  then show ?case by (simp add: item_turns_message turns_split [of role cs])
qed simp_all

lemma no_content_turns:
  "claudeImageToResponses part = Inr m \<Longrightarrow> content_turns role (JObj m) = []"
  "claudeDocumentToResponses part = Inr m \<Longrightarrow> content_turns role (JObj m) = []"
  by (auto simp: claudeImageToResponses_def claudeDocumentToResponses_def content_turns_def fld_mk_obj_Cons Let_def
      split: option.splits if_splits)

lemma broken_turns:
  "item_turns (thinking_item part) = [Thought (stringValue (fld part ''thinking''))]"
  "item_turns (redacted_item data) = []"
  "item_turns (result_item part output) = [Answered (stringValue (fld part ''tool_use_id''))]"
  "item_turns (call_item part) =
     [Called (firstString part [''id'', ''tool_use_id'']) (stringValue (fld part ''name''))
        (encode (JObj (objectValue (fld part ''input''))))]"
  "content_turns role (text_part role part) = [Spoken role (stringValue (fld part ''text''))]"
  by (simp_all add: item_turns_def thinking_item_def redacted_item_def result_item_def call_item_def
      content_turns_def text_part_def fld_mk_obj_Cons Let_def del: encode.simps)

lemma classify_turns: "classify_part role p = Inr c \<Longrightarrow> class_turns role c = part_turns role p"
  by (auto simp: classify_part_def part_turns_def no_content_turns broken_turns Let_def
      simp del: encode.simps split: if_splits sum.splits)

subsection \<open>Facts about the whole request\<close>

definition request_input :: "obj \<Rightarrow> json list res" where
  "request_input root =
     (case map_res message_blocks (arrayValue (fld root ''messages'')) of
        Inl e \<Rightarrow> Inl e | Inr iss \<Rightarrow> Inr (concat iss))"

lemma claudeRequest_obj_cases:
  "claudeRequest_obj model root stream =
     (case request_input root of
        Inl e \<Rightarrow> Inl e
      | Inr input \<Rightarrow>
          (let out0 = request_base model stream root;
               instructions = claudeSystemText (fld root ''system'');
               out1 = (if instructions \<noteq> [] then obj_put ''instructions'' (JStr instructions) out0 else out0)
           in Inr (obj_put ''input'' (JArr input)
                (add_text_format root (add_reasoning root (add_tool_choice root (add_tools root out1)))))))"
  by (simp add: claudeRequest_obj_def request_input_def convert_messages_blocks Let_def split: sum.split)

lemma map_res_set: "map_res f xs = Inr ys \<Longrightarrow> y \<in> set ys \<Longrightarrow> \<exists>x \<in> set xs. f x = Inr y"
  by (induction xs arbitrary: ys) (auto split: sum.splits)

lemma parts_turns:
  "map_res (classify_part role) ps = Inr cs \<Longrightarrow> concat (map (class_turns role) cs) = concat (map (part_turns role) ps)"
  by (induction ps arbitrary: cs) (auto simp: classify_turns split: sum.splits)

lemma text_part_turns: "part_turns role (mk_obj [(''type'', JStr ''text''), (''text'', JStr t)]) = [Spoken role (TrimSpace t)]"
proof -
  have "TrimSpace ''text'' = ''text''" by code_simp
  then show ?thesis by (simp add: part_turns_def stringValue_def fld_mk_obj_Cons)
qed

lemma empty_part_turns: "part_turns role [] = []"
proof -
  have "TrimSpace [] = []" by code_simp
  then show ?thesis by (simp add: part_turns_def stringValue_def fld_def)
qed

lemma contentParts_turns:
  "concat (map (part_turns role) (claudeContentParts v)) = body_turns role v"
proof -
  have "concat (map (part_turns role) (List.map_filter as_object js)) = concat (map (\<lambda>part. part_turns role (objectValue part)) js)" for js
  proof (induction js)
    case (Cons j js)
    then show ?case by (cases j) (simp_all add: map_filter_simps empty_part_turns)
  qed (simp add: map_filter_simps)
  then show ?thesis
    by (cases v) (simp_all add: claudeContentParts_def body_turns_def text_part_turns map_filter_simps)
qed

lemma message_blocks_turns: "message_blocks m = Inr is \<Longrightarrow> concat (map item_turns is) = message_turns m"
  by (cases m) (auto simp: message_blocks_def message_turns_def blocks_turns parts_turns contentParts_turns stringValue_def Let_def
      split: if_splits sum.splits)

lemma messages_turns:
  "map_res message_blocks ms = Inr iss \<Longrightarrow> concat (map item_turns (concat iss)) = concat (map message_turns ms)"
  by (induction ms arbitrary: iss) (auto simp: message_blocks_turns split: sum.splits)

definition request_keys :: "string set" where
  "request_keys = {''model'', ''stream'', ''input'', ''max_output_tokens'', ''temperature'', ''top_p'',
     ''metadata'', ''instructions'', ''tools'', ''tool_choice'', ''reasoning'', ''text''}"

definition keys_within :: "obj \<Rightarrow> bool" where
  "keys_within m \<longleftrightarrow> fst ` set m \<subseteq> request_keys"

lemma keys_within_put: "k \<in> request_keys \<Longrightarrow> keys_within m \<Longrightarrow> keys_within (obj_put k v m)"
  by (auto simp: keys_within_def keys_obj_put)

lemma keys_within_copy: "d \<in> request_keys \<Longrightarrow> keys_within m \<Longrightarrow> keys_within (copyField m root s d)"
  by (auto simp: copyField_def keys_within_put split: option.split)

lemma request_key_simps [simp]:
  "''model'' \<in> request_keys" "''stream'' \<in> request_keys" "''input'' \<in> request_keys"
  "''max_output_tokens'' \<in> request_keys" "''temperature'' \<in> request_keys" "''top_p'' \<in> request_keys"
  "''metadata'' \<in> request_keys" "''instructions'' \<in> request_keys" "''tools'' \<in> request_keys"
  "''tool_choice'' \<in> request_keys" "''reasoning'' \<in> request_keys" "''text'' \<in> request_keys"
  by (simp_all add: request_keys_def)

lemma keys_within_start:
  "keys_within (mk_obj [(''model'', JStr model), (''stream'', JBool stream), (''input'', JArr [])])"
  by (simp add: keys_within_def mk_obj_def request_keys_def)

lemma keys_within_base: "keys_within (request_base model stream root)"
  unfolding request_base_def Let_def
  by (intro keys_within_copy keys_within_start) simp_all

lemma keys_within_steps:
  "keys_within m \<Longrightarrow> keys_within (add_tools root m)"
  "keys_within m \<Longrightarrow> keys_within (add_tool_choice root m)"
  "keys_within m \<Longrightarrow> keys_within (add_reasoning root m)"
  "keys_within m \<Longrightarrow> keys_within (add_text_format root m)"
  by (auto simp: add_tools_def add_tool_choice_def add_reasoning_def add_text_format_def Let_def
      intro: keys_within_put split: option.split)

lemma claudeRequest_keys: "claudeRequest_obj model root stream = Inr out \<Longrightarrow> keys_within out"
  by (auto simp: claudeRequest_obj_cases Let_def keys_within_put keys_within_steps keys_within_base
      split: sum.splits if_splits)

text \<open>The steps after \<open>request_base\<close> leave the other fields alone.\<close>

lemma step_frames [json_get]:
  "k \<noteq> ''tools'' \<Longrightarrow> fld (add_tools root m) k = fld m k"
  "k \<noteq> ''tool_choice'' \<Longrightarrow> fld (add_tool_choice root m) k = fld m k"
  "k \<noteq> ''reasoning'' \<Longrightarrow> fld (add_reasoning root m) k = fld m k"
  "k \<noteq> ''text'' \<Longrightarrow> fld (add_text_format root m) k = fld m k"
  by (auto simp: add_tools_def add_tool_choice_def add_reasoning_def add_text_format_def Let_def
      split: option.split)

lemma fld_copyField [json_get]:
  "fld (copyField m root s d) k =
     (if k = d then (case map_of root s of Some v \<Rightarrow> v | None \<Rightarrow> fld m k) else fld m k)"
  by (auto simp: copyField_def split: option.split)

lemma claudeRequest_model_stream:
  "claudeRequest_obj model root stream = Inr out \<Longrightarrow>
   fld out ''model'' = JStr model \<and> fld out ''stream'' = JBool stream"
  by (auto simp: claudeRequest_obj_cases Let_def request_base_def json_get fld_mk_obj_Cons split: sum.splits if_splits)

subsection \<open>Properties\<close>

text \<open>C1: the items of the translated request are, message by message, the specification \<open>blocks\<close>:
  one message item for each maximal run of content parts, with reasoning, tool calls and tool
  results between them; the first error of any part is the error of the request.\<close>

theorem claude_request_input:
  "(case claudeRequest_obj model root stream of Inl e \<Rightarrow> Inl e | Inr out \<Rightarrow> Inr (fld out ''input'')) =
   (case map_res message_blocks (arrayValue (fld root ''messages'')) of
      Inl e \<Rightarrow> Inl e | Inr iss \<Rightarrow> Inr (JArr (concat iss)))"
  by (simp add: claudeRequest_obj_cases request_input_def Let_def split: sum.split)

text \<open>C8: the translated request says what the client's conversation says. The texts with their roles, the
  thoughts, the tool calls with identifier, name and arguments and the answered calls, read from
  the items of a translated request, are those of the client's messages, in order. (Texts are
  trimmed. Images and documents are content without a text; redacted thinking, and messages and
  parts of other kinds, say nothing here.)\<close>

theorem claude_request_turns:
  "case claudeRequest_obj model root stream of
     Inl e \<Rightarrow> True
   | Inr out \<Rightarrow> concat (map item_turns (arrayValue (fld out ''input''))) =
       concat (map message_turns (arrayValue (fld root ''messages'')))"
  by (auto simp: claudeRequest_obj_cases request_input_def Let_def messages_turns split: sum.splits)

text \<open>The translated request has the model and the stream flag of the call and no field beyond
  the ones the Responses API takes.\<close>

theorem claude_request_shape:
  "case claudeRequest_obj model root stream of
     Inl e \<Rightarrow> True
   | Inr out \<Rightarrow> fld out ''model'' = JStr model \<and> fld out ''stream'' = JBool stream \<and> keys_within out"
  using claudeRequest_model_stream [of model root stream] claudeRequest_keys [of model root stream]
  by (simp split: sum.split)

end
