(* ===== verification/Responses_Claude.thy ===== *)
theory Responses_Claude
  imports Claude_Request
begin

text \<open>
  A finished OpenAI Responses response rewritten as a Claude message:
  \<open>responsesResponseToClaude\<close> with \<open>responsesReasoningText\<close>, \<open>responsesFailure\<close> and
  \<open>responsesStopReason\<close> (\<open>internal/translate/claude_responses.go\<close>). The two later helpers are
  also used by the other translators.
\<close>

definition reasoning_piece :: "json \<Rightarrow> string" where
  "reasoning_piece rawPart =
     (case rawPart of JStr s \<Rightarrow> s | JObj part \<Rightarrow> stringValue (fld part ''text'') | _ \<Rightarrow> [])"

fun first_nonempty_field :: "obj \<Rightarrow> string list \<Rightarrow> string" where
  "first_nonempty_field item [] = []"
| "first_nonempty_field item (k # ks) =
     (let built = concat (map reasoning_piece (arrayValue (fld item k)))
      in if built \<noteq> [] then built else first_nonempty_field item ks)"

definition responsesReasoningText :: "obj \<Rightarrow> string" where
  "responsesReasoningText item = first_nonempty_field item [''summary'', ''content'']"

definition responsesFailure :: "obj \<Rightarrow> go_error option" where
  "responsesFailure root =
     (let status = ToLower (stringValue (fld root ''status''))
      in if status \<noteq> ''failed'' \<and> status \<noteq> ''cancelled'' then None
         else
           (let errorObject = objectValue (fld root ''error'');
                message = firstNonEmptyString [stringValue (fld errorObject ''message''),
                  stringValue (fld root ''error''), ''unknown upstream error'']
            in Some (ErrorText (''Copilot Responses request '' @ status @ '': '' @ message))))"

definition responsesStopReason :: "obj \<Rightarrow> bool \<Rightarrow> string" where
  "responsesStopReason root hasToolUse =
     (let reason = ToLower (stringValue (fld (objectValue (fld root ''incomplete_details'')) ''reason''))
      in if reason = ''max_output_tokens'' \<or> reason = ''max_tokens'' then ''max_tokens''
         else if reason = ''content_filter'' then ''refusal''
         else if hasToolUse then ''tool_use'' else ''end_turn'')"

text \<open>The content blocks one output item gives, and whether it is a tool call.\<close>

definition message_part_block :: "json \<Rightarrow> json list" where
  "message_part_block rawPart =
     (case as_object rawPart of
        None \<Rightarrow> []
      | Some part \<Rightarrow>
          (if stringValue (fld part ''type'') \<in> {''output_text'', ''text'', ''refusal''}
           then [JObj (mk_obj [(''type'', JStr ''text''), (''text'', JStr (firstString part [''text'', ''refusal'']))])]
           else []))"

definition reasoning_blocks :: "obj \<Rightarrow> json list" where
  "reasoning_blocks item =
     (let thinking = responsesReasoningText item;
          encrypted = stringValue (fld item ''encrypted_content'')
      in if HasPrefix encrypted redactedThinkingPrefix then
           [JObj (mk_obj [(''type'', JStr ''redacted_thinking''),
                          (''data'', JStr (TrimPrefix encrypted redactedThinkingPrefix))])]
         else if thinking \<noteq> [] \<or> encrypted \<noteq> [] then
           (let block = mk_obj [(''type'', JStr ''thinking''), (''thinking'', JStr thinking)]
            in [JObj (if encrypted \<noteq> [] then obj_put ''signature'' (JStr encrypted) block else block)])
         else [])"

text \<open>\<open>json.Unmarshal\<close> into a \<open>map[string]any\<close>: the text \<open>null\<close> leaves the map nil, which is
  printed as \<open>null\<close>, and numbers become \<open>float64\<close>.\<close>

definition unmarshal_map :: "string \<Rightarrow> json res" where
  "unmarshal_map text =
     (case decode_all text of
        None \<Rightarrow> Inl JsonError
      | Some JNull \<Rightarrow> Inr JNull
      | Some (JObj m) \<Rightarrow> (case float_json (JObj m) of None \<Rightarrow> Inl JsonError | Some v \<Rightarrow> Inr v)
      | Some _ \<Rightarrow> Inl JsonError)"

definition tool_input :: "string \<Rightarrow> json res" where
  "tool_input arguments =
     (if TrimSpace arguments = [] then Inr (JObj [])
      else (case unmarshal_map arguments of
              Inl e \<Rightarrow> Inl (Wrap ''decode Responses tool arguments: '' e) | Inr input \<Rightarrow> Inr input))"

definition tool_use_block :: "obj \<Rightarrow> json \<Rightarrow> json" where
  "tool_use_block item input =
     JObj (mk_obj [(''type'', JStr ''tool_use''), (''id'', JStr (firstString item [''call_id'', ''id''])),
                   (''name'', JStr (stringValue (fld item ''name''))), (''input'', input)])"

definition output_item_blocks :: "json \<Rightarrow> (json list \<times> bool) res" where
  "output_item_blocks rawItem =
     (case as_object rawItem of
        None \<Rightarrow> Inr ([], False)
      | Some item \<Rightarrow>
          (let t = stringValue (fld item ''type'')
           in if t = ''message'' then
                Inr (concat (map message_part_block (arrayValue (fld item ''content''))), False)
              else if t = ''reasoning'' then Inr (reasoning_blocks item, False)
              else if t = ''function_call'' \<or> t = ''custom_tool_call'' then
                (case tool_input (firstString item [''arguments'', ''input'']) of
                   Inl e \<Rightarrow> Inl e
                 | Inr input \<Rightarrow> Inr ([tool_use_block item input], True))
              else Inr ([], False)))"

text \<open>The loop over \<open>output\<close> with its variables \<open>content\<close> and \<open>hasToolUse\<close>.\<close>

fun output_blocks :: "json list \<Rightarrow> json list \<times> bool \<Rightarrow> (json list \<times> bool) res" where
  "output_blocks [] acc = Inr acc"
| "output_blocks (i # is) (content, hasToolUse) =
     (case output_item_blocks i of
        Inl e \<Rightarrow> Inl e
      | Inr (bs, tool) \<Rightarrow> output_blocks is (content @ bs, hasToolUse \<or> tool))"

definition claude_usage :: "obj \<Rightarrow> obj" where
  "claude_usage root =
     (let usage = objectValue (fld root ''usage'')
      in mk_obj [(''input_tokens'', numberValue (fld usage ''input_tokens'')),
                 (''output_tokens'', numberValue (fld usage ''output_tokens'')),
                 (''cache_read_input_tokens'',
                    numberValue (fld (objectValue (fld usage ''input_tokens_details'')) ''cached_tokens''))])"

definition claude_message :: "string \<Rightarrow> obj \<Rightarrow> json list \<times> bool \<Rightarrow> obj" where
  "claude_message model root acc =
     mk_obj [(''id'', JStr (firstString root [''id''])), (''type'', JStr ''message''),
             (''role'', JStr ''assistant''),
             (''model'', JStr (firstNonEmptyString [stringValue (fld root ''model''), model])),
             (''content'', JArr (fst acc)),
             (''stop_reason'', JStr (responsesStopReason root (snd acc))),
             (''stop_sequence'', JNull), (''usage'', JObj (claude_usage root))]"

definition responsesClaude_obj :: "string \<Rightarrow> obj \<Rightarrow> obj res" where
  "responsesClaude_obj model root =
     (case responsesFailure root of
        Some e \<Rightarrow> Inl e
      | None \<Rightarrow>
          (case output_blocks (arrayValue (fld root ''output'')) ([], False) of
             Inl e \<Rightarrow> Inl e
           | Inr acc \<Rightarrow> Inr (claude_message model root acc)))"

definition responsesResponseToClaude :: "string \<Rightarrow> string \<Rightarrow> string res" where
  "responsesResponseToClaude model body =
     (case decodeObject body of
        Inl e \<Rightarrow> Inl (Wrap ''decode Responses response: '' e)
      | Inr root \<Rightarrow>
          (case responsesClaude_obj model root of
             Inl e \<Rightarrow> Inl e | Inr out \<Rightarrow> Inr (encode (JObj out))))"

subsection \<open>Facts\<close>

lemma output_blocks_map:
  "output_blocks is (content, tool) =
     (case map_res output_item_blocks is of
        Inl e \<Rightarrow> Inl e
      | Inr ps \<Rightarrow> Inr (content @ concat (map fst ps), tool \<or> (\<exists>p \<in> set ps. snd p)))"
proof (induction "is" arbitrary: content tool)
  case (Cons i "is")
  then show ?case
    by (cases "output_item_blocks i") (auto split: sum.splits)
qed simp

definition is_tool_use :: "json \<Rightarrow> bool" where
  "is_tool_use b \<longleftrightarrow> fld (objectValue b) ''type'' = JStr ''tool_use''"

lemma block_types:
  "\<not> is_tool_use b" if "b \<in> set (message_part_block p) \<or> b \<in> set (reasoning_blocks item)"
  using that
  by (auto simp: message_part_block_def reasoning_blocks_def is_tool_use_def fld_mk_obj_Cons Let_def
      split: option.splits if_splits)

lemma tool_use_block_type: "is_tool_use (tool_use_block item input)"
  by (simp add: is_tool_use_def tool_use_block_def fld_mk_obj_Cons)

lemma output_item_tool:
  "output_item_blocks i = Inr (bs, tool) \<Longrightarrow> tool \<longleftrightarrow> (\<exists>b \<in> set bs. is_tool_use b)"
  by (auto simp: output_item_blocks_def Let_def tool_use_block_type
      dest: block_types [OF disjI1] block_types [OF disjI2]
      split: option.splits if_splits sum.splits)

lemma output_blocks_tool:
  assumes "output_blocks is ([], False) = Inr (content, tool)"
  shows "tool \<longleftrightarrow> (\<exists>b \<in> set content. is_tool_use b)"
proof -
  obtain ps where ps: "map_res output_item_blocks is = Inr ps"
    and eq: "content = concat (map fst ps)" "tool = (\<exists>p \<in> set ps. snd p)"
    using assms by (auto simp: output_blocks_map split: sum.splits)
  have "snd p \<longleftrightarrow> (\<exists>b \<in> set (fst p). is_tool_use b)" if "p \<in> set ps" for p
    using map_res_set [OF ps that] output_item_tool by (cases p) auto
  then show ?thesis by (auto simp: eq)
qed


subsection \<open>Round trips through the two directions\<close>

text \<open>
  A Claude assistant turn sent upstream as Responses items comes back, through the response
  translation, as the blocks it was made from.
\<close>

lemma redacted_prefix_graphic: "graphic (hd (redactedThinkingPrefix @ data))" "redactedThinkingPrefix \<noteq> []"
  by (simp_all add: redactedThinkingPrefix_def graphic_def byte_def)

lemma trimmed_last:
  "TrimSpace s = s \<longleftrightarrow> space_len s = 0 \<and> space_rlen (rev s) = 0"
  by (metis TrimSpace_fix space_len_TrimSpace space_rlen_rev_TrimSpace)

lemma redacted_round_trip:
  assumes "TrimSpace (redactedThinkingPrefix @ data) = redactedThinkingPrefix @ data"
  shows "output_item_blocks (redacted_item data) =
    Inr ([JObj (mk_obj [(''type'', JStr ''redacted_thinking''), (''data'', JStr data)])], False)"
  using assms
  by (simp add: output_item_blocks_def redacted_item_def reasoning_blocks_def fld_mk_obj_Cons Let_def
      TrimSpace_graphic graphic_def byte_def del: append_assoc)

lemma encode_obj_trim: "TrimSpace (encode (JObj m)) = encode (JObj m)"
  by (rule TrimSpace_graphic) (simp_all add: encode_JObj graphic_def byte_def)

lemma TrimSpace_firstString [simp]: "TrimSpace (firstString m ks) = firstString m ks"
  by (induction ks) simp_all

lemma encode_obj_not_Nil: "encode (JObj m) \<noteq> []"
  by (simp add: encode_JObj)

lemma firstString2: "firstString m [a, b] =
    (if stringValue (fld m a) = [] then stringValue (fld m b) else stringValue (fld m a))"
  by simp

lemma tool_input_encode:
  assumes "printable (JObj m)"
  shows "tool_input (encode (JObj m)) =
    (case float_json (JObj m) of
       None \<Rightarrow> Inl (Wrap ''decode Responses tool arguments: '' JsonError) | Some v \<Rightarrow> Inr v)"
  using whole.dec_enc [OF assms]
  by (simp add: tool_input_def unmarshal_map_def encode_obj_trim encode_obj_not_Nil del: encode.simps float_json.simps
      split: option.split)

lemma call_item_fields:
  "call_item part = JObj c \<Longrightarrow> fld c ''type'' = JStr ''function_call''"
  "call_item part = JObj c \<Longrightarrow> fld c ''name'' = JStr (stringValue (fld part ''name''))"
  "call_item part = JObj c \<Longrightarrow> firstString c [''call_id'', ''id''] = firstString part [''id'', ''tool_use_id'']"
  "call_item part = JObj c \<Longrightarrow>
     firstString c [''arguments'', ''input''] = encode (JObj (objectValue (fld part ''input'')))"
  by (auto simp: call_item_def fld_mk_obj_Cons encode_obj_trim firstString2 [of c] encode_obj_not_Nil
      simp del: encode.simps firstString.simps)

lemma call_round_trip:
  assumes m: "printable (JObj m)" and input: "fld part ''input'' = JObj m"
  shows "output_item_blocks (call_item part) =
    (case float_json (JObj m) of
       None \<Rightarrow> Inl (Wrap ''decode Responses tool arguments: '' JsonError)
     | Some v \<Rightarrow>
         Inr ([JObj (mk_obj [(''type'', JStr ''tool_use''),
                             (''id'', JStr (firstString part [''id'', ''tool_use_id''])),
                             (''name'', JStr (stringValue (fld part ''name''))), (''input'', v)])], True))"
proof -
  obtain c where c: "call_item part = JObj c" by (simp add: call_item_def)
  have "TrimSpace ''function_call'' = ''function_call''"
    by (simp add: TrimSpace_graphic graphic_def byte_def)
  with c show ?thesis
    by (simp add: output_item_blocks_def Let_def tool_use_block_def call_item_fields [OF c] input
        tool_input_encode [OF m] del: firstString.simps encode.simps float_json.simps split: option.split)
qed



subsection \<open>Properties\<close>

text \<open>C14: the stop reason of the message is \<open>max_tokens\<close> when the upstream says that a token limit was
  met, \<open>refusal\<close> when it says that the content was filtered, whether there are tool calls or not, and
  otherwise \<open>tool_use\<close> exactly when the content of the message has a tool call, \<open>end_turn\<close> when not.\<close>

theorem responses_claude_stop_reason:
  "case responsesClaude_obj model root of
     Inl e \<Rightarrow> True
   | Inr out \<Rightarrow>
       (let reason = ToLower (stringValue (fld (objectValue (fld root ''incomplete_details'')) ''reason''));
            called = (\<exists>b \<in> set (arrayValue (fld out ''content'')). fld (objectValue b) ''type'' = JStr ''tool_use'')
        in fld out ''stop_reason'' =
             JStr (if reason = ''max_output_tokens'' \<or> reason = ''max_tokens'' then ''max_tokens''
                   else if reason = ''content_filter'' then ''refusal''
                   else if called then ''tool_use'' else ''end_turn''))"
proof (cases "responsesClaude_obj model root")
  case (Inr out)
  then obtain content tool where acc: "output_blocks (arrayValue (fld root ''output'')) ([], False) = Inr (content, tool)"
    and out: "out = claude_message model root (content, tool)"
    by (auto simp: responsesClaude_obj_def split: option.splits sum.splits)
  have "fld out ''stop_reason'' = JStr (responsesStopReason root tool)" "fld out ''content'' = JArr content"
    by (simp_all add: out claude_message_def fld_mk_obj_Cons)
  then show ?thesis
    using output_blocks_tool [OF acc] by (simp add: Inr responsesStopReason_def is_tool_use_def Let_def)
qed simp


text \<open>Arguments that are \<open>null\<close> are no error.\<close>

theorem null_arguments: "tool_input ''null'' = Inr JNull"
  by code_simp

text \<open>C16: a Claude tool call sent upstream as a Responses item and returned by the upstream gives the
  client the same call, id and name, and as its input the one it had with every number rounded to a
  \<open>float64\<close>: integers beyond 2^53 may come back changed. A number out of that range makes the whole
  answer an error.\<close>

theorem claude_tool_call_round_trip:
  assumes "printable (JObj m)" "fld part ''input'' = JObj m"
  shows "output_item_blocks (call_item part) =
    (case float_json (JObj m) of
       None \<Rightarrow> Inl (Wrap ''decode Responses tool arguments: '' JsonError)
     | Some v \<Rightarrow>
         Inr ([JObj (mk_obj [(''type'', JStr ''tool_use''),
                             (''id'', JStr (firstString part [''id'', ''tool_use_id''])),
                             (''name'', JStr (stringValue (fld part ''name''))), (''input'', v)])], True))"
  by (rule call_round_trip [OF assms])

text \<open>One integer that comes back as it was, and one that does not.\<close>

theorem claude_tool_call_round_trip_witness:
  "output_item_blocks (call_item (mk_obj [(''type'', JStr ''tool_use''), (''id'', JStr ''c1''), (''name'', JStr ''run''),
      (''input'', JObj (mk_obj [(''n'', JNum ''12''), (''o'', JNum ''9007199254740993'')]))])) =
    Inr ([JObj (mk_obj [(''type'', JStr ''tool_use''), (''id'', JStr ''c1''), (''name'', JStr ''run''),
      (''input'', JObj (mk_obj [(''n'', JNum ''12''), (''o'', JNum ''9007199254740992'')]))])], True)"
proof -
  let ?m = "mk_obj [(''n'', JNum ''12''), (''o'', JNum ''9007199254740993'')]"
  let ?part = "mk_obj [(''type'', JStr ''tool_use''), (''id'', JStr ''c1''), (''name'', JStr ''run''), (''input'', JObj ?m)]"
  have "printable (JObj ?m)" "fld ?part ''input'' = JObj ?m"
    by code_simp+
  note claude_tool_call_round_trip [OF this]
  moreover have "float_json (JObj ?m) = Some (JObj (mk_obj [(''n'', JNum ''12''), (''o'', JNum ''9007199254740992'')]))"
    "firstString ?part [''id'', ''tool_use_id''] = ''c1''" "stringValue (fld ?part ''name'') = ''run''"
    by code_simp+
  ultimately show ?thesis by simp
qed

text \<open>Redacted thinking survives the way through the Responses API.\<close>

theorem redacted_thinking_round_trip:
  assumes "TrimSpace (redactedThinkingPrefix @ data) = redactedThinkingPrefix @ data"
  shows "output_item_blocks (redacted_item data) =
    Inr ([JObj (mk_obj [(''type'', JStr ''redacted_thinking''), (''data'', JStr data)])], False)"
  by (rule redacted_round_trip [OF assms])

theorem redacted_thinking_round_trip_witness:
  "output_item_blocks (redacted_item ''abc'') =
    Inr ([JObj (mk_obj [(''type'', JStr ''redacted_thinking''), (''data'', JStr ''abc'')])], False)"
  by (rule redacted_thinking_round_trip) code_simp

end
