(* ===== verification/Streams.thy ===== *)
theory Streams
  imports Prelude
begin

text \<open>
  What the stream translators share: operations that emit output and change a state,
  sequenced by \<open>bind_out\<close>; the run of a translator over a list of inputs, which ends at the
  first error; the acceptance of an output by a client automaton; and the locale
  \<open>stream_simulation\<close>, in which a one-step simulation is lifted to whole runs.
\<close>

type_synonym ('o, 's) op = "'s \<Rightarrow> 'o list \<times> 's"

definition bind_out :: "('o, 's) op \<Rightarrow> ('o, 's) op \<Rightarrow> ('o, 's) op" where
  "bind_out f g s = (let (o1, s1) = f s; (o2, s2) = g s1 in (o1 @ o2, s2))"

definition skip_out :: "('o, 's) op" where
  "skip_out s = ([], s)"

fun accepts :: "('c \<Rightarrow> 'o \<Rightarrow> 'c option) \<Rightarrow> 'c \<Rightarrow> 'o list \<Rightarrow> 'c option" where
  "accepts step c [] = Some c"
| "accepts step c (x # xs) = (case step c x of None \<Rightarrow> None | Some c' \<Rightarrow> accepts step c' xs)"

lemma accepts_append:
  "accepts step c (xs @ ys) = (case accepts step c xs of None \<Rightarrow> None | Some c' \<Rightarrow> accepts step c' ys)"
  by (induction xs arbitrary: c) (auto split: option.split)

text \<open>An operation simulates the client when what it emits is accepted and keeps the relation.\<close>

definition simulates :: "('c \<Rightarrow> 'o \<Rightarrow> 'c option) \<Rightarrow> ('s \<Rightarrow> 'c \<Rightarrow> bool) \<Rightarrow> ('s \<Rightarrow> bool) \<Rightarrow> ('o, 's) op \<Rightarrow> bool" where
  "simulates step R P f \<longleftrightarrow>
     (\<forall>s c. R s c \<longrightarrow> P s \<longrightarrow> (\<exists>c'. accepts step c (fst (f s)) = Some c' \<and> R (snd (f s)) c'))"

lemma simulatesI:
  "(\<And>s c. R s c \<Longrightarrow> P s \<Longrightarrow> \<exists>c'. accepts step c (fst (f s)) = Some c' \<and> R (snd (f s)) c') \<Longrightarrow> simulates step R P f"
  by (simp add: simulates_def)

lemma simulatesD:
  "simulates step R P f \<Longrightarrow> R s c \<Longrightarrow> P s \<Longrightarrow> \<exists>c'. accepts step c (fst (f s)) = Some c' \<and> R (snd (f s)) c'"
  by (simp add: simulates_def)

lemma simulates_skip: "simulates step R P skip_out"
  by (simp add: simulates_def skip_out_def)

lemma simulates_bind:
  assumes "simulates step R P f" "simulates step R Q g" "\<And>s. P s \<Longrightarrow> Q (snd (f s))"
  shows "simulates step R P (bind_out f g)"
  using assms by (fastforce simp: simulates_def bind_out_def accepts_append split: prod.split)

text \<open>The run of a translator: the outputs so far, the error that ended it, the last state.\<close>

fun run_stream :: "('i \<Rightarrow> 's \<Rightarrow> 'o list res \<times> 's) \<Rightarrow> 's \<Rightarrow> 'i list \<Rightarrow> 'o list \<times> go_error option \<times> 's" where
  "run_stream handle s [] = ([], None, s)"
| "run_stream handle s (i # is) =
     (case handle i s of
        (Inl e, s') \<Rightarrow> ([], Some e, s')
      | (Inr out, s') \<Rightarrow> (let (outs, e, s'') = run_stream handle s' is in (out @ outs, e, s'')))"

lemma run_stream_snoc:
  "run_stream handle s (is @ [i]) =
     (case run_stream handle s is of
        (outs, Some e, s') \<Rightarrow> (outs, Some e, s')
      | (outs, None, s') \<Rightarrow>
          (case handle i s' of (Inl e, s'') \<Rightarrow> (outs, Some e, s'') | (Inr out, s'') \<Rightarrow> (outs @ out, None, s'')))"
  by (induction "is" arbitrary: s) (auto split: sum.splits prod.splits option.splits)

text \<open>What is read off the outputs of each input is read off the outputs of a run without an error.\<close>

lemma run_collect:
  assumes step: "\<And>i s out s'. handle i s = (Inr out, s') \<Longrightarrow> concat (map h out) = t i"
    and "fst (snd (run_stream handle s is)) = None"
  shows "concat (map h (fst (run_stream handle s is))) = concat (map t is)"
  using assms(2)
proof (induction "is" arbitrary: s)
  case (Cons i "is")
  obtain r s1 where r: "handle i s = (r, s1)" by fastforce
  with Cons.prems obtain out where out: "r = Inr out" by (cases r) auto
  have "fst (snd (run_stream handle s1 is)) = None"
    using Cons.prems r out by (auto split: prod.splits)
  with Cons.IH [of s1] step [of i s out s1] r out show ?case by (simp add: split_beta)
qed simp

text \<open>A condition on the states and inputs along a run, up to its first error.\<close>

fun run_all :: "('s \<Rightarrow> 'i \<Rightarrow> bool) \<Rightarrow> ('i \<Rightarrow> 's \<Rightarrow> 'o list res \<times> 's) \<Rightarrow> 's \<Rightarrow> 'i list \<Rightarrow> bool" where
  "run_all ok handle s [] = True"
| "run_all ok handle s (i # is) =
     (ok s i \<and> (case handle i s of (Inl e, s') \<Rightarrow> True | (Inr out, s') \<Rightarrow> run_all ok handle s' is))"

locale stream_simulation =
  fixes step :: "'c \<Rightarrow> 'o \<Rightarrow> 'c option"
    and handle :: "'i \<Rightarrow> 's \<Rightarrow> 'o list res \<times> 's"
    and R :: "'s \<Rightarrow> 'c \<Rightarrow> bool"
    and ok :: "'s \<Rightarrow> 'i \<Rightarrow> bool"
  assumes handle_sim:
    "R s c \<Longrightarrow> ok s i \<Longrightarrow> handle i s = (Inr out, s') \<Longrightarrow>
       \<exists>c'. accepts step c out = Some c' \<and> R s' c'"
begin

lemma run_sim:
  assumes "R s c" "run_all ok handle s is" "run_stream handle s is = (outs, e, s')"
  shows "\<exists>c'. accepts step c outs = Some c' \<and> (e = None \<longrightarrow> R s' c')"
  using assms
proof (induction "is" arbitrary: s c outs)
  case (Cons i "is")
  obtain r s1 where h: "handle i s = (r, s1)" by fastforce
  show ?case
  proof (cases r)
    case (Inl x)
    with Cons.prems h show ?thesis by auto
  next
    case (Inr out)
    have "ok s i" using Cons.prems(2) by simp
    with h Inr Cons.prems(1) obtain c1 where c1: "accepts step c out = Some c1" "R s1 c1"
      using handle_sim by metis
    obtain outs1 where run: "run_stream handle s1 is = (outs1, e, s')" "outs = out @ outs1"
      using Cons.prems(3) h Inr by (auto split: prod.splits)
    show ?thesis
      using Cons.IH [OF c1(2) _ run(1)] Cons.prems(2) h Inr run(2) c1(1) by (auto simp: accepts_append)
  qed
qed auto

lemma run_accepted:
  "R s c \<Longrightarrow> run_all ok handle s is \<Longrightarrow> accepts step c (fst (run_stream handle s is)) \<noteq> None"
  using run_sim by (metis option.discI prod.collapse)

end

lemma run_all_True: "run_all (\<lambda>s i. True) handle s is"
  by (induction "is" arbitrary: s) (auto split: sum.splits prod.splits)

subsection \<open>Numbered entries\<close>

text \<open>
  The stream states number the entries of a map in order of creation. \<open>indexed\<close> says that the
  numbers are below the next one and distinct; \<open>marked\<close> collects the numbers of the entries
  with some mark.
\<close>

definition indexed :: "('v \<Rightarrow> nat) \<Rightarrow> nat \<Rightarrow> ('k \<times> 'v) list \<Rightarrow> bool" where
  "indexed idx n m \<longleftrightarrow>
     (\<forall>k b. map_of m k = Some b \<longrightarrow> idx b < n) \<and>
     (\<forall>k k' b b'. map_of m k = Some b \<longrightarrow> map_of m k' = Some b' \<longrightarrow> idx b = idx b' \<longrightarrow> k = k')"

definition marked :: "('v \<Rightarrow> nat) \<Rightarrow> ('v \<Rightarrow> bool) \<Rightarrow> ('k \<times> 'v) list \<Rightarrow> nat \<Rightarrow> bool" where
  "marked idx mark m i \<longleftrightarrow> (\<exists>k b. map_of m k = Some b \<and> mark b \<and> idx b = i)"

lemma indexed_Nil [simp]: "indexed idx n []"
  by (simp add: indexed_def)

lemma marked_Nil [simp]: "\<not> marked idx mark [] i"
  by (simp add: marked_def)

lemma indexed_lt: "indexed idx n m \<Longrightarrow> map_of m k = Some b \<Longrightarrow> idx b < n"
  unfolding indexed_def by blast

lemma indexed_inj:
  "indexed idx n m \<Longrightarrow> map_of m k = Some b \<Longrightarrow> map_of m k' = Some b' \<Longrightarrow> idx b = idx b' \<Longrightarrow> k = k'"
  unfolding indexed_def by blast

lemma indexedI:
  "(\<And>k b. map_of m k = Some b \<Longrightarrow> idx b < n) \<Longrightarrow>
   (\<And>k k' b b'. map_of m k = Some b \<Longrightarrow> map_of m k' = Some b' \<Longrightarrow> idx b = idx b' \<Longrightarrow> k = k') \<Longrightarrow> indexed idx n m"
  unfolding indexed_def by blast

lemma indexed_set:
  assumes "indexed idx n m" "map_of m k = Some b" "idx b' = idx b"
  shows "indexed idx n (alist_set k b' m)"
proof (rule indexedI)
  fix j c
  assume "map_of (alist_set k b' m) j = Some c"
  then show "idx c < n"
    using indexed_lt [OF assms(1)] assms(2,3) by (auto split: if_splits)
next
  fix j j' c c'
  assume j: "map_of (alist_set k b' m) j = Some c" "map_of (alist_set k b' m) j' = Some c'" "idx c = idx c'"
  define old where "old j c = (if j = k then b else c)" for j c
  have "map_of m j = Some (old j c)" "idx (old j c) = idx c" "map_of m j' = Some (old j' c')" "idx (old j' c') = idx c'"
    using j(1,2) assms(2,3) by (auto simp: old_def split: if_splits)
  with j(3) show "j = j'" using indexed_inj [OF assms(1)] by metis
qed

lemma indexed_add:
  assumes "indexed idx n m" "map_of m k = None" "idx b = n"
  shows "indexed idx (Suc n) (alist_set k b m)"
proof (rule indexedI)
  fix j c
  assume "map_of (alist_set k b m) j = Some c"
  then show "idx c < Suc n"
    using indexed_lt [OF assms(1)] assms(3) by (auto simp: less_Suc_eq split: if_splits)
next
  fix j j' c c'
  assume j: "map_of (alist_set k b m) j = Some c" "map_of (alist_set k b m) j' = Some c'" "idx c = idx c'"
  have lt: "idx d < n" if "map_of m i = Some d" for i d
    using indexed_lt [OF assms(1) that] .
  show "j = j'"
  proof (cases "j = k")
    case True
    with j lt [of j' c'] assms(3) show ?thesis by (auto split: if_splits)
  next
    case False
    then have jm: "map_of m j = Some c" using j(1) by simp
    with lt have "idx c < n" by blast
    with j(2,3) assms(3) have "map_of m j' = Some c'" by (auto split: if_splits)
    with jm j(3) show ?thesis using indexed_inj [OF assms(1)] by blast
  qed
qed

lemma markedI: "map_of m k = Some b \<Longrightarrow> mark b \<Longrightarrow> marked idx mark m (idx b)"
  unfolding marked_def by blast

lemma marked_at:
  assumes "indexed idx n m" "map_of m k = Some b"
  shows "marked idx mark m (idx b) = mark b"
proof
  assume "marked idx mark m (idx b)"
  then obtain k' b' where b': "map_of m k' = Some b'" "mark b'" "idx b' = idx b"
    unfolding marked_def by blast
  then have "k' = k" using indexed_inj [OF assms(1) b'(1) assms(2)] by blast
  with b' assms(2) show "mark b" by simp
next
  assume "mark b"
  with assms(2) show "marked idx mark m (idx b)" by (rule markedI)
qed

lemma marked_set:
  assumes "indexed idx n m" "map_of m k = Some b" "idx b' = idx b"
  shows "marked idx mark (alist_set k b' m) i = (if i = idx b then mark b' else marked idx mark m i)"
proof (cases "i = idx b")
  case True
  have "map_of (alist_set k b' m) k = Some b'" by simp
  from marked_at [OF indexed_set [OF assms] this, of mark] True assms(3) show ?thesis by simp
next
  case False
  then have "(map_of (alist_set k b' m) j = Some c \<and> mark c \<and> idx c = i) \<longleftrightarrow>
      (map_of m j = Some c \<and> mark c \<and> idx c = i)" for j c
    using assms(2,3) by auto
  with False show ?thesis unfolding marked_def by simp
qed

lemma marked_add:
  assumes "map_of m k = None" "\<not> mark b"
  shows "marked idx mark (alist_set k b m) i = marked idx mark m i"
proof -
  have "(map_of (alist_set k b m) j = Some c \<and> mark c \<and> idx c = i) \<longleftrightarrow>
      (map_of m j = Some c \<and> mark c \<and> idx c = i)" for j c
    using assms by auto
  then show ?thesis unfolding marked_def by simp
qed

end
