(* ===== verification/Claude_Stream.thy ===== *)
theory Claude_Stream
  imports Sse_Frame Responses_Claude Streams
begin

text \<open>
  The stream of OpenAI Responses events rewritten as a stream of Claude Messages events:
  \<open>internal/translate/claude_responses_stream.go\<close>. The blocks of the state are an
  association list in order of creation; a Go pointer to a block is its key. A translated
  frame is kept as its event name and payload; \<open>claudeSSE\<close> renders it.

  Go ranges over a map in an unspecified order, so \<open>finish\<close> takes a function \<open>order\<close> that
  permutes the keys.
\<close>

type_synonym sse = "string \<times> obj"

subsection \<open>The state\<close>

record responsesClaudeBlock =
  Index :: nat
  Kind :: string
  Open :: bool
  SawDelta :: bool
  Accumulated :: string
  Encrypted :: string
  FunctionID :: string
  FunctionName :: string

record responsesClaudeStreamState =
  Started :: bool
  Stopped :: bool
  MessageID :: string
  Model :: string
  NextBlock :: nat
  Blocks :: "(string \<times> responsesClaudeBlock) list"

definition new_claude_stream :: "string \<Rightarrow> responsesClaudeStreamState" where
  "new_claude_stream model =
     \<lparr>Started = False, Stopped = False, MessageID = [], Model = model, NextBlock = 0, Blocks = []\<rparr>"

definition upd_block ::
  "string \<Rightarrow> (responsesClaudeBlock \<Rightarrow> responsesClaudeBlock) \<Rightarrow> responsesClaudeStreamState \<Rightarrow> responsesClaudeStreamState" where
  "upd_block key f s =
     (case map_of (Blocks s) key of None \<Rightarrow> s | Some b \<Rightarrow> s\<lparr>Blocks := alist_set key (f b) (Blocks s)\<rparr>)"

subsection \<open>The operations\<close>

definition start_message :: "string \<Rightarrow> string \<Rightarrow> json \<Rightarrow> obj" where
  "start_message mid model input_tokens =
     mk_obj [(''id'', JStr mid), (''type'', JStr ''message''), (''role'', JStr ''assistant''),
             (''model'', JStr model), (''content'', JArr []), (''stop_reason'', JNull), (''stop_sequence'', JNull),
             (''usage'', JObj (mk_obj [(''input_tokens'', input_tokens), (''output_tokens'', JNum ''0'')]))]"

definition start_frame :: "obj \<Rightarrow> sse" where
  "start_frame message =
     (''message_start'', mk_obj [(''type'', JStr ''message_start''), (''message'', JObj message)])"

definition start :: "obj \<Rightarrow> obj \<Rightarrow> (sse, responsesClaudeStreamState) op" where
  "start response payload s =
     (if Started s then ([], s)
      else
        (let mid = firstNonEmptyString [stringValue (fld response ''id''),
                     stringValue (fld payload ''response_id''), ''msg_copilot''];
             model = firstNonEmptyString [stringValue (fld response ''model''), Model s];
             usage = objectValue (fld response ''usage'')
         in ([start_frame (start_message mid model (numberValue (fld usage ''input_tokens'')))],
             s\<lparr>Started := True, MessageID := mid, Model := model\<rparr>)))"

text \<open>\<open>block\<close> returns the key that stands for the pointer.\<close>

definition block :: "string \<Rightarrow> string \<Rightarrow> responsesClaudeStreamState \<Rightarrow> string \<times> responsesClaudeStreamState" where
  "block key0 kind s =
     (let key = (if key0 = [] then kind @ '':'' @ Itoa (int (length (Blocks s))) else key0)
      in (case map_of (Blocks s) key of
            Some b \<Rightarrow> (key, s)
          | None \<Rightarrow>
              (key, s\<lparr>NextBlock := NextBlock s + 1,
                      Blocks := alist_set key \<lparr>Index = NextBlock s, Kind = kind, Open = False, SawDelta = False,
                        Accumulated = [], Encrypted = [], FunctionID = [], FunctionName = []\<rparr> (Blocks s)\<rparr>)))"

definition block_start :: "nat \<Rightarrow> obj \<Rightarrow> sse" where
  "block_start i contentBlock =
     (''content_block_start'',
      mk_obj [(''type'', JStr ''content_block_start''), (''index'', nat_json i), (''content_block'', JObj contentBlock)])"

definition block_stop :: "nat \<Rightarrow> sse" where
  "block_stop i =
     (''content_block_stop'', mk_obj [(''type'', JStr ''content_block_stop''), (''index'', nat_json i)])"

definition block_delta :: "nat \<Rightarrow> string \<Rightarrow> string \<Rightarrow> string \<Rightarrow> sse" where
  "block_delta i deltaType field v =
     (''content_block_delta'',
      mk_obj [(''type'', JStr ''content_block_delta''), (''index'', nat_json i),
              (''delta'', JObj (mk_obj [(''type'', JStr deltaType), (field, JStr v)]))])"

text \<open>The common shape of \<open>openText\<close>, \<open>openThinking\<close> and \<open>openTool\<close>.\<close>

definition open_with :: "(responsesClaudeBlock \<Rightarrow> obj) \<Rightarrow> string \<Rightarrow> (sse, responsesClaudeStreamState) op" where
  "open_with content key s =
     (case map_of (Blocks s) key of
        None \<Rightarrow> ([], s)
      | Some b \<Rightarrow>
          (if Open b then ([], s)
           else ([block_start (Index b) (content b)], upd_block key (\<lambda>b. b\<lparr>Open := True\<rparr>) s)))"

definition openText :: "string \<Rightarrow> (sse, responsesClaudeStreamState) op" where
  "openText = open_with (\<lambda>b. mk_obj [(''type'', JStr ''text''), (''text'', JStr [])])"

definition openThinking :: "string \<Rightarrow> (sse, responsesClaudeStreamState) op" where
  "openThinking = open_with (\<lambda>b.
     if HasPrefix (Encrypted b) redactedThinkingPrefix
     then mk_obj [(''type'', JStr ''redacted_thinking''), (''data'', JStr (TrimPrefix (Encrypted b) redactedThinkingPrefix))]
     else mk_obj [(''type'', JStr ''thinking''), (''thinking'', JStr [])])"

definition openTool :: "string \<Rightarrow> (sse, responsesClaudeStreamState) op" where
  "openTool = open_with (\<lambda>b. mk_obj [(''type'', JStr ''tool_use''), (''id'', JStr (FunctionID b)),
     (''name'', JStr (FunctionName b)), (''input'', JObj [])])"

definition delta :: "string \<Rightarrow> string \<Rightarrow> string \<Rightarrow> string \<Rightarrow> (sse, responsesClaudeStreamState) op" where
  "delta key deltaType field v s =
     (case map_of (Blocks s) key of
        None \<Rightarrow> ([], s)
      | Some b \<Rightarrow>
          (if v = [] then ([], s)
           else ([block_delta (Index b) deltaType field v],
                 upd_block key (\<lambda>b. b\<lparr>SawDelta := True, Accumulated := Accumulated b @ v\<rparr>) s)))"

definition closeBlock :: "string \<Rightarrow> (sse, responsesClaudeStreamState) op" where
  "closeBlock key s =
     (case map_of (Blocks s) key of
        None \<Rightarrow> ([], s)
      | Some b \<Rightarrow>
          (if \<not> Open b then ([], s)
           else ([block_stop (Index b)], upd_block key (\<lambda>b. b\<lparr>Open := False\<rparr>) s)))"

fun close_all :: "string list \<Rightarrow> (sse, responsesClaudeStreamState) op" where
  "close_all [] = skip_out"
| "close_all (k # ks) = bind_out (closeBlock k) (close_all ks)"

definition message_delta :: "string \<Rightarrow> obj \<Rightarrow> sse" where
  "message_delta reason usage =
     (''message_delta'', mk_obj [(''type'', JStr ''message_delta''),
        (''delta'', JObj (mk_obj [(''stop_reason'', JStr reason), (''stop_sequence'', JNull)])),
        (''usage'', JObj usage)])"

definition message_stop :: sse where
  "message_stop = (''message_stop'', mk_obj [(''type'', JStr ''message_stop'')])"

definition finish :: "(string list \<Rightarrow> string list) \<Rightarrow> obj \<Rightarrow> (sse, responsesClaudeStreamState) op" where
  "finish order response s =
     (if Stopped s then ([], s)
      else
        (let hasToolUse = (\<exists>(key, b) \<in> set (Blocks s). Kind b = ''tool_use'');
             (out, s1) = close_all (order (map fst (Blocks s))) s;
             usage = objectValue (fld response ''usage'')
         in (out @ [message_delta (responsesStopReason response hasToolUse)
                      (mk_obj [(''output_tokens'', numberValue (fld usage ''output_tokens''))]),
                    message_stop],
             s1\<lparr>Stopped := True\<rparr>)))"

subsection \<open>One upstream event\<close>

definition start_if_needed :: "string \<Rightarrow> obj \<Rightarrow> (sse, responsesClaudeStreamState) op" where
  "start_if_needed event payload s =
     (let responseObject = objectValue (fld payload ''response'')
      in if \<not> Started s \<and> (event = ''response.created'' \<or> event = ''response.in_progress'' \<or>
              responseObject \<noteq> [] \<or> HasPrefix event ''response.'')
         then start responseObject payload s else ([], s))"

definition set_function :: "obj \<Rightarrow> responsesClaudeBlock \<Rightarrow> responsesClaudeBlock" where
  "set_function item b =
     b\<lparr>FunctionID := firstString item [''call_id'', ''id''], FunctionName := stringValue (fld item ''name'')\<rparr>"

definition fill_function :: "obj \<Rightarrow> responsesClaudeBlock \<Rightarrow> responsesClaudeBlock" where
  "fill_function payload b =
     b\<lparr>FunctionID := (if FunctionID b = [] then firstNonEmptyString [stringValue (fld payload ''call_id''),
                        stringValue (fld payload ''item_id'')] else FunctionID b),
        FunctionName := (if FunctionName b = [] then stringValue (fld payload ''name'') else FunctionName b)\<rparr>"

text \<open>Take or make the block of a key, set some of its data, open it.\<close>

definition enter ::
  "string \<Rightarrow> string \<Rightarrow> (responsesClaudeBlock \<Rightarrow> responsesClaudeBlock) \<Rightarrow>
   (string \<Rightarrow> (sse, responsesClaudeStreamState) op) \<Rightarrow> (sse, responsesClaudeStreamState) op" where
  "enter key0 kind f opener s = (let (key, s1) = block key0 kind s in opener key (upd_block key f s1))"

definition item_added :: "obj \<Rightarrow> (sse, responsesClaudeStreamState) op" where
  "item_added payload =
     (let item = objectValue (fld payload ''item''); key = itemKey payload; t = stringValue (fld item ''type'')
      in if t = ''reasoning'' then
           enter key ''thinking'' (\<lambda>b. b\<lparr>Encrypted := stringValue (fld item ''encrypted_content'')\<rparr>) openThinking
         else if t = ''function_call'' \<or> t = ''custom_tool_call'' then
           enter key ''tool_use'' (set_function item) openTool
         else skip_out)"

definition content_part_added :: "obj \<Rightarrow> (sse, responsesClaudeStreamState) op" where
  "content_part_added payload =
     (let part = objectValue (fld payload ''part''); key = contentKey payload
      in if stringValue (fld part ''type'') \<in> {''output_text'', ''text'', ''refusal''}
         then bind_out (enter key ''text'' id openText)
                (delta key ''text_delta'' ''text'' (firstRawString part [''text'', ''refusal'']))
         else skip_out)"

definition text_delta_event :: "obj \<Rightarrow> (sse, responsesClaudeStreamState) op" where
  "text_delta_event payload =
     bind_out (enter (contentKey payload) ''text'' id openText)
       (delta (contentKey payload) ''text_delta'' ''text'' (rawStringValue (fld payload ''delta'')))"

definition reasoning_delta_event :: "obj \<Rightarrow> (sse, responsesClaudeStreamState) op" where
  "reasoning_delta_event payload =
     bind_out (enter (itemKey payload) ''thinking'' id openThinking)
       (delta (itemKey payload) ''thinking_delta'' ''thinking'' (rawStringValue (fld payload ''delta'')))"

definition arguments_delta_event :: "obj \<Rightarrow> (sse, responsesClaudeStreamState) op" where
  "arguments_delta_event payload =
     bind_out (enter (itemKey payload) ''tool_use'' (fill_function payload) openTool)
       (delta (itemKey payload) ''input_json_delta'' ''partial_json'' (rawStringValue (fld payload ''delta'')))"

text \<open>\<open>response.output_item.done\<close>: make the block when no event announced it, then the text
  that no delta carried, the signature, and the end of the block.\<close>

definition done_enter :: "obj \<Rightarrow> (sse, responsesClaudeStreamState) op" where
  "done_enter payload s =
     (let item = objectValue (fld payload ''item''); key = itemKey payload; t = stringValue (fld item ''type'')
      in if map_of (Blocks s) key \<noteq> None then ([], s)
         else if t = ''reasoning'' then enter key ''thinking'' id openThinking s
         else if t = ''function_call'' \<or> t = ''custom_tool_call'' then
           enter key ''tool_use'' (set_function item) openTool s
         else ([], s))"

definition done_thinking :: "obj \<Rightarrow> string \<Rightarrow> (sse, responsesClaudeStreamState) op" where
  "done_thinking item key s =
     (case map_of (Blocks s) key of
        None \<Rightarrow> ([], s)
      | Some b \<Rightarrow>
          (let encrypted = firstNonEmptyString [stringValue (fld item ''encrypted_content''), Encrypted b]
           in bind_out (if \<not> SawDelta b
                        then delta key ''thinking_delta'' ''thinking'' (responsesReasoningText item) else skip_out)
                (\<lambda>s1. (if encrypted \<noteq> [] \<and> \<not> HasPrefix encrypted redactedThinkingPrefix
                       then delta key ''signature_delta'' ''signature'' encrypted else skip_out)
                        (upd_block key (\<lambda>b. b\<lparr>Encrypted := encrypted\<rparr>) s1)) s))"

definition done_tool :: "obj \<Rightarrow> string \<Rightarrow> (sse, responsesClaudeStreamState) op" where
  "done_tool item key s =
     (case map_of (Blocks s) key of
        None \<Rightarrow> ([], s)
      | Some b \<Rightarrow>
          (if \<not> SawDelta b
           then delta key ''input_json_delta'' ''partial_json'' (firstRawString item [''arguments'', ''input'']) s
           else ([], s)))"

definition done_body :: "obj \<Rightarrow> string \<Rightarrow> (sse, responsesClaudeStreamState) op" where
  "done_body item key s =
     (case map_of (Blocks s) key of
        None \<Rightarrow> ([], s)
      | Some b \<Rightarrow>
          (if Kind b = ''thinking'' then done_thinking item key s
           else if Kind b = ''tool_use'' then done_tool item key s
           else ([], s)))"

definition item_done :: "obj \<Rightarrow> (sse, responsesClaudeStreamState) op" where
  "item_done payload =
     bind_out (done_enter payload)
       (bind_out (done_body (objectValue (fld payload ''item'')) (itemKey payload)) (closeBlock (itemKey payload)))"

definition body_event :: "string \<Rightarrow> obj \<Rightarrow> (sse, responsesClaudeStreamState) op" where
  "body_event event payload =
     (if event = ''response.output_item.added'' then item_added payload
      else if event = ''response.content_part.added'' then content_part_added payload
      else if event = ''response.output_text.delta'' \<or> event = ''response.refusal.delta'' then
        text_delta_event payload
      else if event = ''response.reasoning_summary_text.delta'' \<or> event = ''response.reasoning_text.delta'' then
        reasoning_delta_event payload
      else if event = ''response.function_call_arguments.delta'' \<or> event = ''response.custom_tool_call_input.delta'' then
        arguments_delta_event payload
      else if event = ''response.content_part.done'' then closeBlock (contentKey payload)
      else if event = ''response.output_item.done'' then item_done payload
      else skip_out)"

definition claude_event ::
  "(string list \<Rightarrow> string list) \<Rightarrow> string \<times> obj \<Rightarrow> responsesClaudeStreamState \<Rightarrow>
   sse list res \<times> responsesClaudeStreamState" where
  "claude_event order ep s =
     (let (event, payload) = ep; responseObject = objectValue (fld payload ''response'')
      in if event = ''error'' \<or> event = ''response.failed'' then (Inl (stream_failure payload), s)
         else if event = ''response.completed'' \<or> event = ''response.incomplete'' then
           (case (if event = ''response.completed'' then responsesFailure responseObject else None) of
              Some e \<Rightarrow> (Inl e, snd (start_if_needed event payload s))
            | None \<Rightarrow>
                (let (out, s1) = bind_out (start_if_needed event payload) (finish order responseObject) s
                 in (Inr out, s1)))
         else (let (out, s1) = bind_out (start_if_needed event payload) (body_event event payload) s
               in (Inr out, s1)))"

subsection \<open>One upstream frame\<close>

definition claude_frame ::
  "(string list \<Rightarrow> string list) \<Rightarrow> string \<Rightarrow> responsesClaudeStreamState \<Rightarrow>
   sse list res \<times> responsesClaudeStreamState" where
  "claude_frame order frame s =
     (case parseSSEFrame frame of
        Inl e \<Rightarrow> (Inl e, s)
      | Inr (event, data, done) \<Rightarrow>
          (if done then
             (if Stopped s then (Inr [], s)
              else (Inl (ErrorText ''Responses stream ended before a terminal response event''), s))
           else
             (case data of
                None \<Rightarrow> (Inr [], s)
              | Some d \<Rightarrow>
                  (case decodeObject d of
                     Inl e \<Rightarrow> (Inl (WrapQ ''decode Responses SSE event '' event e), s)
                   | Inr payload \<Rightarrow>
                       claude_event order
                         (if event = [] then stringValue (fld payload ''type'') else event, payload) s))))"

text \<open>The exported function on its \<open>state\<close> argument: \<open>None\<close> is a nil pointer, \<open>Some None\<close> a
  cell that holds no state of this translator yet.\<close>

definition responsesStreamToClaude ::
  "(string list \<Rightarrow> string list) \<Rightarrow> string \<Rightarrow> string \<Rightarrow> responsesClaudeStreamState option option \<Rightarrow>
   string list res \<times> responsesClaudeStreamState option option" where
  "responsesStreamToClaude order model frame state =
     (case state of
        None \<Rightarrow> (Inl (ErrorText ''Responses-to-Claude stream translation requires state''), None)
      | Some cell \<Rightarrow>
          (let (r, s) = claude_frame order frame
                 (case cell of Some s \<Rightarrow> s | None \<Rightarrow> new_claude_stream model)
           in (case r of Inl e \<Rightarrow> Inl e | Inr out \<Rightarrow> Inr (map claudeSSE out), Some (Some s))))"

end
