(* ===== verification/Claude_Protocol.thy ===== *)
theory Claude_Protocol
  imports Claude_Stream
begin

text \<open>
  The contract of a Claude Messages event stream as an automaton of its reader, and the
  simulation that shows the Responses translator keeps it. The reader expects
  \<open>message_start\<close> first and once, blocks that are started before they receive deltas and
  stopped once, \<open>message_delta\<close> when no block is open, and \<open>message_stop\<close> after it. With
  \<open>strict\<close> it also wants fresh consecutive indices, deltas only inside an open block and
  nothing after \<open>message_stop\<close>.
\<close>

record claude_client =
  cl_started :: bool
  cl_next :: nat
  cl_open :: "nat list"
  cl_finished :: bool
  cl_stopped :: bool

definition client0 :: claude_client where
  "client0 = \<lparr>cl_started = False, cl_next = 0, cl_open = [], cl_finished = False, cl_stopped = False\<rparr>"

definition block_index :: "obj \<Rightarrow> nat option" where
  "block_index p = (case fld p ''index'' of JNum t \<Rightarrow> Some (dec_val t) | _ \<Rightarrow> None)"

definition client_block :: "bool \<Rightarrow> string \<Rightarrow> nat \<Rightarrow> claude_client \<Rightarrow> claude_client option" where
  "client_block strict ev i c =
     (if ev = ''content_block_start'' then
        (if i \<in> set (cl_open c) \<or> cl_next c < i \<or> (strict \<and> i \<noteq> cl_next c) then None
         else Some (c\<lparr>cl_open := i # cl_open c, cl_next := max (cl_next c) (Suc i)\<rparr>))
      else if ev = ''content_block_delta'' then
        (if i \<in> set (cl_open c) \<or> (\<not> strict \<and> i < cl_next c) then Some c else None)
      else if ev = ''content_block_stop'' then
        (if i \<in> set (cl_open c) then Some (c\<lparr>cl_open := filter (\<lambda>j. j \<noteq> i) (cl_open c)\<rparr>) else None)
      else None)"

definition client_step :: "bool \<Rightarrow> claude_client \<Rightarrow> sse \<Rightarrow> claude_client option" where
  "client_step strict c f =
     (let (ev, p) = f
      in if ev = ''message_start'' then (if cl_started c then None else Some (c\<lparr>cl_started := True\<rparr>))
         else if \<not> cl_started c \<or> (strict \<and> cl_stopped c) then None
         else if ev = ''message_delta'' then
           (if cl_finished c \<or> cl_open c \<noteq> [] then None else Some (c\<lparr>cl_finished := True\<rparr>))
         else if ev = ''message_stop'' then
           (if cl_finished c \<and> \<not> cl_stopped c then Some (c\<lparr>cl_stopped := True\<rparr>) else None)
         else (case block_index p of None \<Rightarrow> None | Some i \<Rightarrow> client_block strict ev i c))"

lemma block_index_nat:
  "fld p ''index'' = nat_json i \<Longrightarrow> block_index p = Some i"
  by (simp add: block_index_def nat_json_def Itoa_def dec_val_nat_text)

lemma client_step_simps:
  "client_step strict c (block_start i content) =
     (if \<not> cl_started c \<or> (strict \<and> cl_stopped c) then None
      else if i \<in> set (cl_open c) \<or> cl_next c < i \<or> (strict \<and> i \<noteq> cl_next c) then None
      else Some (c\<lparr>cl_open := i # cl_open c, cl_next := max (cl_next c) (Suc i)\<rparr>))"
  "client_step strict c (block_delta i dt field v) =
     (if \<not> cl_started c \<or> (strict \<and> cl_stopped c) then None
      else if i \<in> set (cl_open c) \<or> (\<not> strict \<and> i < cl_next c) then Some c else None)"
  "client_step strict c (block_stop i) =
     (if \<not> cl_started c \<or> (strict \<and> cl_stopped c) then None
      else if i \<in> set (cl_open c) then Some (c\<lparr>cl_open := filter (\<lambda>j. j \<noteq> i) (cl_open c)\<rparr>) else None)"
  "client_step strict c (start_frame m) = (if cl_started c then None else Some (c\<lparr>cl_started := True\<rparr>))"
  "client_step strict c (message_delta reason usage) =
     (if \<not> cl_started c \<or> (strict \<and> cl_stopped c) then None
      else if cl_finished c \<or> cl_open c \<noteq> [] then None else Some (c\<lparr>cl_finished := True\<rparr>))"
  "client_step strict c message_stop =
     (if \<not> cl_started c \<or> (strict \<and> cl_stopped c) then None
      else if cl_finished c \<and> \<not> cl_stopped c then Some (c\<lparr>cl_stopped := True\<rparr>) else None)"
  by (simp_all add: client_step_def block_start_def block_delta_def block_stop_def start_frame_def
      message_delta_def message_stop_def client_block_def block_index_nat fld_mk_obj_Cons)

subsection \<open>The relation between the translator and the reader\<close>

definition blocks_ok :: "responsesClaudeStreamState \<Rightarrow> bool" where
  "blocks_ok s \<longleftrightarrow>
     (\<forall>k b. map_of (Blocks s) k = Some b \<longrightarrow> Index b < NextBlock s) \<and>
     (\<forall>k k' b b'. map_of (Blocks s) k = Some b \<longrightarrow> map_of (Blocks s) k' = Some b' \<longrightarrow>
        Index b = Index b' \<longrightarrow> k = k')"

definition opened :: "responsesClaudeStreamState \<Rightarrow> nat \<Rightarrow> bool" where
  "opened s i \<longleftrightarrow> (\<exists>k b. map_of (Blocks s) k = Some b \<and> Open b \<and> Index b = i)"

definition client_rel :: "responsesClaudeStreamState \<Rightarrow> claude_client \<Rightarrow> bool" where
  "client_rel s c \<longleftrightarrow>
     cl_started c = Started s \<and> cl_finished c = Stopped s \<and> cl_stopped c = Stopped s \<and>
     cl_next c = NextBlock s \<and> (\<forall>i. i \<in> set (cl_open c) \<longleftrightarrow> opened s i) \<and> blocks_ok s"

lemma blocks_ok_lt: "blocks_ok s \<Longrightarrow> map_of (Blocks s) k = Some b \<Longrightarrow> Index b < NextBlock s"
  unfolding blocks_ok_def by blast

lemma openedI: "map_of (Blocks s) k = Some b \<Longrightarrow> Open b \<Longrightarrow> opened s (Index b)"
  unfolding opened_def by blast

lemma blocks_ok_inj:
  "blocks_ok s \<Longrightarrow> map_of (Blocks s) k = Some b \<Longrightarrow> map_of (Blocks s) k' = Some b' \<Longrightarrow>
   Index b = Index b' \<Longrightarrow> k = k'"
  unfolding blocks_ok_def by blast

text \<open>The state between \<open>block\<close> and the opening of the block it made.\<close>

definition client_rel_new :: "string \<Rightarrow> responsesClaudeStreamState \<Rightarrow> claude_client \<Rightarrow> bool" where
  "client_rel_new key s c \<longleftrightarrow>
     cl_started c = Started s \<and> cl_finished c = Stopped s \<and> cl_stopped c = Stopped s \<and>
     (\<exists>b. map_of (Blocks s) key = Some b \<and>
        (cl_next c = NextBlock s \<or>
         cl_next c = Index b \<and> NextBlock s = Suc (Index b) \<and> \<not> Open b)) \<and>
     (\<forall>i. i \<in> set (cl_open c) \<longleftrightarrow> opened s i) \<and> blocks_ok s"

lemma client_rel_init: "client_rel (new_claude_stream model) client0"
  by (simp add: client_rel_def new_claude_stream_def client0_def opened_def blocks_ok_def)

lemma upd_block_simps [simp]:
  "Started (upd_block k f s) = Started s" "Stopped (upd_block k f s) = Stopped s"
  "NextBlock (upd_block k f s) = NextBlock s" "Model (upd_block k f s) = Model s"
  "map_of (Blocks (upd_block k f s)) k' = (if k' = k then map_option f (map_of (Blocks s) k) else map_of (Blocks s) k')"
  "map fst (Blocks (upd_block k f s)) = map fst (Blocks s)"
  by (auto simp: upd_block_def keys_alist_set split: option.split)

lemma blocks_ok_upd:
  assumes "blocks_ok s" "\<And>b. Index (f b) = Index b"
  shows "blocks_ok (upd_block k f s)"
  using assms unfolding blocks_ok_def by (auto simp: map_option_case split: option.splits if_splits)

lemma opened_upd_same:
  "(\<And>b. Index (f b) = Index b) \<Longrightarrow> (\<And>b. Open (f b) = Open b) \<Longrightarrow> opened (upd_block k f s) i = opened s i"
  by (auto simp: opened_def split: if_splits) metis+

lemma client_rel_upd:
  assumes "\<And>b. Index (f b) = Index b" "\<And>b. Open (f b) = Open b"
  shows "client_rel s c \<Longrightarrow> client_rel (upd_block k f s) c"
  using assms by (simp add: client_rel_def opened_upd_same blocks_ok_upd)

lemma client_rel_new_upd:
  assumes "\<And>b. Index (f b) = Index b" "\<And>b. Open (f b) = Open b"
  shows "client_rel_new key s c \<Longrightarrow> client_rel_new key (upd_block key f s) c"
  using assms by (auto simp: client_rel_new_def opened_upd_same blocks_ok_upd)

definition fresh_block :: "nat \<Rightarrow> string \<Rightarrow> responsesClaudeBlock" where
  "fresh_block n kind = \<lparr>Index = n, Kind = kind, Open = False, SawDelta = False, Accumulated = [],
     Encrypted = [], FunctionID = [], FunctionName = []\<rparr>"

lemma block_cases:
  assumes "key \<noteq> []"
  shows "block key kind s =
    (key, case map_of (Blocks s) key of Some b \<Rightarrow> s
          | None \<Rightarrow> s\<lparr>NextBlock := NextBlock s + 1, Blocks := alist_set key (fresh_block (NextBlock s) kind) (Blocks s)\<rparr>)"
  using assms by (simp add: block_def Let_def fresh_block_def split: option.split)

lemma blocks_ok_fresh:
  assumes "blocks_ok s" "map_of (Blocks s) key = None"
  shows "blocks_ok (s\<lparr>NextBlock := NextBlock s + 1, Blocks := alist_set key (fresh_block (NextBlock s) kind) (Blocks s)\<rparr>)"
proof -
  have "Index b \<noteq> NextBlock s" if "map_of (Blocks s) k = Some b" for k b
    using blocks_ok_lt [OF assms(1) that] by simp
  with assms show ?thesis
    unfolding blocks_ok_def by (simp add: fresh_block_def less_Suc_eq) metis
qed

lemma block_rel:
  assumes "client_rel s c" "key \<noteq> []"
  shows "client_rel_new key (snd (block key kind s)) c"
proof (cases "map_of (Blocks s) key")
  case None
  let ?s = "s\<lparr>NextBlock := NextBlock s + 1, Blocks := alist_set key (fresh_block (NextBlock s) kind) (Blocks s)\<rparr>"
  have "opened ?s i = opened s i" for i
    using None unfolding opened_def by (simp add: fresh_block_def) (metis option.distinct(1))
  with None assms show ?thesis
    using blocks_ok_fresh [of s key kind]
    by (simp add: block_cases client_rel_def client_rel_new_def) (simp add: fresh_block_def)
next
  case (Some b)
  with assms show ?thesis by (simp add: block_cases client_rel_def client_rel_new_def)
qed

subsection \<open>Conditions of the operations\<close>

definition live :: "bool \<Rightarrow> responsesClaudeStreamState \<Rightarrow> bool" where
  "live strict s \<longleftrightarrow> Started s \<and> (strict \<longrightarrow> \<not> Stopped s)"

definition tame_key :: "string \<Rightarrow> responsesClaudeStreamState \<Rightarrow> bool" where
  "tame_key key s \<longleftrightarrow> (case map_of (Blocks s) key of None \<Rightarrow> True | Some b \<Rightarrow> Open b)"

definition may_delta :: "bool \<Rightarrow> string \<Rightarrow> responsesClaudeStreamState \<Rightarrow> bool" where
  "may_delta strict key s \<longleftrightarrow>
     live strict s \<and> (strict \<longrightarrow> (\<exists>b. map_of (Blocks s) key = Some b \<and> Open b))"

lemma opened_change:
  assumes "blocks_ok s" "map_of (Blocks s) key = Some b" "\<And>b. Index (f b) = Index b"
  shows "opened (upd_block key f s) i = (if i = Index b then Open (f b) else opened s i)"
proof (cases "i = Index b")
  case True
  have only: "k = key" if "map_of (Blocks (upd_block key f s)) k = Some b'" "Index b' = i" for k b'
    using that blocks_ok_inj [OF assms(1,2), of k b'] True by (cases "k = key") simp_all
  have at: "map_of (Blocks (upd_block key f s)) key = Some (f b)" using assms(2) by simp
  show ?thesis
  proof
    assume "opened (upd_block key f s) i"
    then obtain k b' where kb: "map_of (Blocks (upd_block key f s)) k = Some b'" "Open b'" "Index b' = i"
      unfolding opened_def by blast
    have "Some b' = Some (f b)" using at kb(1) only [OF kb(1,3)] by metis
    with kb(2) True show "if i = Index b then Open (f b) else opened s i" by simp
  next
    assume "if i = Index b then Open (f b) else opened s i"
    with True openedI [OF at] assms(3) show "opened (upd_block key f s) i" by simp
  qed
next
  case False
  then have "(map_of (Blocks (upd_block key f s)) k = Some b' \<and> Open b' \<and> Index b' = i) \<longleftrightarrow>
      (map_of (Blocks s) k = Some b' \<and> Open b' \<and> Index b' = i)" for k b'
    using assms(2,3) by auto
  with False show ?thesis unfolding opened_def by simp
qed

lemma open_rel:
  assumes "client_rel_new key s c" "live strict s"
    "strict \<longrightarrow> (\<forall>b. map_of (Blocks s) key = Some b \<longrightarrow> \<not> Open b \<longrightarrow> cl_next c = Index b)"
  shows "\<exists>c'. accepts (client_step strict) c (fst (open_with content key s)) = Some c' \<and>
              client_rel (snd (open_with content key s)) c'"
proof -
  from assms(1) obtain b where b: "map_of (Blocks s) key = Some b"
    and n: "cl_next c = NextBlock s \<or> cl_next c = Index b \<and> NextBlock s = Suc (Index b) \<and> \<not> Open b"
    and r: "cl_started c = Started s" "cl_finished c = Stopped s" "cl_stopped c = Stopped s"
      "\<And>i. i \<in> set (cl_open c) \<longleftrightarrow> opened s i" "blocks_ok s"
    by (auto simp: client_rel_new_def)
  have lt: "Index b < NextBlock s" using b r(5) by (auto simp: blocks_ok_def)
  show ?thesis
  proof (cases "Open b")
    case True
    with n have "cl_next c = NextBlock s" by blast
    with r have "client_rel s c" unfolding client_rel_def by blast
    with b True show ?thesis by (simp add: open_with_def)
  next
    case False
    have "\<not> opened s (Index b)"
      using False b blocks_ok_inj [OF r(5) b] unfolding opened_def by (metis option.inject)
    then have "Index b \<notin> set (cl_open c)" by (simp add: r(4))
    moreover have "\<not> cl_next c < Index b" "max (cl_next c) (Suc (Index b)) = NextBlock s"
      using n lt by auto
    moreover have "\<not> (strict \<and> Index b \<noteq> cl_next c)" using assms(3) b False by auto
    moreover have "cl_started c" "\<not> (strict \<and> cl_stopped c)" using assms(2) r(1,3) by (auto simp: live_def)
    ultimately have "client_step strict c (block_start (Index b) (content b)) =
        Some (c\<lparr>cl_open := Index b # cl_open c, cl_next := NextBlock s\<rparr>)"
      by (simp only: client_step_simps) simp
    moreover have "opened (upd_block key (\<lambda>b. b\<lparr>Open := True\<rparr>) s) i \<longleftrightarrow> i = Index b \<or> opened s i" for i
      using opened_change [OF r(5) b, of "\<lambda>b. b\<lparr>Open := True\<rparr>"] by simp
    ultimately show ?thesis
      using False b r by (simp add: open_with_def client_rel_def blocks_ok_upd)
  qed
qed

lemma enter_sim:
  assumes "key \<noteq> []" "\<And>b. Index (f b) = Index b" "\<And>b. Open (f b) = Open b"
  shows "simulates (client_step strict) client_rel (\<lambda>s. live strict s \<and> (strict \<longrightarrow> tame_key key s))
    (enter key kind f (open_with content))"
proof (rule simulatesI)
  fix s c
  assume rel: "client_rel s c" and P: "live strict s \<and> (strict \<longrightarrow> tame_key key s)"
  let ?s1 = "snd (block key kind s)"
  let ?s2 = "upd_block key f ?s1"
  have new: "client_rel_new key ?s2 c"
    using client_rel_new_upd [OF assms(2,3) block_rel [OF rel assms(1)]] .
  have "live strict ?s2"
    using P assms(1) by (auto simp: live_def block_cases split: option.split)
  moreover have "strict \<longrightarrow> (\<forall>b. map_of (Blocks ?s2) key = Some b \<longrightarrow> \<not> Open b \<longrightarrow> cl_next c = Index b)"
    using P assms rel by (auto simp: tame_key_def block_cases client_rel_def fresh_block_def split: option.splits)
  moreover have "enter key kind f (open_with content) s = open_with content key ?s2"
    using assms(1) by (simp add: enter_def block_cases)
  ultimately show "\<exists>c'. accepts (client_step strict) c (fst (enter key kind f (open_with content) s)) = Some c' \<and>
      client_rel (snd (enter key kind f (open_with content) s)) c'"
    using open_rel [OF new] by simp
qed

lemma enter_post:
  assumes "key \<noteq> []" "\<And>b. Open (f b) = Open b" "live strict s"
  shows "may_delta strict key (snd (enter key kind f (open_with content) s))"
  using assms
  by (auto simp: may_delta_def live_def enter_def block_cases open_with_def split: option.split)

lemma delta_sim:
  "simulates (client_step strict) client_rel (may_delta strict key) (delta key dt field v)"
proof (rule simulatesI)
  fix s c
  assume rel: "client_rel s c" and P: "may_delta strict key s"
  show "\<exists>c'. accepts (client_step strict) c (fst (delta key dt field v s)) = Some c' \<and>
      client_rel (snd (delta key dt field v s)) c'"
  proof (cases "map_of (Blocks s) key")
    case None
    with rel show ?thesis by (simp add: delta_def)
  next
    case (Some b)
    have lt: "Index b < NextBlock s" using rel Some by (auto simp: client_rel_def blocks_ok_def)
    have "Open b \<Longrightarrow> opened s (Index b)" using Some by (auto simp: opened_def)
    with Some lt rel P have "client_step strict c (block_delta (Index b) dt field v) = Some c"
      by (auto simp: client_step_simps client_rel_def may_delta_def live_def)
    with Some rel show ?thesis by (simp add: delta_def client_rel_upd)
  qed
qed

lemma delta_post: "may_delta strict key s \<Longrightarrow> may_delta strict key (snd (delta k dt field v s))"
  by (auto simp: delta_def may_delta_def live_def split: option.splits)

lemma close_sim:
  "simulates (client_step strict) client_rel (live strict) (closeBlock key)"
proof (rule simulatesI)
  fix s c
  assume rel: "client_rel s c" and P: "live strict s"
  show "\<exists>c'. accepts (client_step strict) c (fst (closeBlock key s)) = Some c' \<and>
      client_rel (snd (closeBlock key s)) c'"
  proof (cases "\<exists>b. map_of (Blocks s) key = Some b \<and> Open b")
    case False
    with rel show ?thesis by (auto simp: closeBlock_def split: option.split)
  next
    case True
    then obtain b where b: "map_of (Blocks s) key = Some b" "Open b" by blast
    then have "opened s (Index b)" by (auto simp: opened_def)
    with rel P have "client_step strict c (block_stop (Index b)) =
        Some (c\<lparr>cl_open := filter (\<lambda>j. j \<noteq> Index b) (cl_open c)\<rparr>)"
      by (auto simp: client_step_simps client_rel_def live_def)
    moreover have "opened (upd_block key (\<lambda>b. b\<lparr>Open := False\<rparr>) s) i \<longleftrightarrow> i \<noteq> Index b \<and> opened s i" for i
      using opened_change [OF _ b(1), of "\<lambda>b. b\<lparr>Open := False\<rparr>"] rel by (simp add: client_rel_def)
    ultimately show ?thesis
      using b rel by (simp add: closeBlock_def client_rel_def blocks_ok_upd conj_commute)
  qed
qed

subsection \<open>Starting and finishing\<close>

lemma start_if_needed_sim: "simulates (client_step strict) client_rel P (start_if_needed event payload)"
proof (rule simulatesI)
  fix s c
  assume rel: "client_rel s c"
  show "\<exists>c'. accepts (client_step strict) c (fst (start_if_needed event payload s)) = Some c' \<and>
      client_rel (snd (start_if_needed event payload s)) c'"
    using rel by (simp add: start_if_needed_def start_def Let_def client_step_simps client_rel_def
        opened_def blocks_ok_def)
qed

lemma start_if_needed_state:
  "Blocks (snd (start_if_needed event payload s)) = Blocks s"
  "Stopped (snd (start_if_needed event payload s)) = Stopped s"
  "NextBlock (snd (start_if_needed event payload s)) = NextBlock s"
  "HasPrefix event ''response.'' \<Longrightarrow> Started (snd (start_if_needed event payload s))"
  by (simp_all add: start_if_needed_def start_def Let_def)

lemma tame_key_start [simp]: "tame_key k (snd (start_if_needed event payload s)) = tame_key k s"
  by (simp add: tame_key_def start_if_needed_state)

lemma closeBlock_state [simp]:
  "Started (snd (closeBlock k s)) = Started s" "Stopped (snd (closeBlock k s)) = Stopped s"
  "live strict (snd (closeBlock k s)) = live strict s"
  "map_of (Blocks (snd (closeBlock k s))) k' =
     (if k' = k then map_option (\<lambda>b. b\<lparr>Open := False\<rparr>) (map_of (Blocks s) k) else map_of (Blocks s) k')"
  by (auto simp: closeBlock_def live_def split: option.split)

lemma snd_bind_out [simp]: "snd (bind_out f g s) = snd (g (snd (f s)))"
  by (simp add: bind_out_def split: prod.split)

lemma fst_bind_out: "fst (bind_out f g s) = fst (f s) @ fst (g (snd (f s)))"
  by (simp add: bind_out_def split: prod.split)

lemma close_all_sim: "simulates (client_step strict) client_rel (live strict) (close_all ks)"
  by (induction ks) (simp_all add: simulates_skip simulates_bind [OF close_sim])

lemma close_all_state:
  "Started (snd (close_all ks s)) = Started s \<and> Stopped (snd (close_all ks s)) = Stopped s \<and>
   NextBlock (snd (close_all ks s)) = NextBlock s \<and>
   map_of (Blocks (snd (close_all ks s))) k =
     map_option (\<lambda>b. if k \<in> set ks then b\<lparr>Open := False\<rparr> else b) (map_of (Blocks s) k)"
proof (induction ks arbitrary: s)
  case Nil
  then show ?case by (simp add: skip_out_def option.map_ident)
next
  case (Cons k' ks)
  have "NextBlock (snd (closeBlock k' s)) = NextBlock s"
    by (simp add: closeBlock_def split: option.split)
  then show ?case by (cases "map_of (Blocks s) k'") (simp_all add: Cons.IH option.map_comp comp_def)
qed

definition permutes :: "(string list \<Rightarrow> string list) \<Rightarrow> bool" where
  "permutes order \<longleftrightarrow> (\<forall>ks. set (order ks) = set ks \<and> (distinct ks \<longrightarrow> distinct (order ks)))"

lemma close_all_none_open:
  assumes "permutes order"
  shows "\<not> opened (snd (close_all (order (map fst (Blocks s))) s)) i"
proof -
  have "b = b'\<lparr>Open := False\<rparr>"
    if "map_of (Blocks (snd (close_all (order (map fst (Blocks s))) s))) k = Some b" "map_of (Blocks s) k = Some b'"
    for k b b'
  proof -
    have "k \<in> set (order (map fst (Blocks s)))"
      using assms map_of_SomeD [OF that(2)] by (force simp: permutes_def)
    with that close_all_state [of "order (map fst (Blocks s))" s k] show ?thesis by simp
  qed
  moreover have "map_of (Blocks s) k \<noteq> None"
    if "map_of (Blocks (snd (close_all (order (map fst (Blocks s))) s))) k = Some b" for k b
    using that close_all_state [of "order (map fst (Blocks s))" s k] by auto
  ultimately show ?thesis unfolding opened_def by fastforce
qed

lemma finish_sim:
  assumes "permutes order"
  shows "simulates (client_step strict) client_rel (\<lambda>s. Started s) (finish order response)"
proof (rule simulatesI)
  fix s c
  assume rel: "client_rel s c" and started: "Started s"
  show "\<exists>c'. accepts (client_step strict) c (fst (finish order response s)) = Some c' \<and>
      client_rel (snd (finish order response s)) c'"
  proof (cases "Stopped s")
    case True
    with rel show ?thesis by (simp add: finish_def)
  next
    case False
    let ?ks = "order (map fst (Blocks s))"
    let ?s1 = "snd (close_all ?ks s)"
    have "live strict s" using started False by (simp add: live_def)
    then obtain c1 where c1: "accepts (client_step strict) c (fst (close_all ?ks s)) = Some c1" "client_rel ?s1 c1"
      using simulatesD [OF close_all_sim rel] by blast
    then have "cl_open c1 = []"
      using close_all_none_open [OF assms, of s] unfolding client_rel_def by (metis list.set_intros(1) neq_Nil_conv)
    moreover have "client_rel (?s1\<lparr>Stopped := True\<rparr>) (c1\<lparr>cl_finished := True, cl_stopped := True\<rparr>)"
      using c1(2) by (simp add: client_rel_def opened_def blocks_ok_def)
    ultimately show ?thesis
      using c1 False started close_all_state [of ?ks s]
      by (simp add: finish_def split_beta Let_def accepts_append client_step_simps client_rel_def)
  qed
qed

subsection \<open>The events\<close>

definition opens_key :: "string \<Rightarrow> obj \<Rightarrow> string option" where
  "opens_key event payload =
     (if event \<in> {''response.content_part.added'', ''response.output_text.delta'', ''response.refusal.delta''}
      then Some (contentKey payload)
      else if event \<in> {''response.output_item.added'', ''response.reasoning_summary_text.delta'',
        ''response.reasoning_text.delta'', ''response.function_call_arguments.delta'',
        ''response.custom_tool_call_input.delta'', ''response.output_item.done''}
      then Some (itemKey payload) else None)"

text \<open>An upstream event in its place: the response is not over, and the block the event writes
  to is new or open.\<close>

definition orderly :: "responsesClaudeStreamState \<Rightarrow> string \<times> obj \<Rightarrow> bool" where
  "orderly s ep \<longleftrightarrow>
     \<not> Stopped s \<and>
     (case opens_key (fst ep) (snd ep) of None \<Rightarrow> True | Some k \<Rightarrow> tame_key k s)"

definition may_enter :: "bool \<Rightarrow> string \<Rightarrow> responsesClaudeStreamState \<Rightarrow> bool" where
  "may_enter strict key s \<longleftrightarrow> live strict s \<and> (strict \<longrightarrow> tame_key key s)"

lemma opener_sims:
  assumes "key \<noteq> []" "\<And>b. Index (f b) = Index b" "\<And>b. Open (f b) = Open b"
  shows "simulates (client_step strict) client_rel (may_enter strict key) (enter key kind f openText)"
    "simulates (client_step strict) client_rel (may_enter strict key) (enter key kind f openThinking)"
    "simulates (client_step strict) client_rel (may_enter strict key) (enter key kind f openTool)"
  using enter_sim [OF assms] by (simp_all add: openText_def openThinking_def openTool_def may_enter_def [abs_def])

lemma opener_posts:
  assumes "key \<noteq> []" "\<And>b. Open (f b) = Open b" "may_enter strict key s"
  shows "may_delta strict key (snd (enter key kind f openText s))"
    "may_delta strict key (snd (enter key kind f openThinking s))"
    "may_delta strict key (snd (enter key kind f openTool s))"
  using enter_post [OF assms(1,2)] assms(3)
  by (simp_all add: openText_def openThinking_def openTool_def may_enter_def)

lemma set_function_simps [simp]:
  "Index (set_function item b) = Index b" "Open (set_function item b) = Open b"
  "Index (fill_function item b) = Index b" "Open (fill_function item b) = Open b"
  by (simp_all add: set_function_def fill_function_def)

lemma item_added_sim:
  "simulates (client_step strict) client_rel (may_enter strict (itemKey payload)) (item_added payload)"
  by (simp add: item_added_def Let_def opener_sims simulates_skip)

lemma content_part_added_sim:
  "simulates (client_step strict) client_rel (may_enter strict (contentKey payload)) (content_part_added payload)"
  by (simp add: content_part_added_def Let_def simulates_skip
      simulates_bind [OF opener_sims(1) delta_sim opener_posts(1)])

lemma delta_events_sim:
  "simulates (client_step strict) client_rel (may_enter strict (contentKey payload)) (text_delta_event payload)"
  "simulates (client_step strict) client_rel (may_enter strict (itemKey payload)) (reasoning_delta_event payload)"
  "simulates (client_step strict) client_rel (may_enter strict (itemKey payload)) (arguments_delta_event payload)"
  by (simp_all add: text_delta_event_def reasoning_delta_event_def arguments_delta_event_def
      simulates_bind [OF opener_sims(1) delta_sim opener_posts(1)]
      simulates_bind [OF opener_sims(2) delta_sim opener_posts(2)]
      simulates_bind [OF opener_sims(3) delta_sim opener_posts(3)])

lemma simulates_weaken: "simulates step R P f \<Longrightarrow> (\<And>s. Q s \<Longrightarrow> P s) \<Longrightarrow> simulates step R Q f"
  by (simp add: simulates_def)

lemma simulates_pre:
  "(\<And>s. simulates step R (\<lambda>s'. s' = s \<and> P s) f) \<Longrightarrow> simulates step R P f"
  by (auto simp: simulates_def)

lemma upd_enc_rel: "client_rel s c \<Longrightarrow> client_rel (upd_block key (\<lambda>b. b\<lparr>Encrypted := e\<rparr>) s) c"
  by (rule client_rel_upd) simp_all

lemma may_delta_upd:
  "(\<And>b. Open (f b) = Open b) \<Longrightarrow> may_delta strict key (upd_block k f s) = may_delta strict key s"
  by (auto simp: may_delta_def live_def)

lemma done_thinking_sim:
  "simulates (client_step strict) client_rel (may_delta strict key) (done_thinking item key)"
proof (rule simulatesI)
  fix s c
  assume rel: "client_rel s c" and P: "may_delta strict key s"
  show "\<exists>c'. accepts (client_step strict) c (fst (done_thinking item key s)) = Some c' \<and>
      client_rel (snd (done_thinking item key s)) c'"
  proof (cases "map_of (Blocks s) key")
    case None
    with rel show ?thesis by (simp add: done_thinking_def)
  next
    case (Some b)
    let ?e = "firstNonEmptyString [stringValue (fld item ''encrypted_content''), Encrypted b]"
    let ?u = "upd_block key (\<lambda>b. b\<lparr>Encrypted := ?e\<rparr>)"
    have D: "simulates (client_step strict) client_rel (may_delta strict key)
        (if X then delta key dt field v else skip_out)" for X dt field v
      by (simp add: delta_sim simulates_skip)
    have "simulates (client_step strict) client_rel (may_delta strict key)
        (\<lambda>s1. (if X then delta key dt field v else skip_out) (?u s1))" for X dt field v
      using D [of X dt field v] by (simp add: simulates_def upd_enc_rel may_delta_upd)
    moreover have "may_delta strict key (snd ((if X then delta key dt field v else skip_out) s'))"
      if "may_delta strict key s'" for X dt field v s'
      using that by (simp add: delta_post skip_out_def)
    ultimately have "simulates (client_step strict) client_rel (may_delta strict key)
        (bind_out (if \<not> SawDelta b then delta key ''thinking_delta'' ''thinking'' (responsesReasoningText item) else skip_out)
          (\<lambda>s1. (if ?e \<noteq> [] \<and> \<not> HasPrefix ?e redactedThinkingPrefix
                 then delta key ''signature_delta'' ''signature'' ?e else skip_out) (?u s1)))"
      by (intro simulates_bind [OF D]) blast+
    from simulatesD [OF this rel P] Some show ?thesis
      by (simp add: done_thinking_def Let_def del: firstNonEmptyString.simps)
  qed
qed

lemma done_tool_sim:
  "simulates (client_step strict) client_rel (may_delta strict key) (done_tool item key)"
  using delta_sim [of strict key] unfolding simulates_def done_tool_def
  by (auto split: option.split)

lemma done_body_sim:
  "simulates (client_step strict) client_rel (may_delta strict key) (done_body item key)"
  using done_tool_sim [of strict key item] done_thinking_sim [of strict key item]
  unfolding simulates_def done_body_def by (auto split: option.split)

lemma done_body_enter_sim:
  "simulates (client_step strict) client_rel (may_enter strict key) (done_body item key)"
proof (rule simulatesI)
  fix s c
  assume rel: "client_rel s c" and P: "may_enter strict key s"
  show "\<exists>c'. accepts (client_step strict) c (fst (done_body item key s)) = Some c' \<and>
      client_rel (snd (done_body item key s)) c'"
  proof (cases "map_of (Blocks s) key")
    case None
    with rel show ?thesis by (simp add: done_body_def)
  next
    case (Some b)
    with P have "may_delta strict key s" by (simp add: may_enter_def may_delta_def tame_key_def)
    then show ?thesis using simulatesD [OF done_body_sim rel] by blast
  qed
qed

lemma delta_state [simp]:
  "Started (snd (delta key dt field v s)) = Started s" "Stopped (snd (delta key dt field v s)) = Stopped s"
  "Started (snd (skip_out s)) = Started s" "Stopped (snd (skip_out s)) = Stopped s"
  by (simp_all add: delta_def skip_out_def split: option.split)

lemma done_body_live: "live strict (snd (done_body item key s)) = live strict s"
proof -
  have "live strict (snd ((if X then delta key dt field v else skip_out) s')) = live strict s'" for X dt field v s'
    by (simp add: live_def)
  moreover have "live strict (upd_block key f s') = live strict s'" for f s'
    by (simp add: live_def)
  ultimately have "live strict (snd (done_thinking item key s)) = live strict s"
    by (simp only: done_thinking_def Let_def snd_bind_out snd_conv split: option.split) blast
  moreover have "live strict (snd (done_tool item key s)) = live strict s"
    by (simp add: done_tool_def live_def split: option.split)
  ultimately show ?thesis by (simp add: done_body_def split: option.split)
qed

lemma done_enter_sim:
  "simulates (client_step strict) client_rel (may_enter strict (itemKey payload)) (done_enter payload)"
  using opener_sims [of "itemKey payload"]
  unfolding simulates_def done_enter_def Let_def by (simp split: if_split)

lemma done_enter_post:
  assumes "may_enter strict (itemKey payload) s"
  shows "may_enter strict (itemKey payload) (snd (done_enter payload s))"
proof -
  have "may_enter strict key s'" if "may_delta strict key s'" for key s'
    using that by (auto simp: may_delta_def may_enter_def tame_key_def)
  note this [OF opener_posts(2) [OF _ _ assms]] this [OF opener_posts(3) [OF _ _ assms]]
  then show ?thesis using assms by (simp add: done_enter_def Let_def)
qed

lemma item_done_sim:
  "simulates (client_step strict) client_rel (may_enter strict (itemKey payload)) (item_done payload)"
proof -
  have "live strict s" if "may_enter strict key s" for key s
    using that by (simp add: may_enter_def)
  then have tail: "simulates (client_step strict) client_rel (may_enter strict (itemKey payload))
      (bind_out (done_body item (itemKey payload)) (closeBlock (itemKey payload)))" for item
    by (intro simulates_bind [OF done_body_enter_sim close_sim]) (simp add: done_body_live)
  show ?thesis
    unfolding item_done_def by (rule simulates_bind [OF done_enter_sim tail]) (rule done_enter_post)
qed

definition event_ready :: "bool \<Rightarrow> string \<Rightarrow> obj \<Rightarrow> responsesClaudeStreamState \<Rightarrow> bool" where
  "event_ready strict event payload s \<longleftrightarrow>
     (HasPrefix event ''response.'' \<longrightarrow> live strict s) \<and>
     (strict \<longrightarrow> (case opens_key event payload of None \<Rightarrow> True | Some k \<Rightarrow> tame_key k s))"

lemma ready_enter:
  "simulates (client_step strict) client_rel (may_enter strict k) f \<Longrightarrow> opens_key event payload = Some k \<Longrightarrow>
   HasPrefix event ''response.'' \<Longrightarrow> simulates (client_step strict) client_rel (event_ready strict event payload) f"
  by (erule simulates_weaken) (simp add: event_ready_def may_enter_def)

lemma ready_close:
  "HasPrefix event ''response.'' \<Longrightarrow>
   simulates (client_step strict) client_rel (event_ready strict event payload) (closeBlock k)"
  by (rule simulates_weaken [OF close_sim]) (simp add: event_ready_def)

lemma body_event_prefix: "\<not> HasPrefix event ''response.'' \<Longrightarrow> body_event event payload = skip_out"
proof -
  assume no: "\<not> HasPrefix event ''response.''"
  have neq: "HasPrefix x ''response.'' \<Longrightarrow> event \<noteq> x" for x
    using no by blast
  have "event \<noteq> ''response.output_item.added''" "event \<noteq> ''response.content_part.added''"
    "event \<noteq> ''response.output_text.delta''" "event \<noteq> ''response.refusal.delta''"
    "event \<noteq> ''response.reasoning_summary_text.delta''" "event \<noteq> ''response.reasoning_text.delta''"
    "event \<noteq> ''response.function_call_arguments.delta''" "event \<noteq> ''response.custom_tool_call_input.delta''"
    "event \<noteq> ''response.content_part.done''" "event \<noteq> ''response.output_item.done''"
    by (rule neq, simp add: HasPrefix_def)+
  then show ?thesis by (simp only: body_event_def if_False simp_thms)
qed

lemma body_event_cases:
  "(body_event event payload = item_added payload \<and> opens_key event payload = Some (itemKey payload)) \<or>
   (body_event event payload = content_part_added payload \<and> opens_key event payload = Some (contentKey payload)) \<or>
   (body_event event payload = text_delta_event payload \<and> opens_key event payload = Some (contentKey payload)) \<or>
   (body_event event payload = reasoning_delta_event payload \<and> opens_key event payload = Some (itemKey payload)) \<or>
   (body_event event payload = arguments_delta_event payload \<and> opens_key event payload = Some (itemKey payload)) \<or>
   body_event event payload = closeBlock (contentKey payload) \<or>
   (body_event event payload = item_done payload \<and> opens_key event payload = Some (itemKey payload)) \<or>
   body_event event payload = skip_out"
  by (simp add: body_event_def opens_key_def)

lemma body_event_sim:
  "simulates (client_step strict) client_rel (event_ready strict event payload) (body_event event payload)"
proof (cases "body_event event payload = skip_out")
  case False
  with body_event_prefix have prefix: "HasPrefix event ''response.''" by blast
  from body_event_cases [of event payload] False show ?thesis
    by (elim disjE conjE)
      (simp_all add: ready_close [OF prefix] ready_enter [OF item_added_sim _ prefix]
        ready_enter [OF content_part_added_sim _ prefix] ready_enter [OF delta_events_sim(1) _ prefix]
        ready_enter [OF delta_events_sim(2) _ prefix] ready_enter [OF delta_events_sim(3) _ prefix]
        ready_enter [OF item_done_sim _ prefix])
qed (simp add: simulates_skip)

lemma claude_event_result:
  assumes "claude_event order (event, payload) s = (Inr out, s')"
  obtains (final) "event = ''response.completed'' \<or> event = ''response.incomplete''"
      "(out, s') = bind_out (start_if_needed event payload) (finish order (objectValue (fld payload ''response''))) s"
    | (body) "(out, s') = bind_out (start_if_needed event payload) (body_event event payload) s"
  using assms by (auto simp: claude_event_def Let_def split: option.splits prod.splits if_splits)

lemma claude_event_sim:
  assumes order: "permutes order" and rel: "client_rel s c" and ok: "strict \<longrightarrow> orderly s ep"
    and step: "claude_event order ep s = (Inr out, s')"
  shows "\<exists>c'. accepts (client_step strict) c out = Some c' \<and> client_rel s' c'"
proof -
  obtain event payload where ep: "ep = (event, payload)" by fastforce
  let ?start = "start_if_needed event payload"
  have ready: "event_ready strict event payload (snd (?start s))"
    using ok by (auto simp: event_ready_def live_def orderly_def ep start_if_needed_state split: option.splits)
  have body_sim: "simulates (client_step strict) client_rel (\<lambda>s'. s' = s) (bind_out ?start (body_event event payload))"
    by (rule simulates_bind [OF start_if_needed_sim body_event_sim]) (simp add: ready)
  have fin: "simulates (client_step strict) client_rel (\<lambda>s'. s' = s) (bind_out ?start (finish order response))"
    if "event = ''response.completed'' \<or> event = ''response.incomplete''" for response
    by (rule simulates_bind [OF start_if_needed_sim finish_sim [OF order]])
      (use that in \<open>auto simp: start_if_needed_state HasPrefix_def\<close>)
  from step [unfolded ep] show ?thesis
  proof (cases rule: claude_event_result)
    case final
    from simulatesD [OF fin [OF final(1)] rel refl] show ?thesis by (metis final(2) fst_conv snd_conv)
  next
    case body
    with simulatesD [OF body_sim rel refl] show ?thesis by (metis fst_conv snd_conv)
  qed
qed

end
