(* ===== verification/Claude_Stream_Facts.thy ===== *)
theory Claude_Stream_Facts
  imports Claude_Protocol
begin

text \<open>
  The properties of the Responses-to-Claude stream translator: the protocol of its output
  over whole runs, from the simulation of \<open>Claude_Protocol\<close> through the locale
  \<open>stream_simulation\<close>, and the fidelity of the text and of the tool arguments it relays.
\<close>

lemma claude_frame_sim:
  assumes "permutes order" "client_rel s c" "claude_frame order frame s = (Inr out, s')"
  shows "\<exists>c'. accepts (client_step False) c out = Some c' \<and> client_rel s' c'"
proof -
  from assms(3) consider "out = []" "s' = s" | ep where "claude_event order ep s = (Inr out, s')"
    by (fastforce simp: claude_frame_def split: sum.splits prod.splits if_splits option.splits)
  then show ?thesis
  proof cases
    case 1
    with assms(2) show ?thesis by simp
  next
    case 2
    with claude_event_sim [OF assms(1,2) _ 2, of False] show ?thesis by blast
  qed
qed

text \<open>The one-step simulations lifted to runs, on decoded events and on frames.\<close>

interpretation events: stream_simulation "client_step strict" "claude_event order" client_rel
    "\<lambda>s ep. permutes order \<and> (strict \<longrightarrow> orderly s ep)" for strict order
  by unfold_locales (use claude_event_sim in blast)

interpretation frames: stream_simulation "client_step False" "claude_frame order" client_rel
    "\<lambda>s frame. permutes order" for order
  by unfold_locales (use claude_frame_sim in blast)

lemma run_all_const: "P \<Longrightarrow> run_all (\<lambda>s i. P) handle s is"
  by (induction "is" arbitrary: s) (auto split: sum.splits prod.splits)

lemma run_all_conj: "P \<Longrightarrow> run_all ok handle s is \<Longrightarrow> run_all (\<lambda>s i. P \<and> (Q \<longrightarrow> ok s i)) handle s is"
  by (induction "is" arbitrary: s) (auto split: sum.splits prod.splits)

text \<open>The reader of a run, and what it has seen when the run ended with \<open>[DONE]\<close>.\<close>

lemma claude_run_reader:
  assumes "permutes order" "run_stream (claude_frame order) (new_claude_stream model) frames = (outs, e, s)"
  shows "\<exists>c. accepts (client_step False) client0 outs = Some c \<and> (e = None \<longrightarrow> client_rel s c)"
  by (rule frames.run_sim [OF client_rel_init run_all_const [OF assms(1)] assms(2)])

lemma claude_run_done:
  assumes "parseSSEFrame last_frame = Inr (event, data, True)"
    and "run_stream (claude_frame order) s0 (frames @ [last_frame]) = (outs, None, s)"
  shows "Stopped s"
  using assms by (auto simp: run_stream_snoc claude_frame_def split: prod.splits option.splits if_splits sum.splits)

text \<open>C10: when the upstream keeps its own order (each event writes to a block that is new or open,
  nothing follows the terminal event), the stream is strict: indices are consecutive, every
  delta lies between the start and the stop of its block, nothing follows \<open>message_stop\<close>.\<close>

theorem claude_stream_strict:
  assumes "permutes order" "run_all orderly (claude_event order) (new_claude_stream model) events"
  shows "accepts (client_step True) client0
           (fst (run_stream (claude_event order) (new_claude_stream model) events)) \<noteq> None"
  by (rule events.run_accepted [OF client_rel_init run_all_conj [OF assms, of True]])

text \<open>A stream that ends with the frame \<open>[DONE]\<close> without an error was finished: the client has
  seen \<open>message_stop\<close>. An upstream that breaks off early is reported as an error.\<close>

theorem claude_stream_done:
  assumes "permutes order" "parseSSEFrame last_frame = Inr (event, data, True)"
    and "fst (snd (run_stream (claude_frame order) (new_claude_stream model) (frames @ [last_frame]))) = None"
  shows "\<exists>c. accepts (client_step False) client0
           (fst (run_stream (claude_frame order) (new_claude_stream model) (frames @ [last_frame]))) = Some c \<and>
         cl_stopped c"
proof -
  obtain outs s where r: "run_stream (claude_frame order) (new_claude_stream model) (frames @ [last_frame]) = (outs, None, s)"
    using assms(3) by (metis prod.collapse)
  with claude_run_reader [OF assms(1) r] claude_run_done [OF assms(2) r] show ?thesis
    by (auto simp: client_rel_def)
qed

subsection \<open>Text\<close>

text \<open>The text a client adds to its message for a frame, and the text an upstream event carries.\<close>

definition text_of :: "sse \<Rightarrow> string" where
  "text_of f =
     (if fst f = ''content_block_delta''
      then rawStringValue (fld (objectValue (fld (snd f) ''delta'')) ''text'') else [])"

definition text_in :: "string \<times> obj \<Rightarrow> string" where
  "text_in ep =
     (let (event, payload) = ep; part = objectValue (fld payload ''part'')
      in if event = ''response.output_text.delta'' \<or> event = ''response.refusal.delta''
         then rawStringValue (fld payload ''delta'')
         else if event = ''response.content_part.added'' \<and>
           stringValue (fld part ''type'') \<in> {''output_text'', ''text'', ''refusal''}
         then firstRawString part [''text'', ''refusal''] else [])"

definition texts :: "sse list \<Rightarrow> string" where
  "texts out = concat (map text_of out)"

lemma texts_simps [frame_simps]:
  "texts [] = []" "texts (f # out) = text_of f @ texts out" "texts (out @ out') = texts out @ texts out'"
  by (simp_all add: texts_def)

lemma text_of_frames [frame_simps]:
  "text_of (start_frame m) = []" "text_of (block_start i content) = []" "text_of (block_stop i) = []"
  "text_of (message_delta reason usage) = []" "text_of message_stop = []"
  "text_of (block_delta i ''text_delta'' ''text'' v) = v"
  "text_of (block_delta i ''thinking_delta'' ''thinking'' v) = []"
  "text_of (block_delta i ''signature_delta'' ''signature'' v) = []"
  "text_of (block_delta i ''input_json_delta'' ''partial_json'' v) = []"
  by (simp_all add: text_of_def start_frame_def block_start_def block_stop_def message_delta_def
      message_stop_def block_delta_def fld_mk_obj_Cons)

lemma texts_ops [frame_simps]:
  "texts (fst (start_if_needed event payload s)) = []"
  "texts (fst (open_with content key s)) = []"
  "texts (fst (closeBlock key s)) = []"
  "texts (fst (skip_out s)) = []"
  "texts (fst (delta key ''thinking_delta'' ''thinking'' v s)) = []"
  "texts (fst (delta key ''signature_delta'' ''signature'' v s)) = []"
  "texts (fst (delta key ''input_json_delta'' ''partial_json'' v s)) = []"
  by (simp_all add: start_if_needed_def start_def open_with_def closeBlock_def skip_out_def delta_def Let_def
      frame_simps split: option.split)

lemma texts_enter [frame_simps]:
  "texts (fst (enter key kind f openText s)) = []"
  "texts (fst (enter key kind f openThinking s)) = []"
  "texts (fst (enter key kind f openTool s)) = []"
  by (simp_all add: enter_def openText_def openThinking_def openTool_def frame_simps split: prod.split)

lemma texts_close_all [frame_simps]: "texts (fst (close_all ks s)) = []"
  by (induction ks arbitrary: s) (simp_all add: fst_bind_out frame_simps)

lemma texts_finish [frame_simps]: "texts (fst (finish order response s)) = []"
  using texts_close_all [of "order (map fst (Blocks s))" s]
  by (simp add: finish_def Let_def split_beta frame_simps)

lemma enter_has_block:
  "key \<noteq> [] \<Longrightarrow> map_of (Blocks (snd (enter key kind f openText s))) key \<noteq> None"
  by (simp add: enter_def block_cases openText_def open_with_def split: option.split)

lemma texts_delta: "map_of (Blocks s) key \<noteq> None \<Longrightarrow> texts (fst (delta key ''text_delta'' ''text'' v s)) = v"
  by (auto simp: delta_def frame_simps)

lemma texts_done_body [frame_simps]: "texts (fst (done_body item key s)) = []"
proof -
  have "texts (fst (done_thinking item key s)) = []"
    by (simp add: done_thinking_def Let_def fst_bind_out frame_simps split: option.split)
  moreover have "texts (fst (done_tool item key s)) = []"
    by (simp add: done_tool_def frame_simps split: option.split)
  ultimately show ?thesis by (simp add: done_body_def frame_simps split: option.split)
qed

lemma texts_done_enter [frame_simps]: "texts (fst (done_enter payload s)) = []"
  by (simp add: done_enter_def Let_def frame_simps)

lemma texts_text_delta: "texts (fst (text_delta_event payload s)) = rawStringValue (fld payload ''delta'')"
  using enter_has_block [of "contentKey payload"]
  by (simp add: text_delta_event_def fst_bind_out frame_simps texts_delta)

lemma texts_part_added:
  "texts (fst (content_part_added payload s)) =
     (let part = objectValue (fld payload ''part'')
      in if stringValue (fld part ''type'') \<in> {''output_text'', ''text'', ''refusal''}
         then firstRawString part [''text'', ''refusal''] else [])"
  using enter_has_block [of "contentKey payload"]
  by (simp add: content_part_added_def Let_def fst_bind_out frame_simps texts_delta
      del: firstRawString.simps)

lemma texts_other_events [frame_simps]:
  "texts (fst (item_added payload s)) = []" "texts (fst (reasoning_delta_event payload s)) = []"
  "texts (fst (arguments_delta_event payload s)) = []" "texts (fst (item_done payload s)) = []"
  by (simp_all add: item_added_def reasoning_delta_event_def arguments_delta_event_def item_done_def Let_def
      fst_bind_out frame_simps)

lemma texts_body_event: "texts (fst (body_event event payload s)) = text_in (event, payload)"
  by (simp add: body_event_def text_in_def texts_text_delta texts_part_added frame_simps Let_def
      del: firstRawString.simps)

lemma texts_claude_event:
  assumes "claude_event order (event, payload) s = (Inr out, s')"
  shows "texts out = text_in (event, payload)"
  using assms
proof (cases rule: claude_event_result)
  case final
  then have "out = fst (bind_out (start_if_needed event payload) (finish order (objectValue (fld payload ''response''))) s)"
    by (metis fst_conv)
  moreover have "text_in (event, payload) = []" using final(1) by (auto simp: text_in_def)
  ultimately show ?thesis by (simp add: fst_bind_out frame_simps)
next
  case body
  then have "out = fst (bind_out (start_if_needed event payload) (body_event event payload) s)" by (metis fst_conv)
  then show ?thesis by (simp add: fst_bind_out frame_simps texts_body_event)
qed

text \<open>No text is lost, repeated or reordered: the text deltas of the Claude stream, put
  together, are the text the upstream events carried, put together.\<close>

theorem claude_stream_text:
  assumes "fst (snd (run_stream (claude_event order) s events)) = None"
  shows "texts (fst (run_stream (claude_event order) s events)) = concat (map text_in events)"
  unfolding texts_def
  by (rule run_collect [OF _ assms]) (metis prod.collapse texts_claude_event texts_def)

subsection \<open>Tool calls\<close>

definition args_delta :: "nat \<Rightarrow> string \<Rightarrow> sse list" where
  "args_delta i d = (if d = [] then [] else [block_delta i ''input_json_delta'' ''partial_json'' d])"

definition is_args_event :: "string \<Rightarrow> bool" where
  "is_args_event event \<longleftrightarrow>
     event = ''response.function_call_arguments.delta'' \<or> event = ''response.custom_tool_call_input.delta''"

text \<open>An open tool block between the events of its item.\<close>

definition tool_open :: "string \<Rightarrow> nat \<Rightarrow> bool \<Rightarrow> responsesClaudeStreamState \<Rightarrow> bool" where
  "tool_open key i saw s \<longleftrightarrow>
     Started s \<and> (\<exists>b. map_of (Blocks s) key = Some b \<and> Open b \<and> Kind b = ''tool_use'' \<and> Index b = i \<and> SawDelta b = saw)"

lemma start_if_started [simp]: "Started s \<Longrightarrow> start_if_needed event payload s = ([], s)"
  by (simp add: start_if_needed_def)

lemma enter_open:
  assumes "map_of (Blocks s) key = Some b" "Open b" "\<And>b. Open (f b) = Open b" "key \<noteq> []"
  shows "enter key kind f (open_with content) s = ([], upd_block key f s)"
  using assms by (simp add: enter_def block_cases open_with_def)

lemma tool_delta_step:
  assumes "tool_open (itemKey payload) i saw s"
  shows "\<exists>s'. arguments_delta_event payload s = (args_delta i (rawStringValue (fld payload ''delta'')), s') \<and>
    tool_open (itemKey payload) i (saw \<or> rawStringValue (fld payload ''delta'') \<noteq> []) s'"
proof -
  obtain b where b: "map_of (Blocks s) (itemKey payload) = Some b" "Open b" "Kind b = ''tool_use''" "Index b = i"
    "SawDelta b = saw" and started: "Started s"
    using assms by (auto simp: tool_open_def)
  have enter: "enter (itemKey payload) ''tool_use'' (fill_function payload) openTool s =
      ([], upd_block (itemKey payload) (fill_function payload) s)"
    unfolding openTool_def by (rule enter_open [OF b(1,2)]) simp_all
  show ?thesis
    using b started
    by (simp add: arguments_delta_event_def bind_out_def enter delta_def args_delta_def tool_open_def fill_function_def)
qed

lemma body_event_args: "is_args_event event \<Longrightarrow> body_event event payload = arguments_delta_event payload"
  by (auto simp: is_args_event_def body_event_def)

lemma claude_event_body:
  "event \<notin> {''error'', ''response.failed'', ''response.completed'', ''response.incomplete''} \<Longrightarrow> Started s \<Longrightarrow>
   claude_event order (event, payload) s = (let (out, s') = body_event event payload s in (Inr out, s'))"
  by (simp add: claude_event_def Let_def bind_out_def split: prod.split)

lemma tool_deltas_run:
  assumes "tool_open key i saw s"
    and "\<forall>ep \<in> set events. is_args_event (fst ep) \<and> itemKey (snd ep) = key"
  shows "\<exists>s'. run_stream (claude_event order) s events =
      (concat (map (\<lambda>ep. args_delta i (rawStringValue (fld (snd ep) ''delta''))) events), None, s') \<and>
    tool_open key i (saw \<or> (\<exists>ep \<in> set events. rawStringValue (fld (snd ep) ''delta'') \<noteq> [])) s'"
  using assms
proof (induction events arbitrary: s saw)
  case (Cons ep events)
  obtain event payload where ep: "ep = (event, payload)" by fastforce
  have key: "itemKey payload = key" and ev: "is_args_event event" using Cons.prems(2) ep by auto
  obtain s1 where s1: "arguments_delta_event payload s = (args_delta i (rawStringValue (fld payload ''delta'')), s1)"
    "tool_open key i (saw \<or> rawStringValue (fld payload ''delta'') \<noteq> []) s1"
    using tool_delta_step [of payload i saw s] Cons.prems(1) key by auto
  have "claude_event order ep s = (Inr (args_delta i (rawStringValue (fld payload ''delta''))), s1)"
    using ev Cons.prems(1) s1(1)
    by (simp add: ep claude_event_body body_event_args) (auto simp: is_args_event_def tool_open_def claude_event_body body_event_args)
  with Cons.IH [OF s1(2)] Cons.prems(2) show ?case
    by (auto simp: ep disj_assoc)
qed auto

lemma tool_added_step:
  assumes "Started s" "map_of (Blocks s) (itemKey payload) = None"
    and "stringValue (fld (objectValue (fld payload ''item'')) ''type'') \<in> {''function_call'', ''custom_tool_call''}"
  shows "\<exists>s'. claude_event order (''response.output_item.added'', payload) s =
      (Inr [block_start (NextBlock s) (mk_obj [(''type'', JStr ''tool_use''),
         (''id'', JStr (firstString (objectValue (fld payload ''item'')) [''call_id'', ''id''])),
         (''name'', JStr (stringValue (fld (objectValue (fld payload ''item'')) ''name''))), (''input'', JObj [])])], s') \<and>
    tool_open (itemKey payload) (NextBlock s) False s'"
proof -
  have body: "body_event ''response.output_item.added'' payload =
      enter (itemKey payload) ''tool_use'' (set_function (objectValue (fld payload ''item''))) openTool"
    using assms(3) by (auto simp: body_event_def item_added_def Let_def)
  show ?thesis
    using assms(1,2)
    by (simp add: claude_event_body body enter_def block_cases openTool_def open_with_def fresh_block_def
        set_function_def tool_open_def del: firstString.simps)
qed

lemma tool_done_step:
  assumes "tool_open (itemKey payload) i saw s"
  shows "\<exists>s'. claude_event order (''response.output_item.done'', payload) s =
      (Inr ((if saw then [] else args_delta i (firstRawString (objectValue (fld payload ''item'')) [''arguments'', ''input'']))
        @ [block_stop i]), s')"
proof -
  obtain b where b: "map_of (Blocks s) (itemKey payload) = Some b" "Open b" "Kind b = ''tool_use''" "Index b = i"
    "SawDelta b = saw" and started: "Started s"
    using assms by (auto simp: tool_open_def)
  have body: "body_event ''response.output_item.done'' payload = item_done payload"
    by (simp add: body_event_def)
  show ?thesis
    using b started
    by (simp add: claude_event_body body item_done_def bind_out_def done_enter_def done_body_def done_tool_def
        delta_def closeBlock_def args_delta_def Let_def del: firstRawString.simps)
qed

definition delta_parts :: "(string \<times> obj) list \<Rightarrow> string list" where
  "delta_parts deltas = map (\<lambda>ep. rawStringValue (fld (snd ep) ''delta'')) deltas"

text \<open>C11: a tool call reaches the client exactly once. For an item announced, followed by argument
  deltas and done, the Claude stream is one start with the call id and name, the deltas in
  order (or, when there were none, the whole arguments of the \<open>done\<close> event), and one stop.\<close>

theorem claude_stream_tool_call:
  assumes "Started s" "map_of (Blocks s) (itemKey p) = None"
    and "stringValue (fld (objectValue (fld p ''item'')) ''type'') \<in> {''function_call'', ''custom_tool_call''}"
    and "\<forall>ep \<in> set deltas. is_args_event (fst ep) \<and> itemKey (snd ep) = itemKey p"
    and "itemKey q = itemKey p"
  shows "\<exists>s'. run_stream (claude_event order) s
      ((''response.output_item.added'', p) # deltas @ [(''response.output_item.done'', q)]) =
    (block_start (NextBlock s) (mk_obj [(''type'', JStr ''tool_use''),
         (''id'', JStr (firstString (objectValue (fld p ''item'')) [''call_id'', ''id''])),
         (''name'', JStr (stringValue (fld (objectValue (fld p ''item'')) ''name''))), (''input'', JObj [])])
      # concat (map (args_delta (NextBlock s))
          (if concat (delta_parts deltas) = [] then [firstRawString (objectValue (fld q ''item'')) [''arguments'', ''input'']]
           else delta_parts deltas))
      @ [block_stop (NextBlock s)], None, s')"
proof -
  let ?parts = "delta_parts deltas"
  obtain s1 where s1: "claude_event order (''response.output_item.added'', p) s =
      (Inr [block_start (NextBlock s) (mk_obj [(''type'', JStr ''tool_use''),
         (''id'', JStr (firstString (objectValue (fld p ''item'')) [''call_id'', ''id''])),
         (''name'', JStr (stringValue (fld (objectValue (fld p ''item'')) ''name''))), (''input'', JObj [])])], s1)"
    "tool_open (itemKey p) (NextBlock s) False s1"
    using tool_added_step [OF assms(1-3)] by blast
  obtain s2 where s2: "run_stream (claude_event order) s1 deltas =
      (concat (map (args_delta (NextBlock s)) ?parts), None, s2)"
    "tool_open (itemKey q) (NextBlock s) (concat ?parts \<noteq> []) s2"
    using tool_deltas_run [OF s1(2) assms(4), of order] assms(5)
    by (auto simp: delta_parts_def comp_def)
  obtain s3 where s3: "claude_event order (''response.output_item.done'', q) s2 =
      (Inr ((if concat ?parts \<noteq> [] then [] else
         args_delta (NextBlock s) (firstRawString (objectValue (fld q ''item'')) [''arguments'', ''input'']))
        @ [block_stop (NextBlock s)]), s3)"
    using tool_done_step [OF s2(2)] by blast
  have "concat (map (args_delta (NextBlock s)) ?parts) = []" if "concat ?parts = []"
    using that by (simp add: args_delta_def)
  with s1 s2 s3 show ?thesis
    by (simp add: run_stream_snoc del: firstRawString.simps firstString.simps)
qed

subsection \<open>A sample stream\<close>

definition ev :: "string \<Rightarrow> (string \<times> json) list \<Rightarrow> string \<times> obj" where
  "ev event kvs = (event, mk_obj kvs)"

definition sample_events :: "(string \<times> obj) list" where
  "sample_events =
     [ev ''response.created'' [(''response'', JObj (mk_obj [(''id'', JStr ''r1''), (''model'', JStr ''gpt'')]))],
      ev ''response.output_item.added'' [(''output_index'', JNum ''0''),
        (''item'', JObj (mk_obj [(''type'', JStr ''reasoning''), (''id'', JStr ''rs'')]))],
      ev ''response.reasoning_summary_text.delta'' [(''output_index'', JNum ''0''), (''delta'', JStr ''thought'')],
      ev ''response.output_item.done'' [(''output_index'', JNum ''0''),
        (''item'', JObj (mk_obj [(''type'', JStr ''reasoning''), (''encrypted_content'', JStr ''sig'')]))],
      ev ''response.content_part.added'' [(''output_index'', JNum ''1''), (''content_index'', JNum ''0''),
        (''part'', JObj (mk_obj [(''type'', JStr ''output_text''), (''text'', JStr [])]))],
      ev ''response.output_text.delta'' [(''output_index'', JNum ''1''), (''content_index'', JNum ''0''),
        (''delta'', JStr '' Hello'')],
      ev ''response.output_text.delta'' [(''output_index'', JNum ''1''), (''content_index'', JNum ''0''),
        (''delta'', JStr '' world'')],
      ev ''response.content_part.done'' [(''output_index'', JNum ''1''), (''content_index'', JNum ''0'')],
      ev ''response.output_item.added'' [(''output_index'', JNum ''2''),
        (''item'', JObj (mk_obj [(''type'', JStr ''function_call''), (''call_id'', JStr ''c1''), (''name'', JStr ''run'')]))],
      ev ''response.function_call_arguments.delta'' [(''output_index'', JNum ''2''), (''delta'', JStr ''{}'')],
      ev ''response.output_item.done'' [(''output_index'', JNum ''2''),
        (''item'', JObj (mk_obj [(''type'', JStr ''function_call''), (''arguments'', JStr ''{}'')]))],
      ev ''response.completed'' [(''response'', JObj (mk_obj [(''status'', JStr ''completed'')]))]]"

lemma sample_orderly: "run_all orderly (claude_event rev) (new_claude_stream ''m'') sample_events"
  by code_simp

lemma sample_no_error: "fst (snd (run_stream (claude_event rev) (new_claude_stream ''m'') sample_events)) = None"
  by code_simp

lemma permutes_rev: "permutes rev"
  by (simp add: permutes_def)

theorem claude_stream_strict_witness:
  "accepts (client_step True) client0
     (fst (run_stream (claude_event rev) (new_claude_stream ''m'') sample_events)) \<noteq> None"
  by (rule claude_stream_strict [OF permutes_rev sample_orderly])

theorem claude_stream_text_witness:
  "texts (fst (run_stream (claude_event rev) (new_claude_stream ''m'') sample_events)) = concat (map text_in sample_events)"
  by (rule claude_stream_text [OF sample_no_error])

definition done_frame :: string where
  "done_frame = ''data: [DONE]'' @ lf @ lf"

definition sample_frames :: "string list" where
  \<open>sample_frames = [''data: {"type":"response.completed","response":{"id":"r1"}}'']\<close>

lemma sample_done_frame: "parseSSEFrame done_frame = Inr ([], None, True)"
  by code_simp

lemma sample_frames_ok:
  "fst (snd (run_stream (claude_frame rev) (new_claude_stream ''m'') (sample_frames @ [done_frame]))) = None"
  by code_simp

theorem claude_stream_done_witness:
  "\<exists>c. accepts (client_step False) client0
     (fst (run_stream (claude_frame rev) (new_claude_stream ''m'') (sample_frames @ [done_frame]))) = Some c \<and> cl_stopped c"
  by (rule claude_stream_done [OF permutes_rev sample_done_frame sample_frames_ok])

definition sample_call :: "obj" where
  "sample_call = mk_obj [(''output_index'', JNum ''0''),
     (''item'', JObj (mk_obj [(''type'', JStr ''function_call''), (''call_id'', JStr ''c1''), (''name'', JStr ''run'')]))]"

definition sample_call_done :: "obj" where
  "sample_call_done = mk_obj [(''output_index'', JNum ''0''),
     (''item'', JObj (mk_obj [(''type'', JStr ''function_call''), (''arguments'', JStr ''{}'')]))]"

definition started_stream :: responsesClaudeStreamState where
  "started_stream = (new_claude_stream ''m'')\<lparr>Started := True\<rparr>"

theorem claude_stream_tool_call_witness:
  "fst (run_stream (claude_event rev) started_stream
     [(''response.output_item.added'', sample_call), (''response.output_item.done'', sample_call_done)]) =
   [block_start 0 (mk_obj [(''type'', JStr ''tool_use''), (''id'', JStr ''c1''), (''name'', JStr ''run''), (''input'', JObj [])]),
    block_delta 0 ''input_json_delta'' ''partial_json'' ''{}'', block_stop 0]"
proof -
  have "Started started_stream" "map_of (Blocks started_stream) (itemKey sample_call) = None"
    "stringValue (fld (objectValue (fld sample_call ''item'')) ''type'') \<in> {''function_call'', ''custom_tool_call''}"
    "\<forall>ep \<in> set []. is_args_event (fst ep) \<and> itemKey (snd ep) = itemKey sample_call"
    "itemKey sample_call_done = itemKey sample_call"
    by code_simp+
  from claude_stream_tool_call [OF this, of rev] 
  have "fst (run_stream (claude_event rev) started_stream
     [(''response.output_item.added'', sample_call), (''response.output_item.done'', sample_call_done)]) =
    block_start (NextBlock started_stream) (mk_obj [(''type'', JStr ''tool_use''),
      (''id'', JStr (firstString (objectValue (fld sample_call ''item'')) [''call_id'', ''id''])),
      (''name'', JStr (stringValue (fld (objectValue (fld sample_call ''item'')) ''name''))), (''input'', JObj [])])
    # args_delta (NextBlock started_stream) (firstRawString (objectValue (fld sample_call_done ''item'')) [''arguments'', ''input''])
    @ [block_stop (NextBlock started_stream)]"
    by (auto simp: delta_parts_def simp del: firstRawString.simps firstString.simps)
  moreover have "NextBlock started_stream = 0"
    "firstString (objectValue (fld sample_call ''item'')) [''call_id'', ''id''] = ''c1''"
    "stringValue (fld (objectValue (fld sample_call ''item'')) ''name'') = ''run''"
    "firstRawString (objectValue (fld sample_call_done ''item'')) [''arguments'', ''input''] = ''{}''"
    by code_simp+
  ultimately show ?thesis by (simp only: args_delta_def) simp
qed

end
