(* ===== verification/OpenAI_Response.thy ===== *)
theory OpenAI_Response
  imports Sse_Frame Responses_Claude
begin

text \<open>
  Chat Completions side of the translation (\<open>internal/translate/openai_responses.go\<close>): finished
  Responses and Claude responses as \<open>chat.completion\<close> objects, stream chunks, finish reasons
  and usage. Token sums are 64-bit Go integers. The request direction goes through the
  official translator registry, which is a parameter.
\<close>

subsection \<open>Requests\<close>

fun first_present :: "obj \<Rightarrow> string list \<Rightarrow> json option" where
  "first_present root [] = None"
| "first_present root (k # ks) =
     (case map_of root k of
        Some v \<Rightarrow> if v \<noteq> JNull then Some v else first_present root ks
      | None \<Rightarrow> first_present root ks)"

definition openAIOutputTokenCeiling :: "string \<Rightarrow> json option" where
  "openAIOutputTokenCeiling body =
     (case decodeObject body of
        Inl e \<Rightarrow> None
      | Inr root \<Rightarrow> first_present root [''max_completion_tokens'', ''max_tokens'', ''max_output_tokens''])"

text \<open>\<open>to_claude\<close> is the registry's request translation from Chat Completions to Claude,
  \<open>fo\<close> and \<open>fc\<close> are the names of the two formats.\<close>

definition openAIRequestToResponses ::
  "string \<Rightarrow> string \<Rightarrow> (string \<Rightarrow> string \<Rightarrow> bool \<Rightarrow> string) \<Rightarrow> string \<Rightarrow> string \<Rightarrow> bool \<Rightarrow> string res" where
  "openAIRequestToResponses fo fc to_claude model body stream =
     (let intermediate = to_claude model body stream
      in if intermediate = [] \<or> \<not> Valid intermediate
         then Inl (ErrorText (''official request translation from '' @ fo @ '' to '' @ fc @ '' failed''))
         else
           (case decodeObject intermediate of
              Inl e \<Rightarrow> Inl (Wrap ''decode intermediate Claude request: '' e)
            | Inr root \<Rightarrow>
                (let root1 = obj_delete ''metadata'' root;
                     root2 = (case openAIOutputTokenCeiling body of
                                Some ceiling \<Rightarrow> obj_put ''max_tokens'' ceiling root1
                              | None \<Rightarrow> obj_delete ''max_tokens'' root1)
                 in claudeRequestToResponses model (encode (JObj root2)) stream)))"

subsection \<open>Finish reasons and usage\<close>

definition responsesFinishReason :: "obj \<Rightarrow> bool \<Rightarrow> string" where
  "responsesFinishReason root hasToolCalls =
     (let reason = ToLower (stringValue (fld (objectValue (fld root ''incomplete_details'')) ''reason''))
      in if reason = ''max_output_tokens'' \<or> reason = ''max_tokens'' then ''length''
         else if reason = ''content_filter'' then ''content_filter''
         else if hasToolCalls then ''tool_calls'' else ''stop'')"

definition claudeFinishReason :: "string \<Rightarrow> bool \<Rightarrow> string" where
  "claudeFinishReason stopReason hasToolCalls =
     (let reason = ToLower stopReason
      in if reason = ''max_tokens'' then ''length''
         else if reason = ''refusal'' then ''content_filter''
         else if reason = ''tool_use'' then ''tool_calls''
         else if hasToolCalls then ''tool_calls'' else ''stop'')"

definition responsesUsageToOpenAI :: "obj \<Rightarrow> obj" where
  "responsesUsageToOpenAI usage =
     (let out0 = mk_obj [(''prompt_tokens'', numberValue (fld usage ''input_tokens'')),
                         (''completion_tokens'', numberValue (fld usage ''output_tokens''))];
          out1 = obj_put ''total_tokens''
            (case map_of usage ''total_tokens'' of
               Some t \<Rightarrow> numberValue t
             | None \<Rightarrow> int64_json (int64Value (fld usage ''input_tokens'') + int64Value (fld usage ''output_tokens''))) out0;
          out2 = (case map_of (objectValue (fld usage ''input_tokens_details'')) ''cached_tokens'' of
               Some cached \<Rightarrow> obj_put ''prompt_tokens_details'' (JObj (mk_obj [(''cached_tokens'', numberValue cached)])) out1
             | None \<Rightarrow> out1)
      in (case map_of (objectValue (fld usage ''output_tokens_details'')) ''reasoning_tokens'' of
            Some r \<Rightarrow> obj_put ''completion_tokens_details'' (JObj (mk_obj [(''reasoning_tokens'', numberValue r)])) out2
          | None \<Rightarrow> out2))"

subsection \<open>Finished responses\<close>

text \<open>The variables of the loops: text, reasoning, refusal and tool calls collected so far.\<close>

record openai_parts =
  op_text :: string
  op_reasoning :: string
  op_refusal :: string
  op_tools :: "json list"

definition no_parts :: openai_parts where
  "no_parts = \<lparr>op_text = [], op_reasoning = [], op_refusal = [], op_tools = []\<rparr>"

definition tool_call :: "string \<Rightarrow> string \<Rightarrow> string \<Rightarrow> json" where
  "tool_call cid name arguments =
     JObj (mk_obj [(''id'', JStr cid), (''type'', JStr ''function''),
       (''function'', JObj (mk_obj [(''name'', JStr name), (''arguments'', JStr arguments)]))])"

definition collect_part :: "json \<Rightarrow> openai_parts \<Rightarrow> openai_parts" where
  "collect_part rawPart acc =
     (case as_object rawPart of
        None \<Rightarrow> acc
      | Some part \<Rightarrow>
          (let t = stringValue (fld part ''type'')
           in if t = ''output_text'' \<or> t = ''text'' then acc\<lparr>op_text := op_text acc @ rawStringValue (fld part ''text'')\<rparr>
              else if t = ''refusal'' then acc\<lparr>op_refusal := op_refusal acc @ rawStringValue (fld part ''refusal'')\<rparr>
              else acc))"

definition collect_item :: "json \<Rightarrow> openai_parts \<Rightarrow> openai_parts" where
  "collect_item rawItem acc =
     (case as_object rawItem of
        None \<Rightarrow> acc
      | Some item \<Rightarrow>
          (let t = stringValue (fld item ''type'')
           in if t = ''message'' then fold collect_part (arrayValue (fld item ''content'')) acc
              else if t = ''reasoning'' then acc\<lparr>op_reasoning := op_reasoning acc @ responsesReasoningText item\<rparr>
              else if t = ''function_call'' \<or> t = ''custom_tool_call'' then
                acc\<lparr>op_tools := op_tools acc @ [tool_call (firstString item [''call_id'', ''id''])
                  (stringValue (fld item ''name'')) (firstRawString item [''arguments'', ''input''])]\<rparr>
              else acc))"

definition collect_block :: "json \<Rightarrow> openai_parts \<Rightarrow> openai_parts" where
  "collect_block rawBlock acc =
     (case as_object rawBlock of
        None \<Rightarrow> acc
      | Some block \<Rightarrow>
          (let t = stringValue (fld block ''type'')
           in if t = ''text'' then acc\<lparr>op_text := op_text acc @ rawStringValue (fld block ''text'')\<rparr>
              else if t = ''thinking'' then acc\<lparr>op_reasoning := op_reasoning acc @ rawStringValue (fld block ''thinking'')\<rparr>
              else if t = ''tool_use'' \<or> t = ''server_tool_use'' then
                acc\<lparr>op_tools := op_tools acc @ [tool_call (firstString block [''id'', ''tool_use_id''])
                  (stringValue (fld block ''name'')) (encode (JObj (objectValue (fld block ''input''))))]\<rparr>
              else acc))"

definition openai_message :: "openai_parts \<Rightarrow> obj" where
  "openai_message acc =
     (let m0 = mk_obj [(''role'', JStr ''assistant''),
            (''content'', if op_text acc = [] \<and> op_tools acc \<noteq> [] then JNull else JStr (op_text acc))];
          m1 = (if op_reasoning acc \<noteq> [] then obj_put ''reasoning_content'' (JStr (op_reasoning acc)) m0 else m0);
          m2 = (if op_refusal acc \<noteq> [] then obj_put ''refusal'' (JStr (op_refusal acc)) m1 else m1)
      in if op_tools acc \<noteq> [] then obj_put ''tool_calls'' (JArr (op_tools acc)) m2 else m2)"

definition completion :: "string \<Rightarrow> json \<Rightarrow> string \<Rightarrow> obj \<Rightarrow> string \<Rightarrow> obj \<Rightarrow> obj" where
  "completion cid created model message reason usage =
     mk_obj [(''id'', JStr cid), (''object'', JStr ''chat.completion''), (''created'', created), (''model'', JStr model),
       (''choices'', JArr [JObj (mk_obj [(''index'', JNum ''0''), (''message'', JObj message),
          (''finish_reason'', JStr reason)])]),
       (''usage'', JObj usage)]"

definition responsesOpenAI_obj :: "string \<Rightarrow> obj \<Rightarrow> obj res" where
  "responsesOpenAI_obj model root =
     (case responsesFailure root of
        Some e \<Rightarrow> Inl e
      | None \<Rightarrow>
          (let acc = fold collect_item (arrayValue (fld root ''output'')) no_parts
           in Inr (completion (firstNonEmptyString [stringValue (fld root ''id''), ''chatcmpl-copilot''])
                (numberValue (fld root ''created_at''))
                (firstNonEmptyString [stringValue (fld root ''model''), model])
                (openai_message acc) (responsesFinishReason root (op_tools acc \<noteq> []))
                (responsesUsageToOpenAI (objectValue (fld root ''usage''))))))"

definition responsesResponseToOpenAI :: "string \<Rightarrow> string \<Rightarrow> string res" where
  "responsesResponseToOpenAI model body =
     (case decodeObject body of
        Inl e \<Rightarrow> Inl (Wrap ''decode Responses response: '' e)
      | Inr root \<Rightarrow> (case responsesOpenAI_obj model root of Inl e \<Rightarrow> Inl e | Inr out \<Rightarrow> Inr (encode (JObj out))))"

definition claudeOpenAI_obj :: "string \<Rightarrow> obj \<Rightarrow> obj" where
  "claudeOpenAI_obj model root =
     (let acc = fold collect_block (arrayValue (fld root ''content'')) no_parts;
          usage = objectValue (fld root ''usage'')
      in completion (firstNonEmptyString [stringValue (fld root ''id''), ''chatcmpl-copilot''])
           (JNum ''0'')
           (firstNonEmptyString [stringValue (fld root ''model''), model])
           (openai_message acc) (claudeFinishReason (stringValue (fld root ''stop_reason'')) (op_tools acc \<noteq> []))
           (mk_obj [(''prompt_tokens'', numberValue (fld usage ''input_tokens'')),
                    (''completion_tokens'', numberValue (fld usage ''output_tokens'')),
                    (''total_tokens'', int64_json (int64Value (fld usage ''input_tokens'') + int64Value (fld usage ''output_tokens'')))]))"

definition claudeResponseToOpenAI :: "string \<Rightarrow> string \<Rightarrow> string res" where
  "claudeResponseToOpenAI model body =
     (case decodeObject body of
        Inl e \<Rightarrow> Inl (Wrap ''decode Claude response: '' e)
      | Inr root \<Rightarrow> Inr (encode (JObj (claudeOpenAI_obj model root))))"

subsection \<open>Stream chunks\<close>

text \<open>The payload of a chunk; \<open>None\<close> is a nil usage. \<open>openAIChunk\<close> prints it.\<close>

definition chunk_payload :: "string \<Rightarrow> string \<Rightarrow> json \<Rightarrow> obj \<Rightarrow> json \<Rightarrow> obj option \<Rightarrow> obj" where
  "chunk_payload cid model created delta finishReason usage =
     (let payload = mk_obj [(''id'', JStr cid), (''object'', JStr ''chat.completion.chunk''), (''created'', created),
            (''model'', JStr model),
            (''choices'', JArr [JObj (mk_obj [(''index'', JNum ''0''), (''delta'', JObj delta),
               (''finish_reason'', finishReason)])])]
      in (case usage of Some u \<Rightarrow> obj_put ''usage'' (JObj u) payload | None \<Rightarrow> payload))"

definition openAIChunk :: "string \<Rightarrow> string \<Rightarrow> json \<Rightarrow> obj \<Rightarrow> json \<Rightarrow> obj option \<Rightarrow> string" where
  "openAIChunk cid model created delta finishReason usage =
     encode (JObj (chunk_payload cid model created delta finishReason usage))"

definition openAIPassthroughFrame :: "string \<Rightarrow> string list res" where
  "openAIPassthroughFrame frame =
     (case parseSSEFrame frame of
        Inl e \<Rightarrow> Inl e
      | Inr (event, data, done) \<Rightarrow>
          (case data of Some d \<Rightarrow> (if done \<or> d = [] then Inr [] else Inr [d]) | None \<Rightarrow> Inr []))"

subsection \<open>What the loops collect\<close>

text \<open>The text, reasoning, refusal and tool calls of one output item, each on its own.\<close>

definition part_text :: "json \<Rightarrow> string" where
  "part_text rawPart =
     (let part = objectValue rawPart
      in if stringValue (fld part ''type'') \<in> {''output_text'', ''text''} then rawStringValue (fld part ''text'') else [])"

definition part_refusal :: "json \<Rightarrow> string" where
  "part_refusal rawPart =
     (let part = objectValue rawPart
      in if stringValue (fld part ''type'') = ''refusal'' then rawStringValue (fld part ''refusal'') else [])"

definition item_kind :: "json \<Rightarrow> string" where
  "item_kind rawItem = stringValue (fld (objectValue rawItem) ''type'')"

definition item_parts :: "json \<Rightarrow> json list" where
  "item_parts rawItem =
     (if item_kind rawItem = ''message'' then arrayValue (fld (objectValue rawItem) ''content'') else [])"

definition item_reasoning :: "json \<Rightarrow> string" where
  "item_reasoning rawItem =
     (if item_kind rawItem = ''reasoning'' then responsesReasoningText (objectValue rawItem) else [])"

definition item_tools :: "json \<Rightarrow> json list" where
  "item_tools rawItem =
     (let item = objectValue rawItem
      in if item_kind rawItem \<in> {''function_call'', ''custom_tool_call''}
         then [tool_call (firstString item [''call_id'', ''id'']) (stringValue (fld item ''name''))
                 (firstRawString item [''arguments'', ''input''])] else [])"

lemma as_object_None: "as_object v = None \<Longrightarrow> objectValue v = []"
  by (cases v) simp_all

lemma as_object_Some: "as_object v = Some m \<Longrightarrow> objectValue v = m"
  by (cases v) simp_all

lemma fold_collect_part:
  "fold collect_part ps acc =
     acc\<lparr>op_text := op_text acc @ concat (map part_text ps),
         op_refusal := op_refusal acc @ concat (map part_refusal ps)\<rparr>"
proof (induction ps arbitrary: acc)
  case (Cons p ps)
  then show ?case
    by (auto simp: collect_part_def part_text_def part_refusal_def Let_def as_object_None as_object_Some
        split: option.split)
qed simp

lemma collect_item_parts:
  "collect_item i acc =
     \<lparr>op_text = op_text acc @ concat (map part_text (item_parts i)),
      op_reasoning = op_reasoning acc @ item_reasoning i,
      op_refusal = op_refusal acc @ concat (map part_refusal (item_parts i)),
      op_tools = op_tools acc @ item_tools i\<rparr>"
  by (cases acc)
    (auto simp: collect_item_def item_parts_def item_reasoning_def item_tools_def item_kind_def Let_def
      fold_collect_part as_object_None as_object_Some simp del: firstString.simps firstRawString.simps
      split: option.split)

lemma fold_collect_item:
  "fold collect_item is acc =
     \<lparr>op_text = op_text acc @ concat (map part_text (concat (map item_parts is))),
      op_reasoning = op_reasoning acc @ concat (map item_reasoning is),
      op_refusal = op_refusal acc @ concat (map part_refusal (concat (map item_parts is))),
      op_tools = op_tools acc @ concat (map item_tools is)\<rparr>"
  by (induction "is" arbitrary: acc) (simp_all add: collect_item_parts)

definition opt_field :: "string \<Rightarrow> string \<Rightarrow> obj \<Rightarrow> obj" where
  "opt_field k s m = (if s \<noteq> [] then obj_put k (JStr s) m else m)"

definition choice_of :: "obj \<Rightarrow> obj" where
  "choice_of out = objectValue (case arrayValue (fld out ''choices'') of c # _ \<Rightarrow> c | [] \<Rightarrow> JNull)"

definition message_of :: "obj \<Rightarrow> obj" where
  "message_of out = objectValue (fld (choice_of out) ''message'')"

lemma completion_fields:
  "message_of (completion cid created model message reason usage) = message"
  "fld (choice_of (completion cid created model message reason usage)) ''finish_reason'' = JStr reason"
  "fld (completion cid created model message reason usage) ''usage'' = JObj usage"
  by (simp_all add: message_of_def choice_of_def completion_def fld_mk_obj_Cons)

lemma openai_message_fields:
  "fld (openai_message acc) ''content'' =
     (if op_text acc = [] \<and> op_tools acc \<noteq> [] then JNull else JStr (op_text acc))"
  "rawStringValue (fld (openai_message acc) ''reasoning_content'') = op_reasoning acc"
  "rawStringValue (fld (openai_message acc) ''refusal'') = op_refusal acc"
  "arrayValue (fld (openai_message acc) ''tool_calls'') = op_tools acc"
  by (simp_all add: openai_message_def Let_def fld_mk_obj_Cons)

subsection \<open>Properties\<close>

text \<open>A Chat Completions client gets everything the Responses output holds: the texts of all
  message parts in order, the reasoning, the refusals, and one tool call for each call item, in
  order; \<open>content\<close> is \<open>null\<close> only beside tool calls.\<close>

definition completion_holds :: "obj \<Rightarrow> obj \<Rightarrow> bool" where
  "completion_holds root out \<longleftrightarrow>
     (let is = arrayValue (fld root ''output''); text = concat (map part_text (concat (map item_parts is)));
          tools = concat (map item_tools is)
      in fld (message_of out) ''content'' = (if text = [] \<and> tools \<noteq> [] then JNull else JStr text) \<and>
         rawStringValue (fld (message_of out) ''reasoning_content'') = concat (map item_reasoning is) \<and>
         rawStringValue (fld (message_of out) ''refusal'') = concat (map part_refusal (concat (map item_parts is))) \<and>
         arrayValue (fld (message_of out) ''tool_calls'') = tools \<and>
         fld (choice_of out) ''finish_reason'' = JStr (responsesFinishReason root (tools \<noteq> [])))"

lemma responses_openai_complete:
  "case responsesOpenAI_obj model root of
     Inl e \<Rightarrow> responsesFailure root = Some e | Inr out \<Rightarrow> completion_holds root out"
  by (simp add: responsesOpenAI_obj_def completion_holds_def Let_def completion_fields openai_message_fields
      fold_collect_item no_parts_def split: option.split)

text \<open>The finish reason of a Responses result is the same whether it is translated to Chat
  Completions directly or by way of a Claude stop reason.\<close>

theorem finish_reason_routes:
  "claudeFinishReason (responsesStopReason root hasTool) hasTool = responsesFinishReason root hasTool"
proof -
  have "ToLower ''max_tokens'' = ''max_tokens''" "ToLower ''refusal'' = ''refusal''"
    "ToLower ''tool_use'' = ''tool_use''" "ToLower ''end_turn'' = ''end_turn''"
    by code_simp+
  then show ?thesis
    by (simp add: claudeFinishReason_def responsesStopReason_def responsesFinishReason_def Let_def)
qed

lemma sint_sum:
  assumes "0 \<le> a" "a \<le> max_int64" "0 \<le> b" "b \<le> max_int64"
  shows "sint (word_of_int a + word_of_int b :: int64) =
    (if a + b \<le> max_int64 then a + b else a + b - 18446744073709551616)"
proof -
  have "sint (word_of_int a + word_of_int b :: int64) = signed_take_bit 63 (a + b)"
    by (simp flip: of_int_add add: signed_of_int)
  also have "\<dots> = (if a + b \<le> max_int64 then a + b else a + b - 18446744073709551616)"
  proof (cases "a + b \<le> max_int64")
    case True
    then show ?thesis using assms
      by (simp add: signed_take_bit_int_eq_self max_int64_def)
  next
    case False
    have "signed_take_bit 63 (a + b) = (a + b + 2 ^ 63) mod 2 ^ 64 - 2 ^ 63"
      by (simp add: signed_take_bit_eq_take_bit_shift take_bit_eq_mod)
    also have "(a + b + 2 ^ 63) mod 2 ^ 64 = a + b + 2 ^ 63 - 2 ^ 64"
      using False assms by (simp add: mod_pos_geq max_int64_def)
    finally show ?thesis using False by simp
  qed
  finally show ?thesis .
qed

lemma int64Value_Itoa: "min_int64 \<le> a \<Longrightarrow> a \<le> max_int64 \<Longrightarrow> int64Value (JNum (Itoa a)) = word_of_int a"
  by (simp add: ParseInt_Itoa)

text \<open>C18: when the upstream gives no total, the total is the sum of the two counts as a 64-bit
  integer: exact while the sum fits, and wrapped to a negative number beyond it.\<close>

theorem usage_total_tokens:
  assumes "fld usage ''input_tokens'' = JNum (Itoa a)" "fld usage ''output_tokens'' = JNum (Itoa b)"
    and "map_of usage ''total_tokens'' = None"
    and "0 \<le> a" "a \<le> max_int64" "0 \<le> b" "b \<le> max_int64"
  shows "fld (responsesUsageToOpenAI usage) ''total_tokens'' =
    JNum (Itoa (if a + b \<le> max_int64 then a + b else a + b - 18446744073709551616))"
proof -
  have "fld (responsesUsageToOpenAI usage) ''total_tokens'' =
      int64_json (int64Value (JNum (Itoa a)) + int64Value (JNum (Itoa b)))"
    using assms(1-3) by (simp add: responsesUsageToOpenAI_def Let_def split: option.split)
  also have "\<dots> = int64_json (word_of_int a + word_of_int b)"
    using assms(4-7) by (simp only: int64Value_Itoa min_int64_def)
  finally show ?thesis by (simp add: int64_json_def sint_sum [OF assms(4-7)])
qed

theorem usage_total_tokens_witness:
  "fld (responsesUsageToOpenAI (mk_obj [(''input_tokens'', JNum (Itoa 7)), (''output_tokens'', JNum (Itoa 9223372036854775807))]))
     ''total_tokens'' = JNum (Itoa (- 9223372036854775802))"
proof -
  have "fld (responsesUsageToOpenAI (mk_obj [(''input_tokens'', JNum (Itoa 7)), (''output_tokens'', JNum (Itoa 9223372036854775807))]))
     ''total_tokens'' = JNum (Itoa (if 7 + 9223372036854775807 \<le> max_int64 then 7 + 9223372036854775807
       else 7 + 9223372036854775807 - 18446744073709551616))"
    by (rule usage_total_tokens) (simp_all add: fld_mk_obj_Cons max_int64_def, simp add: mk_obj_def)
  then show ?thesis by (simp add: max_int64_def)
qed

end
