(* ===== verification/Chat_Protocol.thy ===== *)
theory Chat_Protocol
  imports OpenAI_Response Streams
begin

text \<open>
  The deltas of the Chat Completions streams, and the contract of such a stream as an automaton
  of its reader: the role chunk first and once, a tool call announced with id and name once
  before its argument chunks, one finish reason. With \<open>strict\<close> nothing follows the finish
  reason. Both stream translators that produce Chat Completions chunks are shown to keep it.
\<close>

definition role_delta :: obj where
  "role_delta = mk_obj [(''role'', JStr ''assistant''), (''content'', JStr [])]"

definition text_delta :: "string \<Rightarrow> string \<Rightarrow> obj" where
  "text_delta field v = mk_obj [(field, JStr v)]"

definition tool_announce :: "nat \<Rightarrow> string \<Rightarrow> string \<Rightarrow> obj" where
  "tool_announce i cid name =
     mk_obj [(''tool_calls'', JArr [JObj (mk_obj [(''index'', nat_json i), (''id'', JStr cid), (''type'', JStr ''function''),
        (''function'', JObj (mk_obj [(''name'', JStr name), (''arguments'', JStr [])]))])])]"

definition tool_args :: "nat \<Rightarrow> string \<Rightarrow> obj" where
  "tool_args i arguments =
     mk_obj [(''tool_calls'', JArr [JObj (mk_obj [(''index'', nat_json i),
        (''function'', JObj (mk_obj [(''arguments'', JStr arguments)]))])])]"

subsection \<open>The reader\<close>

record chat_client =
  ch_started :: bool
  ch_tools :: "nat list"
  ch_finished :: bool

definition chat0 :: chat_client where
  "chat0 = \<lparr>ch_started = False, ch_tools = [], ch_finished = False\<rparr>"

definition delta_of :: "obj \<Rightarrow> obj" where
  "delta_of payload = objectValue (fld (choice_of payload) ''delta'')"

definition tool_index :: "obj \<Rightarrow> nat option" where
  "tool_index tc = (case fld tc ''index'' of JNum t \<Rightarrow> Some (dec_val t) | _ \<Rightarrow> None)"

definition chat_tool :: "obj \<Rightarrow> chat_client \<Rightarrow> chat_client option" where
  "chat_tool tc c =
     (case tool_index tc of
        None \<Rightarrow> None
      | Some i \<Rightarrow>
          (if map_of tc ''id'' \<noteq> None
           then (if i \<in> set (ch_tools c) then None else Some (c\<lparr>ch_tools := i # ch_tools c\<rparr>))
           else (if i \<in> set (ch_tools c) then Some c else None)))"

definition chat_step :: "bool \<Rightarrow> chat_client \<Rightarrow> obj \<Rightarrow> chat_client option" where
  "chat_step strict c payload =
     (let delta = delta_of payload
      in if fld (choice_of payload) ''finish_reason'' \<noteq> JNull then
           (if ch_started c \<and> \<not> ch_finished c then Some (c\<lparr>ch_finished := True\<rparr>) else None)
         else if strict \<and> ch_finished c then None
         else if map_of delta ''role'' \<noteq> None then
           (if ch_started c then None else Some (c\<lparr>ch_started := True\<rparr>))
         else if \<not> ch_started c then None
         else (case arrayValue (fld delta ''tool_calls'') of
                 [] \<Rightarrow> Some c | tc # _ \<Rightarrow> chat_tool (objectValue tc) c))"

lemma chunk_choice [frame_simps]:
  "fld (choice_of (chunk_payload cid model created delta reason usage)) ''finish_reason'' = reason"
  "delta_of (chunk_payload cid model created delta reason usage) = delta"
  by (simp_all add: chunk_payload_def choice_of_def delta_of_def Let_def fld_mk_obj_Cons split: option.split)

lemma map_of_mk_obj_Cons:
  "map_of (mk_obj ((k, v) # fs)) x = (case map_of (rev fs) x of Some w \<Rightarrow> Some w | None \<Rightarrow> if x = k then Some v else None)"
proof -
  have "map_of (fold (\<lambda>(k, v). obj_put k v) fs m) x = (case map_of (rev fs) x of Some w \<Rightarrow> Some w | None \<Rightarrow> map_of m x)" for m :: "(string \<times> 'a) list"
    by (induction fs arbitrary: m) (auto simp: map_add_Some_iff map_add_def split: option.splits)
  then show ?thesis by (simp add: mk_obj_def split: option.split)
qed

lemma tool_index_nat: "fld tc ''index'' = nat_json i \<Longrightarrow> tool_index tc = Some i"
  by (simp add: tool_index_def nat_json_def Itoa_def dec_val_nat_text)

lemma chat_step_simps:
  "chat_step strict c (chunk_payload cid model created role_delta JNull usage) =
     (if strict \<and> ch_finished c then None else if ch_started c then None else Some (c\<lparr>ch_started := True\<rparr>))"
  "field \<in> {''content'', ''refusal'', ''reasoning_content''} \<Longrightarrow>
   chat_step strict c (chunk_payload cid model created (text_delta field v) JNull usage) =
     (if strict \<and> ch_finished c \<or> \<not> ch_started c then None else Some c)"
  "chat_step strict c (chunk_payload cid model created (tool_announce i tid name) JNull usage) =
     (if strict \<and> ch_finished c \<or> \<not> ch_started c \<or> i \<in> set (ch_tools c) then None
      else Some (c\<lparr>ch_tools := i # ch_tools c\<rparr>))"
  "chat_step strict c (chunk_payload cid model created (tool_args i arguments) JNull usage) =
     (if strict \<and> ch_finished c \<or> \<not> ch_started c \<or> i \<notin> set (ch_tools c) then None else Some c)"
  "chat_step strict c (chunk_payload cid model created delta (JStr reason) usage) =
     (if ch_started c \<and> \<not> ch_finished c then Some (c\<lparr>ch_finished := True\<rparr>) else None)"
  by (auto simp: chat_step_def Let_def frame_simps role_delta_def text_delta_def tool_announce_def tool_args_def
      chat_tool_def tool_index_nat fld_mk_obj_Cons map_of_mk_obj_Cons)

end
