(* ===== verification/OpenAI_Stream.thy ===== *)
theory OpenAI_Stream
  imports Chat_Protocol
begin

text \<open>
  The stream of OpenAI Responses events rewritten as Chat Completions chunks:
  \<open>internal/translate/openai_responses_stream.go\<close>. A chunk is kept as its payload;
  \<open>openAIChunk\<close> prints it. The pointers to items are their keys.
\<close>

record responsesOpenAIItem =
  ToolIndex :: nat
  Announced :: bool
  SawDelta :: bool
  CallID :: string
  Name :: string

record responsesOpenAIStreamState =
  Started :: bool
  Stopped :: bool
  ID :: string
  Model :: string
  Created :: json
  NextToolIndex :: nat
  HasToolCalls :: bool
  Items :: "(string \<times> responsesOpenAIItem) list"

definition new_openai_stream :: "string \<Rightarrow> responsesOpenAIStreamState" where
  "new_openai_stream model =
     \<lparr>Started = False, Stopped = False, ID = ''chatcmpl-copilot'', Model = model, Created = JNum ''0'',
      NextToolIndex = 0, HasToolCalls = False, Items = []\<rparr>"

definition upd_item ::
  "string \<Rightarrow> (responsesOpenAIItem \<Rightarrow> responsesOpenAIItem) \<Rightarrow> responsesOpenAIStreamState \<Rightarrow> responsesOpenAIStreamState" where
  "upd_item key f s =
     (case map_of (Items s) key of None \<Rightarrow> s | Some it \<Rightarrow> s\<lparr>Items := alist_set key (f it) (Items s)\<rparr>)"

subsection \<open>The operations\<close>

definition chunk_oa :: "obj \<Rightarrow> json \<Rightarrow> obj option \<Rightarrow> responsesOpenAIStreamState \<Rightarrow> obj" where
  "chunk_oa delta finishReason usage s = chunk_payload (ID s) (Model s) (Created s) delta finishReason usage"

definition start_oa :: "obj \<Rightarrow> obj \<Rightarrow> (obj, responsesOpenAIStreamState) op" where
  "start_oa response payload s =
     (if Started s then ([], s)
      else
        (let s1 = s\<lparr>Started := True,
              ID := firstNonEmptyString [stringValue (fld response ''id''), stringValue (fld payload ''response_id''),
                      ''chatcmpl-copilot''],
              Model := firstNonEmptyString [stringValue (fld response ''model''), Model s],
              Created := numberValue (fld response ''created_at'')\<rparr>
         in ([chunk_oa role_delta JNull None s1], s1)))"

definition item_oa :: "string \<Rightarrow> responsesOpenAIStreamState \<Rightarrow> string \<times> responsesOpenAIStreamState" where
  "item_oa key0 s =
     (let key = (if key0 = [] then ''tool:'' @ Itoa (int (length (Items s))) else key0)
      in (case map_of (Items s) key of
            Some it \<Rightarrow> (key, s)
          | None \<Rightarrow>
              (key, s\<lparr>NextToolIndex := NextToolIndex s + 1,
                      Items := alist_set key \<lparr>ToolIndex = NextToolIndex s, Announced = False, SawDelta = False,
                        CallID = [], Name = []\<rparr> (Items s)\<rparr>)))"

definition announceTool :: "string \<Rightarrow> (obj, responsesOpenAIStreamState) op" where
  "announceTool key s =
     (case map_of (Items s) key of
        None \<Rightarrow> ([], s)
      | Some it \<Rightarrow>
          (if Announced it then ([], s)
           else ([chunk_oa (tool_announce (ToolIndex it) (CallID it) (Name it)) JNull None s],
                 (upd_item key (\<lambda>it. it\<lparr>Announced := True\<rparr>) s)\<lparr>HasToolCalls := True\<rparr>)))"

definition finish_oa :: "obj \<Rightarrow> (obj, responsesOpenAIStreamState) op" where
  "finish_oa response s =
     (if Stopped s then ([], s)
      else
        (let usage = responsesUsageToOpenAI (objectValue (fld response ''usage''))
         in ([chunk_oa [] (JStr (responsesFinishReason response (HasToolCalls s))) (Some usage) s], s\<lparr>Stopped := True\<rparr>)))"

text \<open>A chunk with one text field when the text is not empty.\<close>

definition emit_text :: "string \<Rightarrow> string \<Rightarrow> (obj, responsesOpenAIStreamState) op" where
  "emit_text field v s = (if v = [] then ([], s) else ([chunk_oa (text_delta field v) JNull None s], s))"

definition emit_args :: "string \<Rightarrow> string \<Rightarrow> (obj, responsesOpenAIStreamState) op" where
  "emit_args key v s =
     (case map_of (Items s) key of
        None \<Rightarrow> ([], s)
      | Some it \<Rightarrow>
          (if v = [] then ([], s)
           else ([chunk_oa (tool_args (ToolIndex it) v) JNull None s], upd_item key (\<lambda>it. it\<lparr>SawDelta := True\<rparr>) s)))"

subsection \<open>One upstream event\<close>

definition take_item ::
  "string \<Rightarrow> (responsesOpenAIItem \<Rightarrow> responsesOpenAIItem) \<Rightarrow> responsesOpenAIStreamState \<Rightarrow> responsesOpenAIStreamState" where
  "take_item key f s = upd_item key f (snd (item_oa key s))"

definition is_call :: "obj \<Rightarrow> bool" where
  "is_call it \<longleftrightarrow> stringValue (fld it ''type'') = ''function_call'' \<or> stringValue (fld it ''type'') = ''custom_tool_call''"

definition added_names :: "obj \<Rightarrow> responsesOpenAIItem \<Rightarrow> responsesOpenAIItem" where
  "added_names it b =
     b\<lparr>CallID := firstNonEmptyString [firstString it [''call_id'', ''id''], CallID b],
        Name := firstNonEmptyString [stringValue (fld it ''name''), Name b]\<rparr>"

definition delta_names :: "obj \<Rightarrow> responsesOpenAIItem \<Rightarrow> responsesOpenAIItem" where
  "delta_names payload b =
     b\<lparr>CallID := firstNonEmptyString [CallID b, stringValue (fld payload ''call_id''), stringValue (fld payload ''item_id'')],
        Name := firstNonEmptyString [Name b, stringValue (fld payload ''name'')]\<rparr>"

definition done_names :: "obj \<Rightarrow> responsesOpenAIItem \<Rightarrow> responsesOpenAIItem" where
  "done_names it b =
     b\<lparr>CallID := firstNonEmptyString [CallID b, firstString it [''call_id'', ''id'']],
        Name := firstNonEmptyString [Name b, stringValue (fld it ''name'')]\<rparr>"

definition announce_named :: "string \<Rightarrow> (obj, responsesOpenAIStreamState) op" where
  "announce_named key s =
     (case map_of (Items s) key of
        None \<Rightarrow> ([], s) | Some it \<Rightarrow> (if Name it \<noteq> [] then announceTool key s else ([], s)))"

definition call_added :: "obj \<Rightarrow> (obj, responsesOpenAIStreamState) op" where
  "call_added payload s =
     (let it = objectValue (fld payload ''item''); key = itemKey payload
      in if is_call it then announce_named key (take_item key (added_names it) s) else ([], s))"

definition part_added :: "obj \<Rightarrow> (obj, responsesOpenAIStreamState) op" where
  "part_added payload =
     (let part = objectValue (fld payload ''part''); t = stringValue (fld part ''type'')
      in if t = ''output_text'' \<or> t = ''text'' then emit_text ''content'' (rawStringValue (fld part ''text''))
         else if t = ''refusal'' then emit_text ''refusal'' (rawStringValue (fld part ''refusal''))
         else skip_out)"

definition call_delta :: "obj \<Rightarrow> (obj, responsesOpenAIStreamState) op" where
  "call_delta payload s =
     (let key = itemKey payload
      in bind_out (announceTool key) (emit_args key (rawStringValue (fld payload ''delta'')))
           (take_item key (delta_names payload) s))"

definition reasoning_done :: "obj \<Rightarrow> (obj, responsesOpenAIStreamState) op" where
  "reasoning_done payload s =
     (let it = objectValue (fld payload ''item'');
          seen = (case map_of (Items s) (itemKey payload) of None \<Rightarrow> False | Some b \<Rightarrow> SawDelta b)
      in if \<not> seen then emit_text ''reasoning_content'' (responsesReasoningText it) s else ([], s))"

definition call_done :: "obj \<Rightarrow> (obj, responsesOpenAIStreamState) op" where
  "call_done payload s =
     (let it = objectValue (fld payload ''item''); key = itemKey payload
      in bind_out (announceTool key)
           (\<lambda>s1. (case map_of (Items s1) key of
                    None \<Rightarrow> ([], s1)
                  | Some b \<Rightarrow>
                      (if \<not> SawDelta b then emit_args key (firstRawString it [''arguments'', ''input'']) s1 else ([], s1))))
           (take_item key (done_names it) s))"

definition item_done_oa :: "obj \<Rightarrow> (obj, responsesOpenAIStreamState) op" where
  "item_done_oa payload =
     (let it = objectValue (fld payload ''item'')
      in if stringValue (fld it ''type'') = ''reasoning'' then reasoning_done payload
         else if is_call it then call_done payload
         else skip_out)"

definition body_event_oa :: "string \<Rightarrow> obj \<Rightarrow> (obj, responsesOpenAIStreamState) op" where
  "body_event_oa event payload =
     (if event = ''response.output_item.added'' then call_added payload
      else if event = ''response.content_part.added'' then part_added payload
      else if event = ''response.output_text.delta'' then emit_text ''content'' (rawStringValue (fld payload ''delta''))
      else if event = ''response.refusal.delta'' then emit_text ''refusal'' (rawStringValue (fld payload ''delta''))
      else if event = ''response.reasoning_summary_text.delta'' \<or> event = ''response.reasoning_text.delta'' then
        emit_text ''reasoning_content'' (rawStringValue (fld payload ''delta''))
      else if event = ''response.function_call_arguments.delta'' \<or> event = ''response.custom_tool_call_input.delta'' then
        call_delta payload
      else if event = ''response.output_item.done'' then item_done_oa payload
      else skip_out)"

definition start_if_needed_oa :: "string \<Rightarrow> obj \<Rightarrow> (obj, responsesOpenAIStreamState) op" where
  "start_if_needed_oa event payload s =
     (if \<not> Started s \<and> HasPrefix event ''response.''
      then start_oa (objectValue (fld payload ''response'')) payload s else ([], s))"

definition openai_event ::
  "string \<times> obj \<Rightarrow> responsesOpenAIStreamState \<Rightarrow> obj list res \<times> responsesOpenAIStreamState" where
  "openai_event ep s =
     (let (event, payload) = ep; responseObject = objectValue (fld payload ''response'')
      in if event = ''error'' \<or> event = ''response.failed'' then (Inl (stream_failure payload), s)
         else if event = ''response.completed'' \<or> event = ''response.incomplete'' then
           (case (if event = ''response.completed'' then responsesFailure responseObject else None) of
              Some e \<Rightarrow> (Inl e, snd (start_if_needed_oa event payload s))
            | None \<Rightarrow>
                (let (out, s1) = bind_out (start_if_needed_oa event payload) (finish_oa responseObject) s in (Inr out, s1)))
         else (let (out, s1) = bind_out (start_if_needed_oa event payload) (body_event_oa event payload) s
               in (Inr out, s1)))"

definition openai_frame ::
  "string \<Rightarrow> responsesOpenAIStreamState \<Rightarrow> obj list res \<times> responsesOpenAIStreamState" where
  "openai_frame frame s =
     (case parseSSEFrame frame of
        Inl e \<Rightarrow> (Inl e, s)
      | Inr (event, data, done) \<Rightarrow>
          (if done then
             (if Stopped s then (Inr [], s)
              else (Inl (ErrorText ''Responses stream ended before a terminal response event''), s))
           else
             (case data of
                None \<Rightarrow> (Inr [], s)
              | Some d \<Rightarrow>
                  (case decodeObject d of
                     Inl e \<Rightarrow> (Inl (WrapQ ''decode Responses SSE event '' event e), s)
                   | Inr payload \<Rightarrow>
                       openai_event (if event = [] then stringValue (fld payload ''type'') else event, payload) s))))"

definition responsesStreamToOpenAI ::
  "string \<Rightarrow> string \<Rightarrow> responsesOpenAIStreamState option option \<Rightarrow>
   string list res \<times> responsesOpenAIStreamState option option" where
  "responsesStreamToOpenAI model frame state =
     (case state of
        None \<Rightarrow> (Inl (ErrorText ''Responses-to-OpenAI stream translation requires state''), None)
      | Some cell \<Rightarrow>
          (let (r, s) = openai_frame frame (case cell of Some s \<Rightarrow> s | None \<Rightarrow> new_openai_stream model)
           in (case r of Inl e \<Rightarrow> Inl e | Inr out \<Rightarrow> Inr (map (\<lambda>p. encode (JObj p)) out), Some (Some s))))"

end
