(* ===== verification/OpenAI_Stream_Facts.thy ===== *)
theory OpenAI_Stream_Facts
  imports OpenAI_Stream
begin

text \<open>
  The Responses-to-Chat-Completions stream translator keeps the contract of \<open>Chat_Protocol\<close>:
  the simulation, its lifting to runs through the locale \<open>stream_simulation\<close>, and the
  fidelity of the text it relays.
\<close>

subsection \<open>The relation between the translator and the reader\<close>

definition chat_rel :: "responsesOpenAIStreamState \<Rightarrow> chat_client \<Rightarrow> bool" where
  "chat_rel s c \<longleftrightarrow>
     ch_started c = Started s \<and> ch_finished c = Stopped s \<and>
     (\<forall>i. i \<in> set (ch_tools c) \<longleftrightarrow> marked ToolIndex Announced (Items s) i) \<and>
     indexed ToolIndex (NextToolIndex s) (Items s)"

definition chat_live :: "bool \<Rightarrow> responsesOpenAIStreamState \<Rightarrow> bool" where
  "chat_live strict s \<longleftrightarrow> Started s \<and> (strict \<longrightarrow> \<not> Stopped s)"

lemma chat_rel_init: "chat_rel (new_openai_stream model) chat0"
  by (simp add: chat_rel_def new_openai_stream_def chat0_def)

lemma upd_item_Some: "map_of (Items s) key = Some it \<Longrightarrow> upd_item key f s = s\<lparr>Items := alist_set key (f it) (Items s)\<rparr>"
  by (simp add: upd_item_def)

lemma upd_item_None: "map_of (Items s) key = None \<Longrightarrow> upd_item key f s = s"
  by (simp add: upd_item_def)

lemma upd_item_simps [simp]:
  "Started (upd_item k f s) = Started s" "Stopped (upd_item k f s) = Stopped s"
  "NextToolIndex (upd_item k f s) = NextToolIndex s"
  "map_of (Items (upd_item k f s)) k' = (if k' = k then map_option f (map_of (Items s) k) else map_of (Items s) k')"
  by (auto simp: upd_item_def split: option.split)

lemma chat_rel_upd:
  assumes "chat_rel s c" "\<And>it. ToolIndex (f it) = ToolIndex it" "\<And>it. Announced (f it) = Announced it"
  shows "chat_rel (upd_item key f s) c"
proof (cases "map_of (Items s) key")
  case None
  with assms(1) show ?thesis by (simp add: upd_item_None)
next
  case (Some it)
  have ix: "indexed ToolIndex (NextToolIndex s) (Items s)" using assms(1) by (simp add: chat_rel_def)
  note set = indexed_set [OF ix Some assms(2)] marked_set [OF ix Some assms(2), of Announced]
  have "marked ToolIndex Announced (alist_set key (f it) (Items s)) i = marked ToolIndex Announced (Items s) i" for i
    using marked_at [OF ix Some, of Announced] assms(3) by (simp add: set(2))
  with assms(1) set(1) show ?thesis by (simp add: chat_rel_def upd_item_Some [OF Some])
qed

lemma item_oa_cases:
  assumes "key \<noteq> []"
  shows "snd (item_oa key s) = (case map_of (Items s) key of Some it \<Rightarrow> s
    | None \<Rightarrow> s\<lparr>NextToolIndex := NextToolIndex s + 1,
        Items := alist_set key \<lparr>ToolIndex = NextToolIndex s, Announced = False, SawDelta = False, CallID = [], Name = []\<rparr>
          (Items s)\<rparr>)"
  using assms by (simp add: item_oa_def Let_def split: option.split)

lemma item_oa_rel:
  assumes "chat_rel s c" "key \<noteq> []"
  shows "chat_rel (snd (item_oa key s)) c"
proof (cases "map_of (Items s) key")
  case None
  let ?it = "\<lparr>ToolIndex = NextToolIndex s, Announced = False, SawDelta = False, CallID = [], Name = []\<rparr>"
  have "indexed ToolIndex (NextToolIndex s) (Items s)" using assms(1) by (simp add: chat_rel_def)
  from indexed_add [OF this None, of ?it] marked_add [OF None, of Announced ?it ToolIndex] assms None
  show ?thesis by (simp add: item_oa_cases chat_rel_def)
next
  case (Some it)
  with assms show ?thesis by (simp add: item_oa_cases)
qed

lemma take_item_rel:
  assumes "chat_rel s c" "key \<noteq> []" "\<And>it. ToolIndex (f it) = ToolIndex it" "\<And>it. Announced (f it) = Announced it"
  shows "chat_rel (take_item key f s) c"
  unfolding take_item_def by (rule chat_rel_upd [OF item_oa_rel [OF assms(1,2)] assms(3,4)])

lemma take_item_state:
  assumes "key \<noteq> []"
  shows "chat_live strict (take_item key f s) = chat_live strict s"
    "\<exists>it. map_of (Items (take_item key f s)) key = Some it"
  using assms by (auto simp: take_item_def item_oa_cases chat_live_def split: option.split)

lemma names_simps [simp]:
  "ToolIndex (added_names p b) = ToolIndex b" "Announced (added_names p b) = Announced b"
  "ToolIndex (delta_names p b) = ToolIndex b" "Announced (delta_names p b) = Announced b"
  "ToolIndex (done_names p b) = ToolIndex b" "Announced (done_names p b) = Announced b"
  by (simp_all add: added_names_def delta_names_def done_names_def)

subsection \<open>The operations\<close>

definition has_tool :: "bool \<Rightarrow> string \<Rightarrow> responsesOpenAIStreamState \<Rightarrow> bool" where
  "has_tool strict key s \<longleftrightarrow>
     chat_live strict s \<and> (\<exists>it. map_of (Items s) key = Some it \<and> Announced it)"

lemma emit_text_sim:
  assumes "field \<in> {''content'', ''refusal'', ''reasoning_content''}"
  shows "simulates (chat_step strict) chat_rel (chat_live strict) (emit_text field v)"
  by (rule simulatesI)
    (use assms in \<open>auto simp: emit_text_def chunk_oa_def chat_step_simps chat_rel_def chat_live_def\<close>)

lemma announceTool_sim: "simulates (chat_step strict) chat_rel (chat_live strict) (announceTool key)"
proof (rule simulatesI)
  fix s c
  assume rel: "chat_rel s c" and P: "chat_live strict s"
  show "\<exists>c'. accepts (chat_step strict) c (fst (announceTool key s)) = Some c' \<and> chat_rel (snd (announceTool key s)) c'"
  proof (cases "\<exists>it. map_of (Items s) key = Some it \<and> \<not> Announced it")
    case False
    with rel show ?thesis by (auto simp: announceTool_def split: option.split)
  next
    case True
    then obtain it where it: "map_of (Items s) key = Some it" "\<not> Announced it" by blast
    have ix: "indexed ToolIndex (NextToolIndex s) (Items s)" using rel by (simp add: chat_rel_def)
    let ?it = "it\<lparr>Announced := True\<rparr>"
    have same: "ToolIndex ?it = ToolIndex it" by simp
    have "ToolIndex it \<notin> set (ch_tools c)"
      using marked_at [OF ix it(1), of Announced] it(2) rel by (simp add: chat_rel_def)
    then have step: "chat_step strict c (chunk_oa (tool_announce (ToolIndex it) (CallID it) (Name it)) JNull None s) =
        Some (c\<lparr>ch_tools := ToolIndex it # ch_tools c\<rparr>)"
      using rel P by (simp add: chunk_oa_def chat_step_simps chat_rel_def chat_live_def)
    have "marked ToolIndex Announced (alist_set key ?it (Items s)) i \<longleftrightarrow>
        i = ToolIndex it \<or> marked ToolIndex Announced (Items s) i" for i
      by (simp add: marked_set [OF ix it(1) same])
    with step it rel indexed_set [OF ix it(1) same] show ?thesis
      by (simp add: announceTool_def chat_rel_def upd_item_Some)
  qed
qed

lemma announceTool_post:
  "chat_live strict s \<Longrightarrow> \<exists>it. map_of (Items s) key = Some it \<Longrightarrow> has_tool strict key (snd (announceTool key s))"
  by (auto simp: announceTool_def has_tool_def chat_live_def upd_item_Some split: if_split_asm)

lemma emit_args_sim: "simulates (chat_step strict) chat_rel (has_tool strict key) (emit_args key v)"
proof (rule simulatesI)
  fix s c
  assume rel: "chat_rel s c" and P: "has_tool strict key s"
  then obtain it where it: "map_of (Items s) key = Some it" "Announced it" and live: "chat_live strict s"
    by (auto simp: has_tool_def)
  have ix: "indexed ToolIndex (NextToolIndex s) (Items s)" using rel by (simp add: chat_rel_def)
  have "ToolIndex it \<in> set (ch_tools c)"
    using marked_at [OF ix it(1), of Announced] it(2) rel by (simp add: chat_rel_def)
  then have "chat_step strict c (chunk_oa (tool_args (ToolIndex it) v) JNull None s) = Some c"
    using rel live by (simp add: chunk_oa_def chat_step_simps chat_rel_def chat_live_def)
  moreover have "chat_rel (upd_item key (\<lambda>it. it\<lparr>SawDelta := True\<rparr>) s) c"
    by (rule chat_rel_upd [OF rel]) simp_all
  ultimately show "\<exists>c'. accepts (chat_step strict) c (fst (emit_args key v s)) = Some c' \<and> chat_rel (snd (emit_args key v s)) c'"
    using it rel by (simp add: emit_args_def)
qed

lemma simulates_after:
  assumes "simulates step R Q f" "\<And>s c. R s c \<Longrightarrow> P s \<Longrightarrow> R (h s) c \<and> Q (h s)"
  shows "simulates step R P (\<lambda>s. f (h s))"
  using assms unfolding simulates_def by blast

lemma simulates_cong: "simulates step R P f \<Longrightarrow> (\<And>s. P s \<Longrightarrow> f s = g s) \<Longrightarrow> simulates step R P g"
  unfolding simulates_def by simp

definition taken :: "bool \<Rightarrow> string \<Rightarrow> responsesOpenAIStreamState \<Rightarrow> bool" where
  "taken strict key s \<longleftrightarrow> chat_live strict s \<and> (\<exists>it. map_of (Items s) key = Some it)"

lemma taken_announce:
  "simulates (chat_step strict) chat_rel (taken strict key) (announceTool key)"
  "taken strict key s \<Longrightarrow> has_tool strict key (snd (announceTool key s))"
  using announceTool_sim [of strict key] announceTool_post [of strict s key]
  by (auto simp: simulates_def taken_def)

lemma take_item_taken:
  "chat_rel s c \<Longrightarrow> key \<noteq> [] \<Longrightarrow> (\<And>it. ToolIndex (f it) = ToolIndex it) \<Longrightarrow> (\<And>it. Announced (f it) = Announced it) \<Longrightarrow>
   chat_live strict s \<Longrightarrow> chat_rel (take_item key f s) c \<and> taken strict key (take_item key f s)"
  using take_item_rel take_item_state by (simp add: taken_def)

lemma call_added_sim: "simulates (chat_step strict) chat_rel (chat_live strict) (call_added payload)"
proof -
  have "simulates (chat_step strict) chat_rel (taken strict key) (announce_named key)" for key
    using taken_announce(1) [of strict key] unfolding simulates_def announce_named_def
    by (auto split: option.split)
  then have "simulates (chat_step strict) chat_rel (chat_live strict)
      (\<lambda>s. announce_named (itemKey payload) (take_item (itemKey payload) (added_names it) s))" for it
    by (rule simulates_after) (simp add: take_item_taken)
  then show ?thesis
    unfolding call_added_def Let_def simulates_def by simp
qed

lemma call_delta_sim: "simulates (chat_step strict) chat_rel (chat_live strict) (call_delta payload)"
  unfolding call_delta_def Let_def
  by (rule simulates_after [OF simulates_bind [OF taken_announce(1) emit_args_sim taken_announce(2)]])
    (simp_all add: take_item_taken)

lemma call_done_sim: "simulates (chat_step strict) chat_rel (chat_live strict) (call_done payload)"
proof -
  have "simulates (chat_step strict) chat_rel (has_tool strict key)
      (\<lambda>s1. case map_of (Items s1) key of None \<Rightarrow> ([], s1)
        | Some b \<Rightarrow> (if \<not> SawDelta b then emit_args key v s1 else ([], s1)))" for key v
    using emit_args_sim [of strict key v] unfolding simulates_def by (auto split: option.split)
  note tail = simulates_bind [OF taken_announce(1) this taken_announce(2)]
  show ?thesis
    unfolding call_done_def Let_def by (rule simulates_after [OF tail]) (simp_all add: take_item_taken)
qed

lemma item_done_sim_oa: "simulates (chat_step strict) chat_rel (chat_live strict) (item_done_oa payload)"
proof -
  have "simulates (chat_step strict) chat_rel (chat_live strict) (reasoning_done payload)"
    using emit_text_sim [of "''reasoning_content''" strict] unfolding simulates_def reasoning_done_def Let_def by simp
  then show ?thesis by (simp add: item_done_oa_def Let_def call_done_sim simulates_skip)
qed

lemma body_event_sim_oa: "simulates (chat_step strict) chat_rel (chat_live strict) (body_event_oa event payload)"
  by (simp add: body_event_oa_def part_added_def Let_def call_added_sim call_delta_sim item_done_sim_oa
      emit_text_sim simulates_skip)

subsection \<open>Starting and finishing\<close>

lemma start_oa_sim: "simulates (chat_step strict) chat_rel (\<lambda>s. strict \<longrightarrow> \<not> Stopped s) (start_if_needed_oa event payload)"
  by (rule simulatesI)
    (auto simp: start_if_needed_oa_def start_oa_def Let_def chunk_oa_def chat_step_simps chat_rel_def)

lemma start_oa_state:
  "Stopped (snd (start_if_needed_oa event payload s)) = Stopped s"
  "HasPrefix event ''response.'' \<Longrightarrow> Started (snd (start_if_needed_oa event payload s))"
  by (simp_all add: start_if_needed_oa_def start_oa_def Let_def)

lemma finish_oa_sim: "simulates (chat_step strict) chat_rel (\<lambda>s. Started s) (finish_oa response)"
  by (rule simulatesI) (simp add: finish_oa_def chunk_oa_def chat_step_simps chat_rel_def)

lemma body_event_oa_prefix:
  assumes no: "\<not> HasPrefix event ''response.''"
  shows "body_event_oa event payload = skip_out"
proof -
  have neq: "HasPrefix x ''response.'' \<Longrightarrow> event \<noteq> x" for x
    using no by blast
  have "event \<noteq> ''response.output_item.added''" "event \<noteq> ''response.content_part.added''"
    "event \<noteq> ''response.output_text.delta''" "event \<noteq> ''response.refusal.delta''"
    "event \<noteq> ''response.reasoning_summary_text.delta''" "event \<noteq> ''response.reasoning_text.delta''"
    "event \<noteq> ''response.function_call_arguments.delta''" "event \<noteq> ''response.custom_tool_call_input.delta''"
    "event \<noteq> ''response.output_item.done''"
    by (rule neq, simp add: HasPrefix_def)+
  then show ?thesis by (simp only: body_event_oa_def if_False simp_thms)
qed

lemma body_ready_sim:
  "simulates (chat_step strict) chat_rel (\<lambda>s. (strict \<longrightarrow> \<not> Stopped s) \<and> (HasPrefix event ''response.'' \<longrightarrow> Started s))
    (body_event_oa event payload)"
proof (cases "HasPrefix event ''response.''")
  case True
  then show ?thesis using body_event_sim_oa [of strict event payload] by (simp add: simulates_def chat_live_def)
next
  case False
  then show ?thesis by (simp add: body_event_oa_prefix simulates_skip)
qed

lemma openai_event_result:
  assumes "openai_event (event, payload) s = (Inr out, s')"
  obtains (final) "event = ''response.completed'' \<or> event = ''response.incomplete''"
      "(out, s') = bind_out (start_if_needed_oa event payload) (finish_oa (objectValue (fld payload ''response''))) s"
    | (body) "event \<noteq> ''response.completed''" "event \<noteq> ''response.incomplete''"
      "(out, s') = bind_out (start_if_needed_oa event payload) (body_event_oa event payload) s"
  using assms by (auto simp: openai_event_def Let_def split: option.splits prod.splits if_splits)

lemma openai_event_sim:
  assumes rel: "chat_rel s c" and ok: "strict \<longrightarrow> \<not> Stopped s" and step: "openai_event ep s = (Inr out, s')"
  shows "\<exists>c'. accepts (chat_step strict) c out = Some c' \<and> chat_rel s' c'"
proof -
  obtain event payload where ep: "ep = (event, payload)" by fastforce
  let ?start = "start_if_needed_oa event payload"
  have body_sim: "simulates (chat_step strict) chat_rel (\<lambda>s. strict \<longrightarrow> \<not> Stopped s) (bind_out ?start (body_event_oa event payload))"
    by (rule simulates_bind [OF start_oa_sim body_ready_sim]) (simp add: start_oa_state)
  have fin: "simulates (chat_step strict) chat_rel (\<lambda>s. strict \<longrightarrow> \<not> Stopped s) (bind_out ?start (finish_oa response))"
    if "event = ''response.completed'' \<or> event = ''response.incomplete''" for response
    by (rule simulates_bind [OF start_oa_sim finish_oa_sim]) (use that in \<open>auto simp: start_oa_state HasPrefix_def\<close>)
  from step [unfolded ep] show ?thesis
  proof (cases rule: openai_event_result)
    case final
    from simulatesD [OF fin [OF final(1)] rel ok] show ?thesis by (metis final(2) fst_conv snd_conv)
  next
    case body
    from simulatesD [OF body_sim rel ok] show ?thesis by (metis body(3) fst_conv snd_conv)
  qed
qed

lemma openai_frame_sim:
  assumes "chat_rel s c" "strict \<longrightarrow> \<not> Stopped s" "openai_frame frame s = (Inr out, s')"
  shows "\<exists>c'. accepts (chat_step strict) c out = Some c' \<and> chat_rel s' c'"
proof -
  from assms(3) consider "out = []" "s' = s" | ep where "openai_event ep s = (Inr out, s')"
    by (fastforce simp: openai_frame_def split: sum.splits prod.splits if_splits option.splits)
  then show ?thesis
    using assms(1) openai_event_sim [OF assms(1,2)] by cases auto
qed

interpretation chat_frames: stream_simulation "chat_step strict" openai_frame chat_rel
    "\<lambda>s frame. strict \<longrightarrow> \<not> Stopped s" for strict
  by unfold_locales (use openai_frame_sim in blast)

lemma chat_run_reader:
  assumes "run_stream openai_frame (new_openai_stream model) frames = (outs, e, s)"
  shows "\<exists>c. accepts (chat_step False) chat0 outs = Some c \<and> (e = None \<longrightarrow> chat_rel s c)"
proof -
  have "run_all (\<lambda>s frame. False \<longrightarrow> \<not> Stopped s) openai_frame (new_openai_stream model) frames"
    by (simp add: run_all_True)
  then show ?thesis by (rule chat_frames.run_sim [OF chat_rel_init _ assms])
qed

lemma chat_run_done:
  assumes "parseSSEFrame last_frame = Inr (event, data, True)"
    and "run_stream openai_frame s0 (frames @ [last_frame]) = (outs, None, s)"
  shows "Stopped s"
  using assms by (auto simp: run_stream_snoc openai_frame_def split: prod.splits option.splits if_splits sum.splits)

lemma run_all_mono: "(\<And>s i. ok s i) \<Longrightarrow> run_all ok handle s is"
  by (induction "is" arbitrary: s) (auto split: sum.splits prod.splits)

subsection \<open>Text\<close>

definition chat_text :: "obj \<Rightarrow> string" where
  "chat_text payload = rawStringValue (fld (delta_of payload) ''content'')"

definition chat_texts :: "obj list \<Rightarrow> string" where
  "chat_texts out = concat (map chat_text out)"

text \<open>The text an upstream event carries for a Chat Completions client (refusals are separate).\<close>

definition chat_text_in :: "string \<times> obj \<Rightarrow> string" where
  "chat_text_in ep =
     (let (event, payload) = ep; part = objectValue (fld payload ''part'')
      in if event = ''response.output_text.delta'' then rawStringValue (fld payload ''delta'')
         else if event = ''response.content_part.added'' \<and> stringValue (fld part ''type'') \<in> {''output_text'', ''text''}
         then rawStringValue (fld part ''text'') else [])"

lemma chat_texts_simps [frame_simps]:
  "chat_texts [] = []" "chat_texts (f # out) = chat_text f @ chat_texts out"
  "chat_texts (out @ out') = chat_texts out @ chat_texts out'"
  by (simp_all add: chat_texts_def)

lemma chat_text_chunks [frame_simps]:
  "chat_text (chunk_oa role_delta r u s) = []" "chat_text (chunk_oa (tool_announce i cid name) r u s) = []"
  "chat_text (chunk_oa (tool_args i arguments) r u s) = []" "chat_text (chunk_oa [] r u s) = []"
  "chat_text (chunk_oa (text_delta ''content'' v) r u s) = v"
  "chat_text (chunk_oa (text_delta ''refusal'' v) r u s) = []"
  "chat_text (chunk_oa (text_delta ''reasoning_content'' v) r u s) = []"
  by (simp_all add: chat_text_def chunk_oa_def frame_simps role_delta_def tool_announce_def tool_args_def
      text_delta_def fld_mk_obj_Cons)

lemma snd_bind_oa: "snd (bind_out f g s) = snd (g (snd (f s)))"
  by (simp add: bind_out_def split: prod.split)

lemma fst_bind_oa: "fst (bind_out f g s) = fst (f s) @ fst (g (snd (f s)))"
  by (simp add: bind_out_def split: prod.split)

lemma chat_texts_ops [frame_simps]:
  "chat_texts (fst (start_if_needed_oa event payload s)) = []"
  "chat_texts (fst (announceTool key s)) = []" "chat_texts (fst (finish_oa response s)) = []"
  "chat_texts (fst (emit_args key v s)) = []" "chat_texts (fst (skip_out s)) = []"
  "chat_texts (fst (emit_text ''content'' v s)) = v" "chat_texts (fst (emit_text ''refusal'' v s)) = []"
  "chat_texts (fst (emit_text ''reasoning_content'' v s)) = []"
  by (simp_all add: start_if_needed_oa_def start_oa_def announceTool_def finish_oa_def emit_args_def skip_out_def
      emit_text_def Let_def frame_simps split: option.split)

lemma chat_texts_events [frame_simps]:
  "chat_texts (fst (call_added payload s)) = []" "chat_texts (fst (call_delta payload s)) = []"
  "chat_texts (fst (item_done_oa payload s)) = []"
  by (simp_all add: call_added_def announce_named_def call_delta_def item_done_oa_def reasoning_done_def call_done_def
      Let_def fst_bind_oa frame_simps split: option.split)

lemma chat_texts_body: "chat_texts (fst (body_event_oa event payload s)) = chat_text_in (event, payload)"
  by (simp add: body_event_oa_def chat_text_in_def part_added_def Let_def frame_simps)

lemma chat_texts_event:
  assumes "openai_event (event, payload) s = (Inr out, s')"
  shows "chat_texts out = chat_text_in (event, payload)"
  using assms
proof (cases rule: openai_event_result)
  case final
  then have "out = fst (bind_out (start_if_needed_oa event payload) (finish_oa (objectValue (fld payload ''response''))) s)"
    by (metis fst_conv)
  moreover have "chat_text_in (event, payload) = []" using final(1) by (auto simp: chat_text_in_def)
  ultimately show ?thesis by (simp add: fst_bind_oa frame_simps)
next
  case body
  then have "out = fst (bind_out (start_if_needed_oa event payload) (body_event_oa event payload) s)" by (metis fst_conv)
  then show ?thesis by (simp add: fst_bind_oa frame_simps chat_texts_body)
qed

subsection \<open>Properties\<close>

text \<open>C20: whatever frames the upstream sends, the chunks are a well-formed Chat Completions stream:
  the role chunk first and once, each tool call announced once before its arguments, under its
  own index, at most one finish reason; and nothing follows the finish reason when the upstream
  sends nothing after its terminal event.\<close>

theorem openai_stream_protocol:
  assumes "strict \<longrightarrow> run_all (\<lambda>s frame. \<not> Stopped s) openai_frame (new_openai_stream model) frames"
  shows "accepts (chat_step strict) chat0 (fst (run_stream openai_frame (new_openai_stream model) frames)) \<noteq> None"
proof -
  have "run_all (\<lambda>s frame. strict \<longrightarrow> \<not> Stopped s) openai_frame (new_openai_stream model) frames"
    using assms by (cases strict) (simp_all add: run_all_mono)
  then show ?thesis by (rule chat_frames.run_accepted [OF chat_rel_init])
qed

definition chat_sample :: "string list" where
  \<open>chat_sample = [''data: {"type":"response.output_item.added","output_index":0,"item":{"type":"function_call","call_id":"c","name":"f"}}'',
     ''data: {"type":"response.completed","response":{"id":"r1"}}'']\<close>

lemma chat_sample_ok: "run_all (\<lambda>s frame. \<not> Stopped s) openai_frame (new_openai_stream ''m'') chat_sample"
  by code_simp

theorem openai_stream_protocol_witness:
  "accepts (chat_step True) chat0 (fst (run_stream openai_frame (new_openai_stream ''m'') chat_sample)) \<noteq> None"
  by (rule openai_stream_protocol) (simp add: chat_sample_ok)

text \<open>No text is lost, repeated or reordered: the content deltas of the chunks, put together, are
  the text the upstream events carried, put together.\<close>

theorem openai_stream_text:
  assumes "fst (snd (run_stream openai_event s events)) = None"
  shows "chat_texts (fst (run_stream openai_event s events)) = concat (map chat_text_in events)"
  unfolding chat_texts_def
  by (rule run_collect [OF _ assms]) (metis prod.collapse chat_texts_event chat_texts_def)

definition chat_text_sample :: "(string \<times> obj) list" where
  "chat_text_sample = [(''response.output_text.delta'', mk_obj [(''delta'', JStr ''Hi '')]),
     (''response.output_text.delta'', mk_obj [(''delta'', JStr ''you'')])]"

lemma chat_text_sample_ok: "fst (snd (run_stream openai_event (new_openai_stream ''m'') chat_text_sample)) = None"
  by code_simp

theorem openai_stream_text_witness:
  "chat_texts (fst (run_stream openai_event (new_openai_stream ''m'') chat_text_sample)) = concat (map chat_text_in chat_text_sample)"
  by (rule openai_stream_text [OF chat_text_sample_ok])

end
