(* ===== verification/Claude_OpenAI_Stream.thy ===== *)
theory Claude_OpenAI_Stream
  imports Chat_Protocol
begin

text \<open>
  The stream of Claude Messages events rewritten as Chat Completions chunks:
  \<open>internal/translate/claude_openai_stream.go\<close>, and the proof that its chunks keep the contract
  of \<open>Chat_Protocol\<close> when the Claude stream announces its tool blocks.
\<close>

record claudeOpenAIBlock =
  Kind :: string
  ToolIndex :: nat

record claudeOpenAIStreamState =
  Started :: bool
  Stopped :: bool
  ID :: string
  Model :: string
  InputTokens :: json
  OutputTokens :: json
  NextToolIndex :: nat
  HasToolCalls :: bool
  Blocks :: "(string \<times> claudeOpenAIBlock) list"

definition new_claude_openai_stream :: "string \<Rightarrow> claudeOpenAIStreamState" where
  "new_claude_openai_stream model =
     \<lparr>Started = False, Stopped = False, ID = ''chatcmpl-copilot'', Model = model, InputTokens = JNull,
      OutputTokens = JNull, NextToolIndex = 0, HasToolCalls = False, Blocks = []\<rparr>"

definition chunk_co :: "obj \<Rightarrow> json \<Rightarrow> obj option \<Rightarrow> claudeOpenAIStreamState \<Rightarrow> obj" where
  "chunk_co delta finishReason usage s = chunk_payload (ID s) (Model s) (JNum ''0'') delta finishReason usage"

definition start_co :: "(obj, claudeOpenAIStreamState) op" where
  "start_co s =
     (if Started s then ([], s)
      else (let s1 = s\<lparr>Started := True\<rparr> in ([chunk_co role_delta JNull None s1], s1)))"

definition block_co :: "string \<Rightarrow> string \<Rightarrow> claudeOpenAIStreamState \<Rightarrow> claudeOpenAIBlock \<times> claudeOpenAIStreamState" where
  "block_co key0 kind s =
     (let key = (if key0 = [] then kind @ '':'' @ Itoa (int (length (Blocks s))) else key0)
      in (case map_of (Blocks s) key of
            Some b \<Rightarrow> (b, s)
          | None \<Rightarrow>
              (let created = (if kind = ''tool_use'' then \<lparr>Kind = kind, ToolIndex = NextToolIndex s\<rparr> else \<lparr>Kind = kind, ToolIndex = 0\<rparr>)
               in (created, s\<lparr>NextToolIndex := (if kind = ''tool_use'' then NextToolIndex s + 1 else NextToolIndex s),
                              Blocks := alist_set key created (Blocks s)\<rparr>))))"

definition finish_co :: "string \<Rightarrow> (obj, claudeOpenAIStreamState) op" where
  "finish_co stopReason s =
     (if Stopped s then ([], s)
      else
        (let usage = mk_obj [(''prompt_tokens'', numberValue (InputTokens s)),
               (''completion_tokens'', numberValue (OutputTokens s)),
               (''total_tokens'', int64_json (int64Value (InputTokens s) + int64Value (OutputTokens s)))]
         in ([chunk_co [] (JStr (claudeFinishReason stopReason (HasToolCalls s))) (Some usage) s], s\<lparr>Stopped := True\<rparr>)))"

definition emit_text_co :: "string \<Rightarrow> string \<Rightarrow> (obj, claudeOpenAIStreamState) op" where
  "emit_text_co field v s = (if v = [] then ([], s) else ([chunk_co (text_delta field v) JNull None s], s))"

subsection \<open>One upstream event\<close>

definition set_message :: "obj \<Rightarrow> claudeOpenAIStreamState \<Rightarrow> claudeOpenAIStreamState" where
  "set_message message s =
     s\<lparr>ID := firstNonEmptyString [stringValue (fld message ''id''), ID s],
       Model := firstNonEmptyString [stringValue (fld message ''model''), Model s],
       InputTokens := fld (objectValue (fld message ''usage'')) ''input_tokens''\<rparr>"

definition message_start_co :: "obj \<Rightarrow> (obj, claudeOpenAIStreamState) op" where
  "message_start_co payload s = start_co (set_message (objectValue (fld payload ''message'')) s)"

definition tool_start :: "obj \<Rightarrow> string \<Rightarrow> (obj, claudeOpenAIStreamState) op" where
  "tool_start contentBlock key s =
     (let (b, s1) = block_co key ''tool_use'' s; s2 = s1\<lparr>HasToolCalls := True\<rparr>
      in ([chunk_co (tool_announce (ToolIndex b) (firstString contentBlock [''id'', ''tool_use_id''])
             (stringValue (fld contentBlock ''name''))) JNull None s2], s2))"

definition block_start_co :: "obj \<Rightarrow> (obj, claudeOpenAIStreamState) op" where
  "block_start_co payload s =
     (let contentBlock = objectValue (fld payload ''content_block''); key = numberKey (fld payload ''index'');
          t = stringValue (fld contentBlock ''type'')
      in if t = ''text'' then
           emit_text_co ''content'' (rawStringValue (fld contentBlock ''text'')) (snd (block_co key ''text'' s))
         else if t = ''thinking'' \<or> t = ''redacted_thinking'' then
           emit_text_co ''reasoning_content'' (rawStringValue (fld contentBlock ''thinking'')) (snd (block_co key ''thinking'' s))
         else if t = ''tool_use'' \<or> t = ''server_tool_use'' then tool_start contentBlock key s
         else ([], s))"

definition tool_delta :: "string \<Rightarrow> string \<Rightarrow> (obj, claudeOpenAIStreamState) op" where
  "tool_delta key partial s =
     (if partial = [] then ([], s)
      else
        (let (b, s1) = block_co key ''tool_use'' s; s2 = s1\<lparr>HasToolCalls := True\<rparr>
         in ([chunk_co (tool_args (ToolIndex b) partial) JNull None s2], s2)))"

definition block_delta_co :: "obj \<Rightarrow> (obj, claudeOpenAIStreamState) op" where
  "block_delta_co payload s =
     (let d = objectValue (fld payload ''delta''); key = numberKey (fld payload ''index'');
          t = stringValue (fld d ''type'')
      in if t = ''text_delta'' then emit_text_co ''content'' (rawStringValue (fld d ''text'')) s
         else if t = ''thinking_delta'' then emit_text_co ''reasoning_content'' (rawStringValue (fld d ''thinking'')) s
         else if t = ''input_json_delta'' then tool_delta key (rawStringValue (fld d ''partial_json'')) s
         else ([], s))"

definition set_output_tokens :: "obj \<Rightarrow> claudeOpenAIStreamState \<Rightarrow> claudeOpenAIStreamState" where
  "set_output_tokens payload s =
     (case map_of (objectValue (fld payload ''usage'')) ''output_tokens'' of
        Some t \<Rightarrow> s\<lparr>OutputTokens := t\<rparr> | None \<Rightarrow> s)"

definition message_delta_co :: "obj \<Rightarrow> (obj, claudeOpenAIStreamState) op" where
  "message_delta_co payload s =
     finish_co (stringValue (fld (objectValue (fld payload ''delta'')) ''stop_reason'')) (set_output_tokens payload s)"

definition claude_stream_failure :: "obj \<Rightarrow> go_error" where
  "claude_stream_failure payload =
     (let errorObject = objectValue (fld payload ''error'');
          message = firstNonEmptyString [stringValue (fld errorObject ''message''),
            stringValue (fld payload ''message''), ''unknown upstream stream error'']
      in ErrorText (''Copilot Claude stream failed: '' @ message))"

definition body_event_co :: "string \<Rightarrow> obj \<Rightarrow> (obj, claudeOpenAIStreamState) op" where
  "body_event_co event payload =
     (if event = ''message_start'' then message_start_co payload
      else if event = ''content_block_start'' then bind_out start_co (block_start_co payload)
      else if event = ''content_block_delta'' then bind_out start_co (block_delta_co payload)
      else if event = ''message_delta'' then bind_out start_co (message_delta_co payload)
      else if event = ''message_stop'' then bind_out start_co (finish_co [])
      else skip_out)"

definition claude_openai_event ::
  "string \<times> obj \<Rightarrow> claudeOpenAIStreamState \<Rightarrow> obj list res \<times> claudeOpenAIStreamState" where
  "claude_openai_event ep s =
     (let (event, payload) = ep
      in if event = ''error'' then (Inl (claude_stream_failure payload), s)
         else if event = ''ping'' then (Inr [], s)
         else (let (out, s1) = body_event_co event payload s in (Inr out, s1)))"

definition claude_openai_frame ::
  "string \<Rightarrow> claudeOpenAIStreamState \<Rightarrow> obj list res \<times> claudeOpenAIStreamState" where
  "claude_openai_frame frame s =
     (case parseSSEFrame frame of
        Inl e \<Rightarrow> (Inl e, s)
      | Inr (event, data, done) \<Rightarrow>
          (case data of
             None \<Rightarrow> (Inr [], s)
           | Some d \<Rightarrow>
               (if done \<or> d = [] then (Inr [], s)
                else
                  (case decodeObject d of
                     Inl e \<Rightarrow> (Inl (WrapQ ''decode Claude SSE event '' event e), s)
                   | Inr payload \<Rightarrow>
                       claude_openai_event (if event = [] then stringValue (fld payload ''type'') else event, payload) s))))"

definition claudeStreamToOpenAI ::
  "string \<Rightarrow> string \<Rightarrow> claudeOpenAIStreamState option option \<Rightarrow>
   string list res \<times> claudeOpenAIStreamState option option" where
  "claudeStreamToOpenAI model frame state =
     (case state of
        None \<Rightarrow> (Inl (ErrorText ''Claude-to-OpenAI stream translation requires state''), None)
      | Some cell \<Rightarrow>
          (let (r, s) = claude_openai_frame frame (case cell of Some s \<Rightarrow> s | None \<Rightarrow> new_claude_openai_stream model)
           in (case r of Inl e \<Rightarrow> Inl e | Inr out \<Rightarrow> Inr (map (\<lambda>p. encode (JObj p)) out), Some (Some s))))"

subsection \<open>The relation to the reader\<close>

definition is_tool :: "claudeOpenAIBlock \<Rightarrow> bool" where
  "is_tool b \<longleftrightarrow> Kind b = ''tool_use''"

definition co_rel :: "claudeOpenAIStreamState \<Rightarrow> chat_client \<Rightarrow> bool" where
  "co_rel s c \<longleftrightarrow>
     ch_started c = Started s \<and> ch_finished c = Stopped s \<and>
     (\<forall>i. i \<in> set (ch_tools c) \<longleftrightarrow> marked ToolIndex is_tool (Blocks s) i) \<and>
     (\<forall>i \<in> set (ch_tools c). i < NextToolIndex s)"

text \<open>The Claude stream announces its tools: a \<open>content_block_start\<close> names a new block, an
  \<open>input_json_delta\<close> a tool block that was started.\<close>

definition announced :: "claudeOpenAIStreamState \<Rightarrow> string \<times> obj \<Rightarrow> bool" where
  "announced s ep \<longleftrightarrow>
     (let (event, payload) = ep; key = numberKey (fld payload ''index'')
      in (event = ''content_block_start'' \<longrightarrow> key \<noteq> [] \<and> map_of (Blocks s) key = None) \<and>
         (event = ''content_block_delta'' \<longrightarrow>
            stringValue (fld (objectValue (fld payload ''delta'')) ''type'') = ''input_json_delta'' \<longrightarrow>
            key \<noteq> [] \<and> (case map_of (Blocks s) key of Some b \<Rightarrow> is_tool b | None \<Rightarrow> False)))"

lemma co_rel_init: "co_rel (new_claude_openai_stream model) chat0"
  by (simp add: co_rel_def new_claude_openai_stream_def chat0_def)

lemma start_co_sim: "simulates (chat_step False) co_rel P start_co"
  by (rule simulatesI) (auto simp: start_co_def Let_def chunk_co_def chat_step_simps co_rel_def)

lemma start_co_state [simp]:
  "Started (snd (start_co s))" "Blocks (snd (start_co s)) = Blocks s"
  by (simp_all add: start_co_def Let_def)

lemma finish_co_sim: "simulates (chat_step False) co_rel (\<lambda>s. Started s) (finish_co reason)"
  by (rule simulatesI) (auto simp: finish_co_def Let_def chunk_co_def chat_step_simps co_rel_def)

lemma emit_text_co_sim:
  "field \<in> {''content'', ''refusal'', ''reasoning_content''} \<Longrightarrow>
   simulates (chat_step False) co_rel (\<lambda>s. Started s) (emit_text_co field v)"
  by (rule simulatesI) (auto simp: emit_text_co_def chunk_co_def chat_step_simps co_rel_def)

lemma block_co_old: "key \<noteq> [] \<Longrightarrow> map_of (Blocks s) key = Some b \<Longrightarrow> block_co key kind s = (b, s)"
  by (simp add: block_co_def)

lemma block_co_new:
  "key \<noteq> [] \<Longrightarrow> map_of (Blocks s) key = None \<Longrightarrow>
   block_co key kind s =
     (let created = \<lparr>Kind = kind, ToolIndex = (if kind = ''tool_use'' then NextToolIndex s else 0)\<rparr>
      in (created, s\<lparr>NextToolIndex := (if kind = ''tool_use'' then NextToolIndex s + 1 else NextToolIndex s),
                     Blocks := alist_set key created (Blocks s)\<rparr>))"
  by (simp add: block_co_def Let_def)

lemma other_block_rel:
  assumes "co_rel s c" "key \<noteq> []" "map_of (Blocks s) key = None" "kind \<noteq> ''tool_use''"
  shows "co_rel (snd (block_co key kind s)) c \<and> Started (snd (block_co key kind s)) = Started s"
proof -
  have "\<not> is_tool \<lparr>Kind = kind, ToolIndex = 0\<rparr>" using assms(4) by (simp add: is_tool_def)
  from marked_add [where mark = is_tool and idx = ToolIndex, OF assms(3) this] assms show ?thesis
    by (simp add: block_co_new Let_def co_rel_def)
qed

lemma marked_add_on:
  assumes "map_of m k = None" "mark b"
  shows "marked idx mark (alist_set k b m) i \<longleftrightarrow> i = idx b \<or> marked idx mark m i"
proof -
  have "map_of (alist_set k b m) j = Some c \<longleftrightarrow> (j = k \<and> c = b) \<or> map_of m j = Some c" for j c
    using assms(1) by auto
  then show ?thesis unfolding marked_def using assms(2) by auto
qed

lemma tool_start_step:
  assumes "co_rel s c" "Started s" "key \<noteq> []" "map_of (Blocks s) key = None"
  shows "\<exists>c'. accepts (chat_step False) c (fst (tool_start cb key s)) = Some c' \<and> co_rel (snd (tool_start cb key s)) c'"
proof -
  let ?n = "NextToolIndex s" and ?b = "\<lparr>Kind = ''tool_use'', ToolIndex = NextToolIndex s\<rparr>"
  have "?n \<notin> set (ch_tools c)" using assms(1) by (auto simp: co_rel_def)
  moreover have "marked ToolIndex is_tool (alist_set key ?b (Blocks s)) i \<longleftrightarrow> i = ?n \<or> marked ToolIndex is_tool (Blocks s) i" for i
    using marked_add_on [OF assms(4), of is_tool ?b ToolIndex] by (simp add: is_tool_def)
  ultimately show ?thesis
    using assms by (auto simp: tool_start_def block_co_new Let_def chunk_co_def chat_step_simps co_rel_def less_Suc_eq)
qed

lemma block_start_co_step:
  assumes "co_rel s c" "Started s" "announced s (''content_block_start'', payload)"
  shows "\<exists>c'. accepts (chat_step False) c (fst (block_start_co payload s)) = Some c' \<and> co_rel (snd (block_start_co payload s)) c'"
proof -
  let ?key = "numberKey (fld payload ''index'')"
  have key: "?key \<noteq> []" "map_of (Blocks s) ?key = None"
    using assms(3) by (simp_all add: announced_def Let_def)
  have emit: "\<exists>c'. accepts (chat_step False) c (fst (emit_text_co field v (snd (block_co ?key kind s)))) = Some c' \<and>
      co_rel (snd (emit_text_co field v (snd (block_co ?key kind s)))) c'"
    if "field \<in> {''content'', ''refusal'', ''reasoning_content''}" "kind \<noteq> ''tool_use''" for field v kind
    using simulatesD [OF emit_text_co_sim [OF that(1)]] other_block_rel [OF assms(1) key that(2)] assms(2) by blast
  show ?thesis
    using emit [of "''content''" "''text''"] emit [of "''reasoning_content''" "''thinking''"]
      tool_start_step [OF assms(1,2) key] assms(1)
    by (simp add: block_start_co_def Let_def)
qed

lemma tool_delta_co_step:
  assumes "co_rel s c" "Started s" "key \<noteq> []" "map_of (Blocks s) key = Some b" "is_tool b"
  shows "\<exists>c'. accepts (chat_step False) c (fst (tool_delta key v s)) = Some c' \<and> co_rel (snd (tool_delta key v s)) c'"
proof -
  have "marked ToolIndex is_tool (Blocks s) (ToolIndex b)" using assms(4,5) by (rule markedI)
  with assms show ?thesis
    by (simp add: tool_delta_def block_co_old chunk_co_def chat_step_simps co_rel_def)
qed

lemma block_delta_co_step:
  assumes "co_rel s c" "Started s" "announced s (''content_block_delta'', payload)"
  shows "\<exists>c'. accepts (chat_step False) c (fst (block_delta_co payload s)) = Some c' \<and> co_rel (snd (block_delta_co payload s)) c'"
proof (cases "stringValue (fld (objectValue (fld payload ''delta'')) ''type'') = ''input_json_delta''")
  case True
  with assms(3) obtain b where "numberKey (fld payload ''index'') \<noteq> []"
    "map_of (Blocks s) (numberKey (fld payload ''index'')) = Some b" "is_tool b"
    by (auto simp: announced_def Let_def split: option.splits)
  from tool_delta_co_step [OF assms(1,2) this] True show ?thesis by (simp add: block_delta_co_def Let_def)
next
  case False
  then show ?thesis
    using simulatesD [OF emit_text_co_sim assms(1,2)] assms(1) by (simp add: block_delta_co_def Let_def)
qed

lemma bind_start:
  assumes "co_rel s c"
    and "\<And>s' c'. co_rel s' c' \<Longrightarrow> Started s' \<Longrightarrow> Blocks s' = Blocks s \<Longrightarrow>
      \<exists>c2. accepts (chat_step False) c' (fst (g s')) = Some c2 \<and> co_rel (snd (g s')) c2"
  shows "\<exists>c2. accepts (chat_step False) c (fst (bind_out start_co g s)) = Some c2 \<and> co_rel (snd (bind_out start_co g s)) c2"
proof -
  obtain c1 where c1: "accepts (chat_step False) c (fst (start_co s)) = Some c1" "co_rel (snd (start_co s)) c1"
    using simulatesD [OF start_co_sim assms(1)] by blast
  from assms(2) [OF c1(2)] c1(1) show ?thesis
    by (auto simp: bind_out_def accepts_append split: prod.split)
qed

lemma body_event_co_step:
  assumes "co_rel s c" "announced s (event, payload)"
  shows "\<exists>c'. accepts (chat_step False) c (fst (body_event_co event payload s)) = Some c' \<and>
    co_rel (snd (body_event_co event payload s)) c'"
proof -
  have ann: "announced s' ep = announced s ep" if "Blocks s' = Blocks s" for s' ep
    by (simp add: announced_def that)
  have "co_rel (set_message m s) c" for m
    using assms(1) by (simp add: co_rel_def set_message_def)
  then have msg: "\<exists>c'. accepts (chat_step False) c (fst (message_start_co payload s)) = Some c' \<and>
      co_rel (snd (message_start_co payload s)) c'"
    unfolding message_start_co_def using simulatesD [OF start_co_sim] by blast
  have "co_rel (set_output_tokens payload s') c' \<and> Started (set_output_tokens payload s') = Started s'"
    if "co_rel s' c'" for s' c'
    using that by (auto simp: co_rel_def set_output_tokens_def split: option.split)
  then have delta: "\<exists>c2. accepts (chat_step False) c' (fst (message_delta_co payload s')) = Some c2 \<and>
      co_rel (snd (message_delta_co payload s')) c2"
    if "co_rel s' c'" "Started s'" for s' c'
    unfolding message_delta_co_def using simulatesD [OF finish_co_sim] that by blast
  consider "event = ''message_start''" | "event = ''content_block_start''" | "event = ''content_block_delta''"
    | "event = ''message_delta''" | "event = ''message_stop''" | "body_event_co event payload = skip_out"
    unfolding body_event_co_def by presburger
  then show ?thesis
  proof cases
    case 1
    with msg show ?thesis by (simp add: body_event_co_def)
  next
    case 2
    then have here: "announced s (''content_block_start'', payload)" using assms(2) by (simp only:)
    have "\<exists>c2. accepts (chat_step False) c (fst (bind_out start_co (block_start_co payload) s)) = Some c2 \<and>
        co_rel (snd (bind_out start_co (block_start_co payload) s)) c2"
      by (rule bind_start [OF assms(1)], erule block_start_co_step, assumption, subst ann, assumption, rule here)
    with 2 show ?thesis by (simp add: body_event_co_def)
  next
    case 3
    then have here: "announced s (''content_block_delta'', payload)" using assms(2) by (simp only:)
    have "\<exists>c2. accepts (chat_step False) c (fst (bind_out start_co (block_delta_co payload) s)) = Some c2 \<and>
        co_rel (snd (bind_out start_co (block_delta_co payload) s)) c2"
      by (rule bind_start [OF assms(1)], erule block_delta_co_step, assumption, subst ann, assumption, rule here)
    with 3 show ?thesis by (simp add: body_event_co_def)
  next
    case 4
    have "\<exists>c2. accepts (chat_step False) c (fst (bind_out start_co (message_delta_co payload) s)) = Some c2 \<and>
        co_rel (snd (bind_out start_co (message_delta_co payload) s)) c2"
      by (rule bind_start [OF assms(1)], rule delta)
    with 4 show ?thesis by (simp add: body_event_co_def)
  next
    case 5
    have "\<exists>c2. accepts (chat_step False) c (fst (bind_out start_co (finish_co []) s)) = Some c2 \<and>
        co_rel (snd (bind_out start_co (finish_co []) s)) c2"
      by (rule bind_start [OF assms(1)], rule simulatesD [OF finish_co_sim])
    with 5 show ?thesis by (simp add: body_event_co_def)
  next
    case 6
    with assms(1) show ?thesis by (simp add: skip_out_def)
  qed
qed

lemma claude_openai_event_sim:
  assumes "co_rel s c" "announced s ep" "claude_openai_event ep s = (Inr out, s')"
  shows "\<exists>c'. accepts (chat_step False) c out = Some c' \<and> co_rel s' c'"
proof -
  obtain event payload where ep: "ep = (event, payload)" by fastforce
  from assms(3) consider "out = []" "s' = s" | "(out, s') = body_event_co event payload s"
    by (auto simp: claude_openai_event_def ep split: if_splits prod.splits)
  then show ?thesis
  proof cases
    case 1
    with assms(1) show ?thesis by simp
  next
    case 2
    with body_event_co_step [OF assms(1) assms(2) [unfolded ep]] show ?thesis by (metis fst_conv snd_conv)
  qed
qed

subsection \<open>Streams that announce their tools\<close>

text \<open>A condition on the events alone: a \<open>content_block_start\<close> has an index that is not in use,
  an \<open>input_json_delta\<close> the index of a tool block that was started. \<open>seen\<close> are the indices so far, with
  whether they are of tools.\<close>

fun announces :: "(string \<times> bool) list \<Rightarrow> (string \<times> obj) list \<Rightarrow> bool" where
  "announces seen [] = True"
| "announces seen ((event, payload) # events) =
     (let key = numberKey (fld payload ''index'');
          kind = stringValue (fld (objectValue (fld payload ''content_block'')) ''type'')
      in if event = ''content_block_start'' then
           key \<noteq> [] \<and> map_of seen key = None \<and>
           announces ((key, kind = ''tool_use'' \<or> kind = ''server_tool_use'') # seen) events
         else if event = ''content_block_delta'' \<and>
             stringValue (fld (objectValue (fld payload ''delta'')) ''type'') = ''input_json_delta'' then
           key \<noteq> [] \<and> map_of seen key = Some True \<and> announces seen events
         else announces seen events)"

definition seen_rel :: "(string \<times> bool) list \<Rightarrow> claudeOpenAIStreamState \<Rightarrow> bool" where
  "seen_rel seen s \<longleftrightarrow>
     (\<forall>k. map_of seen k = None \<longrightarrow> map_of (Blocks s) k = None) \<and>
     (\<forall>k. map_of seen k = Some True \<longrightarrow> (\<exists>b. map_of (Blocks s) k = Some b \<and> is_tool b))"

lemma Blocks_ops [simp]:
  "Blocks (snd (emit_text_co field v s)) = Blocks s" "Blocks (snd (finish_co r s)) = Blocks s"
  "Blocks (snd (message_start_co payload s)) = Blocks s" "Blocks (set_output_tokens payload s) = Blocks s"
  "Blocks (snd (message_delta_co payload s)) = Blocks s"
  by (simp_all add: emit_text_co_def finish_co_def message_start_co_def start_co_def set_message_def set_output_tokens_def
      message_delta_co_def Let_def split: option.split)

lemma Blocks_bind [simp]: "Blocks (snd (bind_out start_co g s)) = Blocks (snd (g (snd (start_co s))))"
  by (simp add: bind_out_def split: prod.split)

lemma seen_start:
  assumes "seen_rel seen s" "numberKey (fld payload ''index'') = key" "key \<noteq> []" "map_of seen key = None"
    and "stringValue (fld (objectValue (fld payload ''content_block'')) ''type'') = kind"
  shows "seen_rel ((key, kind = ''tool_use'' \<or> kind = ''server_tool_use'') # seen) (snd (block_start_co payload s))"
proof -
  have new: "map_of (Blocks s) key = None" using assms(1,4) by (simp add: seen_rel_def)
  have old: "map_of seen k = None \<Longrightarrow> map_of (Blocks s) k = None"
    "map_of seen k = Some True \<Longrightarrow> \<exists>b. map_of (Blocks s) k = Some b \<and> is_tool b" for k
    using assms(1) by (simp_all add: seen_rel_def)
  show ?thesis
    using assms(2,3,5) old
    by (auto simp: seen_rel_def block_start_co_def tool_start_def block_co_new [OF assms(3) new] is_tool_def Let_def split: if_splits)
qed

lemma seen_delta:
  assumes "seen_rel seen s"
    and "stringValue (fld (objectValue (fld payload ''delta'')) ''type'') = ''input_json_delta'' \<Longrightarrow>
      numberKey (fld payload ''index'') \<noteq> [] \<and> map_of seen (numberKey (fld payload ''index'')) = Some True"
  shows "Blocks (snd (block_delta_co payload s)) = Blocks s"
proof -
  have "Blocks (snd (tool_delta key v s)) = Blocks s" if "key \<noteq> []" "map_of seen key = Some True" for key v
    using assms(1) that by (auto simp: seen_rel_def tool_delta_def block_co_old Let_def)
  with assms(2) show ?thesis by (simp add: block_delta_co_def Let_def)
qed

lemma announces_step:
  assumes "announces seen (ep # events)" "seen_rel seen s"
  shows "announced s ep \<and>
    (\<forall>out s'. claude_openai_event ep s = (Inr out, s') \<longrightarrow> (\<exists>seen'. announces seen' events \<and> seen_rel seen' s'))"
proof -
  obtain event payload where ep: "ep = (event, payload)" by fastforce
  let ?key = "numberKey (fld payload ''index'')"
    and ?kind = "stringValue (fld (objectValue (fld payload ''content_block'')) ''type'')"
  have blocks: "seen_rel seen' s'" if "Blocks s' = Blocks s2" "seen_rel seen' s2" for seen' s' s2
    using that by (simp add: seen_rel_def)
  have here: "announced s ep"
    using assms by (auto simp: ep announced_def seen_rel_def Let_def split: if_splits)
  have out: "claude_openai_event ep s = (Inr out, s') \<Longrightarrow> s' = s \<or> s' = snd (body_event_co event payload s)" for out s'
    by (auto simp: ep claude_openai_event_def split: if_splits prod.splits)
  consider (start) "event = ''content_block_start''"
    | (partial) "event = ''content_block_delta''" | (other) "event \<noteq> ''content_block_start''" "event \<noteq> ''content_block_delta''"
    by blast
  then show ?thesis
  proof cases
    case start
    have "claude_openai_event ep s = (Inr out, s') \<Longrightarrow>
        seen_rel ((?key, ?kind = ''tool_use'' \<or> ?kind = ''server_tool_use'') # seen) s'" for out s'
      using seen_start [OF blocks [OF start_co_state(2) assms(2)] refl _ _ refl, of payload] assms(1)
      by (auto simp: ep start claude_openai_event_def body_event_co_def bind_out_def Let_def split: prod.splits)
    with here assms(1) show ?thesis by (auto simp: ep start Let_def)
  next
    case partial
    have rest: "announces seen events" using assms(1) by (auto simp: ep partial Let_def split: if_splits)
    have "Blocks (snd (block_delta_co payload (snd (start_co s)))) = Blocks s"
      using seen_delta [OF blocks [OF start_co_state(2) assms(2)], of payload] assms(1)
      by (auto simp: ep partial Let_def split: if_splits)
    then have "Blocks (snd (body_event_co event payload s)) = Blocks s" by (simp add: partial body_event_co_def)
    with out here rest show ?thesis using blocks [OF _ assms(2)] by metis
  next
    case other
    have rest: "announces seen events" using assms(1) other by (simp add: ep Let_def)
    have "Blocks (snd (body_event_co event payload s)) = Blocks s"
      using other by (simp add: body_event_co_def skip_out_def)
    with out here rest show ?thesis using blocks [OF _ assms(2)] by metis
  qed
qed

lemma seen_rel_init: "seen_rel [] (new_claude_openai_stream model)"
  by (simp add: seen_rel_def new_claude_openai_stream_def)

text \<open>The stream is finished by \<open>message_stop\<close> at the latest, and stays so.\<close>

lemma stopped_ops:
  "Stopped s \<Longrightarrow> Stopped (snd (start_co s))" "Stopped s \<Longrightarrow> Stopped (snd (block_co key kind s))"
  "Stopped (snd (finish_co r s))" "Stopped s \<Longrightarrow> Stopped (snd (emit_text_co field v s))"
  by (simp_all add: start_co_def block_co_def finish_co_def emit_text_co_def Let_def split: option.split)

lemma stopped_event:
  assumes "claude_openai_event (event, payload) s = (Inr out, s')" "Stopped s \<or> event = ''message_stop''"
  shows "Stopped s'"
proof -
  have delta: "Stopped s \<Longrightarrow> Stopped (snd (tool_delta key v s))" for key v s
    using stopped_ops(2) [of s key "''tool_use''"] by (auto simp: tool_delta_def Let_def split: prod.split)
  have start: "Stopped s \<Longrightarrow> Stopped (snd (tool_start cb key s))" for key cb s
    using stopped_ops(2) [of s key "''tool_use''"] by (auto simp: tool_start_def Let_def split: prod.split)
  have "Stopped s \<Longrightarrow> Stopped (snd (block_start_co payload s))" "Stopped s \<Longrightarrow> Stopped (snd (block_delta_co payload s))"
    "Stopped (snd (message_delta_co payload s))" "Stopped s \<Longrightarrow> Stopped (snd (message_start_co payload s))" for s
    by (simp_all add: block_start_co_def block_delta_co_def message_delta_co_def message_start_co_def set_message_def
        stopped_ops delta start Let_def)
  then show ?thesis
    using assms
    by (auto simp: claude_openai_event_def body_event_co_def bind_out_def skip_out_def stopped_ops split: if_splits prod.splits)
      (metis snd_conv stopped_ops)+
qed

end
