(* ===== verification/Json_Wf.thy ===== *)
theory Json_Wf
  imports Values
begin

text \<open>
  What the decoder and the accessors produce can be printed and read back: strings are valid UTF-8
  (invalid bytes and lone surrogates are replaced), numbers are JSON literals, maps are sorted. The
  streams rest on this: what they print is what their client reads.
\<close>

subsection \<open>UTF-8\<close>

lemma valid_utf8_Nil [simp]: "valid_utf8 []"
  by (simp add: valid_utf8.simps)

lemma valid_utf8_step: "s \<noteq> [] \<Longrightarrow> valid_utf8 s \<longleftrightarrow> rune_len s \<noteq> 0 \<and> valid_utf8 (drop (rune_len s) s)"
  by (subst valid_utf8.simps) simp

lemma rune_len_append: "rune_len s \<noteq> 0 \<Longrightarrow> rune_len (s @ t) = rune_len s"
proof -
  assume r: "rune_len s \<noteq> 0"
  consider "s = []" | a where "s = [a]" | a b where "s = [a, b]" | a b c where "s = [a, b, c]"
    | a b c d u where "s = a # b # c # d # u"
    by (metis neq_Nil_conv)
  then show ?thesis using r by cases (simp_all add: rune_len.simps Let_def split: if_splits)
qed

lemma valid_utf8_append: "valid_utf8 s \<Longrightarrow> valid_utf8 t \<Longrightarrow> valid_utf8 (s @ t)"
proof (induction s rule: valid_utf8.induct)
  case (1 s)
  show ?case
  proof (cases "s = []")
    case False
    with 1(2) have r: "rune_len s \<noteq> 0" "valid_utf8 (drop (rune_len s) s)" by (simp_all add: valid_utf8_step)
    with 1(1) False 1(3) have "valid_utf8 (drop (rune_len s) s @ t)" by blast
    moreover have "drop (rune_len (s @ t)) (s @ t) = drop (rune_len s) s @ t"
      using rune_len_append [OF r(1), of t] rune_len_le [of s] by simp
    ultimately show ?thesis using False r(1) rune_len_append [OF r(1), of t] by (simp add: valid_utf8_step)
  qed (simp add: 1)
qed

text \<open>One rune of the given bytes.\<close>

lemma valid_rune: "rune_len s = length s \<Longrightarrow> valid_utf8 s"
  by (cases "s = []") (simp_all add: valid_utf8_step)

lemma valid_ascii: "byte c < 128 \<Longrightarrow> valid_utf8 [c]"
  by (rule valid_rune) (simp add: rune_len_ascii)

lemma valid_ascii_Cons: "byte c < 128 \<Longrightarrow> valid_utf8 (c # s) = valid_utf8 s"
  by (subst valid_utf8_step) (simp_all add: rune_len_ascii)

lemma byte_char_of [simp]: "n < 256 \<Longrightarrow> byte (char_of n) = n"
  by (simp add: byte_def)

lemma replacement_utf8: "valid_utf8 replacement"
  by (rule valid_rune) (simp add: replacement_def rune_len.simps cont_byte_def byte_def)

lemma cont_char [simp]: "(n :: nat) < 64 \<Longrightarrow> cont_byte (char_of (128 + n))"
  by (simp add: cont_byte_def)

lemma utf8_encode_valid:
  assumes "n < 1114112" "\<not> (55296 \<le> n \<and> n \<le> 57343)"
  shows "valid_utf8 (utf8_encode n)"
proof (rule valid_rune)
  consider "n < 128" | "128 \<le> n" "n < 2048" | "2048 \<le> n" "n < 65536" | "65536 \<le> n" by linarith
  then show "rune_len (utf8_encode n) = length (utf8_encode n)"
  proof cases
    case 1
    then show ?thesis by (simp add: utf8_encode_def rune_len_ascii)
  next
    case 2
    then have "n div 64 < 32" "2 \<le> n div 64" by linarith+
    with 2 show ?thesis by (simp add: utf8_encode_def rune_len.simps)
  next
    case 3
    define k where "k = n div 64"
    have d: "n div 4096 = k div 64" by (simp add: k_def div_mult2_eq [symmetric])
    have k: "k = 64 * (k div 64) + k mod 64" by simp
    have b: "n div 4096 < 16" using 3 by linarith
    have m: "n div 64 mod 64 < 64" "n mod 64 < 64" by simp_all
    have "32 \<le> k" using 3 by (simp add: k_def)
    then have low: "n div 4096 = 0 \<Longrightarrow> 32 \<le> n div 64 mod 64"
      using k unfolding d k_def [symmetric] by linarith
    have "k < 864 \<or> 896 \<le> k" using assms(2) unfolding k_def by linarith
    then have high: "n div 4096 = 13 \<Longrightarrow> n div 64 mod 64 \<le> 31"
      using k m(1) unfolding d k_def [symmetric] by linarith
    from 3 b m low high show ?thesis by (simp add: utf8_encode_def rune_len.simps Let_def)
  next
    case 4
    define k where "k = n div 4096"
    have d: "n div 262144 = k div 64" by (simp add: k_def div_mult2_eq [symmetric])
    have k: "k = 64 * (k div 64) + k mod 64" by simp
    have b: "n div 262144 < 5" using assms(1) by linarith
    have m: "n div 4096 mod 64 < 64" "n div 64 mod 64 < 64" "n mod 64 < 64" by simp_all
    have "16 \<le> k" "k < 272" using 4 assms(1) unfolding k_def by linarith+
    then have low: "n div 262144 = 0 \<Longrightarrow> 16 \<le> n div 4096 mod 64"
      and high: "n div 262144 = 4 \<Longrightarrow> n div 4096 mod 64 \<le> 15"
      using k unfolding d k_def [symmetric] by linarith+
    from 4 b m low high show ?thesis by (simp add: utf8_encode_def rune_len.simps Let_def)
  qed
qed

subsection \<open>The decoder\<close>

lemma hex_val_lt: "hex_val c = Some x \<Longrightarrow> x < 16"
  by (auto simp: hex_val_def Let_def split: if_splits)

lemma hex4_lt: "hex4 s = Some n \<Longrightarrow> n < 65536"
proof (induction s rule: hex4.induct)
  case (1 a b c d u)
  then obtain w x y z where v: "hex_val a = Some w" "hex_val b = Some x" "hex_val c = Some y" "hex_val d = Some z"
    "n = 4096 * w + 256 * x + 16 * y + z"
    by (auto split: option.splits)
  with v(1-4) [THEN hex_val_lt] show ?case by linarith
qed simp_all

lemma hex_rune_valid: "hex_rune r = Some (t, k) \<Longrightarrow> valid_utf8 t"
proof -
  have pair: "65536 + (n - 55296) * 1024 + (m - 56320) < (1114112::nat)" "\<not> 65536 + (n - 55296) * 1024 + (m - 56320) \<le> (57343::nat)"
    if "55296 \<le> n" "n < 56320" "56320 \<le> m" "m \<le> 57343" for n m
    using that by linarith+
  assume "hex_rune r = Some (t, k)"
  then show "valid_utf8 t"
    using hex4_lt [of r] by (auto simp: hex_rune_def intro!: utf8_encode_valid replacement_utf8 dest: pair split: option.splits if_splits)
qed

lemma unescape_valid: "unescape e = Some x \<Longrightarrow> valid_utf8 u \<Longrightarrow> valid_utf8 (x # u)"
  by (subst valid_ascii_Cons) (auto simp: unescape_def byte_def split: if_splits)

lemma take_rune_valid: "valid_utf8 (take (rune_len s) s)"
proof (cases "rune_len s = 0")
  case False
  then have "rune_len (take (rune_len s) s @ []) = rune_len s" by (rule rune_len_take)
  then show ?thesis using rune_len_le [of s] by (intro valid_rune) simp
qed simp

lemma unquote_valid: "unquote s = Some (t, r) \<Longrightarrow> valid_utf8 t"
proof (induction s arbitrary: t r rule: unquote.induct)
  case (2 c s)
  from 2(5) show ?case
    by (auto simp: add_text_def intro!: valid_utf8_append replacement_utf8 take_rune_valid
        intro: hex_rune_valid unescape_valid 2(1-4) split: if_splits list.splits option.splits)
qed simp

text \<open>Numbers: what is read as a number reads as the same number on its own.\<close>

lemma digits1_digit: "digits1 s = Some (c # d, r) \<Longrightarrow> is_digit c"
proof -
  assume "digits1 s = Some (c # d, r)"
  then have "takeWhile is_digit s = c # d" by (auto simp: digits1_def Let_def split: if_splits)
  then have "c \<in> set (takeWhile is_digit s)" by simp
  then show "is_digit c" by (auto dest: set_takeWhileD)
qed

lemma digits1_some [simp]: "digits1 s \<noteq> Some ([], r)"
  by (simp add: digits1_def Let_def)

lemma digits1_again:
  assumes "digits1 s = Some (d, r)" "\<And>c u. t = c # u \<Longrightarrow> \<not> is_digit c"
  shows "digits1 (d @ t) = Some (d, t)"
proof -
  from assms(1) have d: "\<And>c. c \<in> set d \<Longrightarrow> is_digit c" "d \<noteq> []"
    by (auto simp: digits1_def Let_def dest: set_takeWhileD split: if_splits)
  have "takeWhile is_digit t = []" "dropWhile is_digit t = t" using assms(2) by (cases t; simp)+
  with d show ?thesis by (simp add: digits1_def Let_def takeWhile_append2 dropWhile_append2)
qed

lemma num_exp_front: "num_exp s = Some (e, r) \<Longrightarrow> e = c # u \<Longrightarrow> c = CHR ''e'' \<or> c = CHR ''E''"
  by (auto simp: num_exp_def split: list.splits if_splits)

lemma num_frac_front: "num_frac s = Some (f, r) \<Longrightarrow> f = c # u \<Longrightarrow> c = CHR ''.''"
  by (auto simp: num_frac_def split: list.splits if_splits)

lemma marks_no_digits: "\<not> is_digit (CHR ''e'')" "\<not> is_digit (CHR ''E'')" "\<not> is_digit (CHR ''.'')"
  by (simp_all add: is_digit_def byte_def)

lemma num_int_again:
  assumes "num_int s = Some (i, r)" "\<And>c u. t = c # u \<Longrightarrow> \<not> is_digit c"
  shows "num_int (i @ t) = Some (i, t)"
proof (cases "i = ''0''")
  case False
  then obtain a where a: "digits1 a = Some (i, r)" "s = a" "hd s \<noteq> CHR ''0''"
    using assms(1) by (auto simp: num_int_def split: list.splits if_splits)
  then have "i \<noteq> []" "s = i @ r" by (auto simp: digits1_def Let_def split: if_splits)
  then obtain c u where c: "i = c # u" "c \<noteq> CHR ''0''" using a(3) by (cases i) auto
  with digits1_again [OF a(1) assms(2)] show ?thesis by (simp add: num_int_def)
qed (simp add: num_int_def)

lemma num_frac_again:
  assumes "num_frac s = Some (f, r)" "\<And>c u. t = c # u \<Longrightarrow> c = CHR ''e'' \<or> c = CHR ''E''"
  shows "num_frac (f @ t) = Some (f, t)"
proof (cases f)
  case Nil
  with assms(2) show ?thesis by (cases t) (auto simp: num_frac_def)
next
  case (Cons c d)
  then obtain s' where d: "digits1 s' = Some (d, r)" "c = CHR ''.''"
    using assms(1) by (auto simp: num_frac_def split: list.splits if_splits)
  have "digits1 (d @ t) = Some (d, t)"
    by (rule digits1_again [OF d(1)]) (use assms(2) marks_no_digits in blast)
  with Cons d show ?thesis by (simp add: num_frac_def)
qed

lemma num_exp_again:
  assumes "num_exp s = Some (e, r)"
  shows "num_exp e = Some (e, [])"
proof (cases e)
  case (Cons c u)
  have self: "digits1 x = Some (d, y) \<Longrightarrow> digits1 d = Some (d, [])" for x d y
    using digits1_again [of x d y "[]"] by simp
  have signs: "c \<noteq> CHR ''+'' \<and> c \<noteq> CHR ''-''" if "digits1 x = Some (c # d, y)" for x c d y
    using digits1_digit [of x c d y] that by (auto simp: is_digit_def byte_def)
  from assms Cons show ?thesis
    by (auto simp: num_exp_def self split: list.splits if_splits dest: signs)
qed (simp add: num_exp_def)

lemma num_unsigned_again:
  assumes "num_unsigned s = Some (n, r)"
  shows "num_unsigned n = Some (n, [])"
proof -
  from assms obtain i r1 f r2 e r3 where
    i: "num_int s = Some (i, r1)" and f: "num_frac r1 = Some (f, r2)" and e: "num_exp r2 = Some (e, r3)"
    and n: "n = i @ f @ e"
    by (auto simp: num_unsigned_def split: option.splits)
  have "num_int (i @ f @ e) = Some (i, f @ e)"
    by (rule num_int_again [OF i])
      (use num_frac_front [OF f] num_exp_front [OF e] marks_no_digits in \<open>auto simp: append_eq_Cons_conv\<close>)
  moreover have "num_frac (f @ e) = Some (f, e)"
    by (rule num_frac_again [OF f]) (use num_exp_front [OF e] in blast)
  ultimately show ?thesis using num_exp_again [OF e] by (simp add: num_unsigned_def n)
qed

lemma num_unsigned_front: "num_unsigned s = Some (n, r) \<Longrightarrow> \<exists>c u. n = c # u \<and> c \<noteq> CHR ''-''"
proof -
  assume "num_unsigned s = Some (n, r)"
  then obtain i r1 u where i: "num_int s = Some (i, r1)" "n = i @ u"
    by (auto simp: num_unsigned_def split: option.splits)
  have "\<exists>c v. i = c # v \<and> is_digit c"
  proof (cases "i = ''0''")
    case False
    then have d: "digits1 s = Some (i, r1)" using i(1) by (auto simp: num_int_def split: list.splits if_splits)
    then have "i \<noteq> []" by (auto simp: digits1_def Let_def split: if_splits)
    with digits1_digit d show ?thesis by (cases i) auto
  qed (simp add: is_digit_def byte_def)
  with i(2) show ?thesis by (auto simp: is_digit_def byte_def)
qed

lemma number_again: "number s = Some (n, r) \<Longrightarrow> number n = Some (n, [])"
proof -
  assume "number s = Some (n, r)"
  then consider m where "n = CHR ''-'' # m" "\<exists>x y. num_unsigned x = Some (m, y)" | "num_unsigned s = Some (n, r)"
    by (auto simp: number_def split: list.splits if_splits)
  then show ?thesis
  proof cases
    case 1
    then show ?thesis using num_unsigned_again by (auto simp: number_def)
  next
    case 2
    then obtain c u where "n = c # u" "c \<noteq> CHR ''-''" using num_unsigned_front by blast
    with num_unsigned_again [OF 2] show ?thesis by (simp add: number_def)
  qed
qed

lemma nat_text_front: "0 < n \<Longrightarrow> hd (nat_text n) \<noteq> CHR ''0''"
proof (induction n rule: nat_text.induct)
  case (1 n)
  show ?case
  proof (cases "n < 10")
    case True
    with 1(2) have "digit_val (digit_char n) \<noteq> digit_val (CHR ''0'')"
      by (simp add: digit_val_char) (simp add: digit_val_def byte_def)
    with True show ?thesis by (auto simp: nat_text.simps [of n])
  next
    case False
    with 1 nat_text_digits [of "n div 10"] show ?thesis by (simp add: nat_text.simps [of n])
  qed
qed

lemma digits_number:
  assumes "list_all is_digit s" "s \<noteq> []" "s = ''0'' \<or> hd s \<noteq> CHR ''0''"
  shows "num_unsigned s = Some (s, [])"
proof -
  have "takeWhile is_digit s = s" "dropWhile is_digit s = []"
    using assms(1) by (simp_all add: takeWhile_eq_all_conv dropWhile_eq_Nil_conv list_all_iff)
  then have "num_int s = Some (s, [])"
    using assms(2,3) by (cases s) (auto simp: num_int_def digits1_def Let_def)
  then show ?thesis by (simp add: num_unsigned_def num_frac_def num_exp_def)
qed

lemma number_digits:
  assumes "list_all is_digit s" "s \<noteq> []" "s = ''0'' \<or> hd s \<noteq> CHR ''0''"
  shows "number s = Some (s, [])" "number (CHR ''-'' # s) = Some (CHR ''-'' # s, [])"
  using digits_number [OF assms] assms(1,2)
  by (auto simp: number_def dest: digit_not_sign split: list.splits)

lemma Itoa_number: "number (Itoa i) = Some (Itoa i, [])"
proof -
  have "nat_text 0 = ''0''" by code_simp
  then have front: "nat_text n = ''0'' \<or> hd (nat_text n) \<noteq> CHR ''0''" for n
    using nat_text_front [of n] by (cases "n = 0") auto
  show ?thesis
    using nat_text_digits by (simp add: Itoa_def number_digits front)
qed

lemma set_obj_put: "set (obj_put k v m) \<subseteq> insert (k, v) (set m)"
  by (induction k v m rule: obj_put.induct) auto

subsection \<open>Values of bounded nesting\<close>

text \<open>A value that can be printed and read back, with at most \<open>n\<close> levels of nesting.\<close>

definition shallow :: "nat \<Rightarrow> json \<Rightarrow> bool" where
  "shallow n v \<longleftrightarrow> wf_json v \<and> jdepth v \<le> n"

lemma shallow_scalar [simp]:
  "shallow n JNull" "shallow n (JBool b)" "shallow n (JStr s) = valid_utf8 s"
  "shallow n (JNum t) \<longleftrightarrow> number t = Some (t, [])"
  by (simp_all add: shallow_def)

lemma shallow_ints [simp]: "shallow n (nat_json i)" "shallow n (int64_json w)"
  by (simp_all add: nat_json_def int64_json_def Itoa_number)

definition member_ok :: "nat \<Rightarrow> string \<times> json \<Rightarrow> bool" where
  "member_ok n f \<longleftrightarrow> valid_utf8 (fst f) \<and> shallow n (snd f)"

lemma member_ok_Pair [simp]: "member_ok n (k, v) \<longleftrightarrow> valid_utf8 k \<and> shallow n v"
  by (simp add: member_ok_def)

lemma shallow_nested [simp]:
  "shallow n (JArr vs) \<longleftrightarrow> 0 < n \<and> list_all (shallow (n - 1)) vs"
  "shallow n (JObj m) \<longleftrightarrow> 0 < n \<and> sorted_obj m \<and> list_all (member_ok (n - 1)) m"
  by (cases n; fastforce simp: shallow_def list_all_iff fold_max_le)+

lemma members_put [simp]:
  "list_all (member_ok n) m \<Longrightarrow> member_ok n (k, v) \<Longrightarrow> list_all (member_ok n) (obj_put k v m)"
  using set_obj_put [of k v m] by (auto simp: list_all_iff)

lemma members_mk_obj [simp]: "list_all (member_ok n) fs \<Longrightarrow> list_all (member_ok n) (mk_obj fs)"
proof -
  have "list_all (member_ok n) m \<Longrightarrow> list_all (member_ok n) fs \<Longrightarrow> list_all (member_ok n) (fold (\<lambda>(k, v). obj_put k v) fs m)" for m fs
    by (induction fs arbitrary: m) auto
  then show "list_all (member_ok n) fs \<Longrightarrow> list_all (member_ok n) (mk_obj fs)" by (simp add: mk_obj_def)
qed

lemma shallow_0: "shallow 0 v \<Longrightarrow> shallow n v"
  by (simp add: shallow_def)

lemma shallow_printable: "shallow n v \<Longrightarrow> n \<le> 10000 \<Longrightarrow> printable v"
  by (simp add: shallow_def printable_def)

lemma literal_shallow: "literal_val s = Some (v, r) \<Longrightarrow> shallow n v"
  by (auto simp: literal_val_def split: if_splits)

text \<open>What the decoder returns within \<open>d\<close> levels has at most \<open>d\<close> levels.\<close>

lemma decode_shallow:
  "decode_val d s = Some (v, r) \<Longrightarrow> shallow (nat d) v"
  "decode_elems d s = Some (vs, r) \<Longrightarrow> list_all (shallow (nat d)) vs"
  "decode_members d s m = Some (m', r) \<Longrightarrow> sorted_obj m \<and> list_all (member_ok (nat d)) m \<Longrightarrow>
     sorted_obj m' \<and> list_all (member_ok (nat d)) m'"
proof (induction d s and d s and d s m arbitrary: v r and vs r and m' r
    rule: decode_val_decode_elems_decode_members.induct)
  case (1 d s)
  have less: "nat (d - 1) = nat d - 1" by simp
  note elems = 1(1) [unfolded less] and members = 1(2) [unfolded less]
  from 1(3) show ?case
    by (subst (asm) decode_val.simps)
      (auto dest: unquote_valid number_again literal_shallow elems members split: list.splits if_splits)
next
  case (2 d s)
  from 2(3) obtain x r1 where x: "decode_val d s = Some (x, r1)"
    by (subst (asm) decode_elems.simps) (auto split: option.splits)
  have tail: "list_all (shallow (nat d)) ws"
    if "skip_ws r1 = c # r'" "c = CHR '','' " "length r' < length s" "decode_elems d r' = Some (ws, r)" for c r' ws
    by (rule 2(2) [OF x refl that])
  from 2(3) 2(1) [OF x] show ?case
    by (subst (asm) decode_elems.simps) (auto simp: x tail split: list.splits if_splits)
next
  case (3 d s m)
  from 3(3) obtain q s1 k s2 c s3 v r1 where s: "skip_ws s = q # s1" "\<not> q \<noteq> CHR 0x22"
      "unquote s1 = Some (k, s2)" "skip_ws s2 = c # s3" "\<not> (c \<noteq> CHR '':'' \<or> \<not> length s3 < length s)"
      "decode_val d s3 = Some (v, r1)"
    by (subst (asm) decode_members.simps) (auto split: option.splits list.splits if_splits)
  have "shallow (nat d) v" by (rule 3(1) [OF s(1,2,3) refl s(4,5,6)])
  with 3(4) unquote_valid [OF s(3)]
  have put: "sorted_obj (obj_put k v m) \<and> list_all (member_ok (nat d)) (obj_put k v m)" by simp
  have tail: "sorted_obj m'' \<and> list_all (member_ok (nat d)) m''"
    if "skip_ws r1 = e # r'" "e = CHR '','' " "length r' < length s" "decode_members d r' (obj_put k v m) = Some (m'', r)" for e r' m''
    by (rule 3(2) [OF s(1,2,3) refl s(4,5,6) refl that put])
  from 3(3) put show ?case
    by (subst (asm) decode_members.simps) (auto simp: s(1,3,4,6) tail split: list.splits if_splits)
qed

subsection \<open>Trimming\<close>

text \<open>A byte that continues no rune starts one: a valid string can be cut in front of it.\<close>

lemma rune_len_before:
  assumes "\<not> cont_byte c" "t \<noteq> []" "rune_len (t @ c # u) \<noteq> 0"
  shows "rune_len t = rune_len (t @ c # u)"
proof -
  consider a where "t = [a]" | a b where "t = [a, b]" | a b d where "t = [a, b, d]"
    | a b d e v where "t = a # b # d # e # v"
    using assms(2) by (metis neq_Nil_conv)
  then show ?thesis
    using assms(1,3) by cases (simp_all add: rune_len.simps Let_def split: if_splits list.splits)
qed

lemma valid_utf8_cut:
  assumes "valid_utf8 (t @ c # u)" "\<not> cont_byte c"
  shows "valid_utf8 t"
  using assms(1)
proof (induction t rule: valid_utf8.induct)
  case (1 t)
  show ?case
  proof (cases "t = []")
    case False
    with 1(2) have r: "rune_len (t @ c # u) \<noteq> 0" "valid_utf8 (drop (rune_len (t @ c # u)) (t @ c # u))"
      by (simp_all add: valid_utf8_step)
    note n = rune_len_before [OF assms(2) False r(1)]
    with r(2) rune_len_le [of t] have "valid_utf8 (drop (rune_len t) t @ c # u)" by simp
    with 1(1) [OF False] n r(1) False show ?thesis by (simp add: valid_utf8_step)
  qed simp
qed

lemma space_starts:
  "ascii_space a \<Longrightarrow> \<not> cont_byte a" "space2 a b \<Longrightarrow> \<not> cont_byte a" "space3 a b c \<Longrightarrow> \<not> cont_byte a"
  by (auto simp: ascii_space_def space2_def space3_def cont_byte_def byte_def)

lemma space_runes:
  "ascii_space a \<Longrightarrow> rune_len (a # r) = 1" "space2 a b \<Longrightarrow> rune_len (a # b # r) = 2"
  "space3 a b c \<Longrightarrow> rune_len (a # b # c # r) = 3"
  by (auto simp: ascii_space_def space2_def space3_def cont_byte_def byte_def rune_len.simps)

lemma space_len_rune: "space_len s \<noteq> 0 \<Longrightarrow> rune_len s = space_len s"
  by (cases s) (auto simp: space_runes split: list.splits if_splits)

lemma valid_trim_left: "valid_utf8 s \<Longrightarrow> valid_utf8 (trim_left s)"
proof (induction s rule: trim_left.induct)
  case (1 s)
  show ?case
  proof (cases "space_len s = 0")
    case False
    then have "s \<noteq> []" by auto
    with 1 False show ?thesis
      using space_len_rune [OF False] by (simp add: trim_left.simps [of s] valid_utf8_step)
  qed (use 1 in \<open>simp add: trim_left_fix\<close>)
qed

lemma ex_rev: "\<exists>u. xs = rev u" "\<exists>u. rev u = xs"
  by (metis rev_rev_ident)+

lemma space_rlen_starts:
  assumes "space_rlen x \<noteq> 0"
  obtains c u where "rev (take (space_rlen x) x) = c # u" "\<not> cont_byte c"
proof -
  have "\<exists>c u. take (space_rlen x) x = rev u @ [c] \<and> \<not> cont_byte c"
    using assms by (cases x) (auto dest: space_starts simp: ex_rev split: list.splits if_splits)
  then show thesis using that by auto
qed

lemma valid_rtrim: "valid_utf8 (rev x) \<Longrightarrow> valid_utf8 (rev (rtrim_left x))"
proof (induction x rule: rtrim_left.induct)
  case (1 x)
  show ?case
  proof (cases "space_rlen x = 0")
    case False
    then obtain c u where c: "rev (take (space_rlen x) x) = c # u" "\<not> cont_byte c" by (rule space_rlen_starts)
    have "rev x = rev (drop (space_rlen x) x) @ c # u"
      by (metis append_take_drop_id c(1) rev_append)
    with 1(2) c(2) have "valid_utf8 (rev (drop (space_rlen x) x))" using valid_utf8_cut by metis
    with 1(1) False show ?thesis by (simp add: rtrim_left.simps [of x])
  qed (use 1 in \<open>simp add: rtrim_left_fix\<close>)
qed

lemma valid_TrimSpace: "valid_utf8 s \<Longrightarrow> valid_utf8 (TrimSpace s)"
  using valid_rtrim [of "rev (trim_left s)"] by (simp add: TrimSpace_def trim_right_def valid_trim_left)

lemma valid_ascii_append: "list_all (\<lambda>c. byte c < 128) p \<Longrightarrow> valid_utf8 (p @ s) = valid_utf8 s"
  by (induction p) (simp_all add: valid_ascii_Cons)

lemma valid_TrimPrefix: "list_all (\<lambda>c. byte c < 128) p \<Longrightarrow> valid_utf8 s \<Longrightarrow> valid_utf8 (TrimPrefix s p)"
  by (cases "HasPrefix s p") (auto simp: HasPrefix_iff valid_ascii_append, simp add: TrimPrefix_def HasPrefix_iff)

subsection \<open>The accessors\<close>

definition wf_obj :: "obj \<Rightarrow> bool" where
  "wf_obj m \<longleftrightarrow> wf_json (JObj m)"

lemma decodeObject_shallow: "decodeObject raw = Inr m \<Longrightarrow> shallow 10000 (JObj m)"
  by (auto simp: decodeObject_def decode_first_def max_depth_def simp del: shallow_nested
      dest: decode_shallow(1) split: option.splits json.splits)

lemma decodeObject_wf: "decodeObject raw = Inr m \<Longrightarrow> wf_obj m"
  using decodeObject_shallow [of raw m] by (simp add: wf_obj_def shallow_def del: wf_json.simps shallow_nested)

text \<open>Whatever the bytes an object was read from, printing it and reading it again gives the same object.\<close>

theorem decodeObject_again: "decodeObject raw = Inr m \<Longrightarrow> decodeObject (encode (JObj m)) = Inr m"
  using decodeObject_shallow [of raw m]
  by (simp add: decodeObject_encode shallow_def del: encode.simps wf_json.simps jdepth.simps shallow_nested)

lemma wf_fld [simp]: "wf_obj m \<Longrightarrow> wf_json (fld m k)"
  by (auto simp: wf_obj_def fld_def list_all_iff dest: map_of_SomeD split: option.splits)

lemma wf_map_of: "wf_obj m \<Longrightarrow> map_of m k = Some v \<Longrightarrow> wf_json v"
  using wf_fld [of m k] by (simp add: fld_def)

lemma wf_objectValue [simp]: "wf_json v \<Longrightarrow> wf_obj (objectValue v)"
  by (cases v) (simp_all add: wf_obj_def)

lemma wf_arrayValue: "wf_json v \<Longrightarrow> list_all wf_json (arrayValue v)"
  by (cases v) simp_all

lemma number_zero [simp]: "number ''0'' = Some (''0'', [])"
  by code_simp

lemma wf_numberValue [simp]: "wf_json v \<Longrightarrow> wf_json (numberValue v)"
  by (cases v) simp_all

lemma valid_rawString [simp]: "wf_json v \<Longrightarrow> valid_utf8 (rawStringValue v)"
  by (cases v) simp_all

lemma valid_stringValue [simp]: "wf_json v \<Longrightarrow> valid_utf8 (stringValue v)"
  by (simp add: stringValue_def valid_TrimSpace)

lemma valid_firstNonEmpty [simp]: "list_all valid_utf8 vs \<Longrightarrow> valid_utf8 (firstNonEmptyString vs)"
  by (induction vs) (simp_all add: valid_TrimSpace)

lemma valid_firstString [simp]: "wf_obj m \<Longrightarrow> valid_utf8 (firstString m ks)"
  by (induction ks) simp_all

lemma valid_firstRaw [simp]: "wf_obj m \<Longrightarrow> valid_utf8 (firstRawString m ks)"
  by (induction ks) simp_all

end
