(* ===== verification/Float_Wf.thy ===== *)
theory Float_Wf
  imports Json_Wf
begin

text \<open>
  A value that went through \<open>float64\<close> numbers is still one the encoder prints and the decoder reads:
  the text of a \<open>float64\<close> is a JSON number literal.
\<close>

subsection \<open>The grammar of numbers\<close>

definition digits :: "string \<Rightarrow> bool" where
  "digits s \<longleftrightarrow> s \<noteq> [] \<and> list_all is_digit s"

text \<open>The digits of a positive number.\<close>

definition leading :: "string \<Rightarrow> bool" where
  "leading s \<longleftrightarrow> digits s \<and> hd s \<noteq> CHR ''0''"

definition no_digit :: "string \<Rightarrow> bool" where
  "no_digit s \<longleftrightarrow> (s = [] \<or> \<not> is_digit (hd s))"

lemma no_digit_simps [simp]: "no_digit []" "no_digit (c # s) \<longleftrightarrow> \<not> is_digit c"
  by (simp_all add: no_digit_def)

lemma digits1_digits: "digits d \<Longrightarrow> no_digit t \<Longrightarrow> digits1 (d @ t) = Some (d, t)"
proof -
  assume d: "digits d" "no_digit t"
  then have "takeWhile is_digit (d @ t) = d" "dropWhile is_digit (d @ t) = t"
    by (cases t; simp add: digits_def list_all_iff)+
  with d(1) show ?thesis by (simp add: digits1_def digits_def)
qed

lemma num_int_leading: "leading i \<Longrightarrow> no_digit t \<Longrightarrow> num_int (i @ t) = Some (i, t)"
  using digits1_digits [of i t] by (cases i) (auto simp: leading_def digits_def num_int_def)

lemma num_int_zero: "num_int (''0'' @ t) = Some (''0'', t)"
  by (simp add: num_int_def)

lemma num_frac_digits: "digits d \<Longrightarrow> no_digit t \<Longrightarrow> num_frac (''.'' @ d @ t) = Some (''.'' @ d, t)"
  by (simp add: num_frac_def digits1_digits)

lemma num_exp_digits:
  "digits d \<Longrightarrow> sign = ''+'' \<or> sign = ''-'' \<Longrightarrow> num_exp (''e'' @ sign @ d) = Some (''e'' @ sign @ d, [])"
  using digits1_digits [of d "[]"] by (auto simp: num_exp_def)

lemma num_frac_none: "s = [] \<or> hd s = CHR ''e'' \<Longrightarrow> num_frac s = Some ([], s)"
  by (cases s) (auto simp: num_frac_def)

lemma num_unsigned_parts:
  "num_int s = Some (i, r1) \<Longrightarrow> num_frac r1 = Some (f, r2) \<Longrightarrow> num_exp r2 = Some (e, []) \<Longrightarrow>
   num_unsigned s = Some (i @ f @ e, [])"
  by (simp add: num_unsigned_def)

lemma num_exp_Nil [simp]: "num_exp [] = Some ([], [])"
  by (simp add: num_exp_def)

subsection \<open>The digits of a number\<close>

lemma int_text_nat: "0 \<le> n \<Longrightarrow> int_text n = nat_text (nat n)"
proof (induction n rule: int_text.induct)
  case (1 n)
  show ?case
  proof (cases "n < 10")
    case True
    with 1(2) show ?thesis by (simp add: int_text.simps [of n] nat_text.simps [of "nat n"])
  next
    case False
    then have "int_text (n div 10) = nat_text (nat n div 10)" using 1 by (simp add: nat_div_distrib)
    with False 1(2) show ?thesis
      by (simp add: int_text.simps [of n] nat_text.simps [of "nat n"] nat_mod_distrib)
  qed
qed

lemma leading_int_text: "0 < n \<Longrightarrow> leading (int_text n)"
  using nat_text_digits [of "nat n"] nat_text_front [of "nat n"] by (simp add: int_text_nat leading_def digits_def)

lemma strip_zeros_Cons: "c \<noteq> CHR ''0'' \<Longrightarrow> strip_zeros (c # s) = c # strip_zeros s"
  by (simp add: strip_zeros_def dropWhile_append3)

lemma strip_zeros_subset: "set (strip_zeros s) \<subseteq> set s"
  by (auto simp: strip_zeros_def dest: set_dropWhileD)

lemma leading_strip: "leading s \<Longrightarrow> leading (strip_zeros s)"
  using strip_zeros_subset [of "tl s"]
  by (cases s) (auto simp: leading_def digits_def strip_zeros_Cons list_all_iff)

lemma digits_zeros: "list_all is_digit (zeros n)"
  by (simp add: zeros_def list_all_iff is_digit_def byte_def)

lemma dot_no_digit: "\<not> is_digit (CHR ''.'')" "\<not> is_digit (CHR ''e'')"
  by (simp_all add: is_digit_def byte_def)

subsection \<open>The two formats\<close>

lemma format_f_number:
  assumes "leading ds"
  shows "num_unsigned (format_f ds dp) = Some (format_f ds dp, [])"
proof -
  have ds: "ds \<noteq> []" "list_all is_digit ds" "hd ds \<noteq> CHR ''0''" using assms by (simp_all add: leading_def digits_def)
  consider "dp \<le> 0" | "0 < dp" "int (length ds) \<le> dp" | "0 < dp" "dp < int (length ds)" by linarith
  then show ?thesis
  proof cases
    case 1
    have "digits (zeros (- dp) @ ds)" using ds digits_zeros by (simp add: digits_def)
    from num_frac_digits [OF this, of "[]"] num_int_zero [of "''.'' @ zeros (- dp) @ ds"] 1
    show ?thesis by (simp add: format_f_def num_unsigned_def)
  next
    case 2
    have "leading (ds @ zeros (dp - int (length ds)))" using ds digits_zeros by (simp add: leading_def digits_def)
    from num_int_leading [OF this, of "[]"] 2 num_frac_none [of "[]"] show ?thesis
      by (simp add: format_f_def num_unsigned_def)
  next
    case 3
    have "leading (take (nat dp) ds)" using ds 3 by (auto simp: leading_def digits_def list_all_iff dest: in_set_takeD)
    moreover have d: "digits (drop (nat dp) ds)" using ds 3 by (auto simp: digits_def list_all_iff dest: in_set_dropD)
    ultimately show ?thesis
      using num_int_leading [of "take (nat dp) ds" "''.'' @ drop (nat dp) ds"] num_frac_digits [OF d, of "[]"] 3 dot_no_digit
      by (simp add: format_f_def num_unsigned_def)
  qed
qed

lemma format_e_number:
  assumes "leading ds"
  shows "num_unsigned (format_e ds dp) = Some (format_e ds dp, [])"
proof -
  obtain c r where c: "ds = c # r" "is_digit c" "c \<noteq> CHR ''0''" "list_all is_digit r"
    using assms by (cases ds) (auto simp: leading_def digits_def)
  obtain sign d where e: "(if dp - 1 < 0 then [] else ''+'') @ Itoa (dp - 1) = sign @ d"
    "sign = ''+'' \<or> sign = ''-''" "digits d"
  proof (cases "dp - 1 < 0")
    case True
    then show ?thesis using that [of "''-''" "nat_text (nat (1 - dp))"] nat_text_digits by (simp add: Itoa_def digits_def)
  next
    case False
    then show ?thesis using that [of "''+''" "nat_text (nat (dp - 1))"] nat_text_digits by (simp add: Itoa_def digits_def)
  qed
  define f where "f = (if r = [] then [] else ''.'' @ r)"
  have shape: "format_e ds dp = [c] @ f @ ''e'' @ sign @ d"
    using e(1) by (simp add: format_e_def c(1) f_def)
  have "num_frac (f @ ''e'' @ sign @ d) = Some (f, ''e'' @ sign @ d)"
    using num_frac_digits [of r "''e'' @ sign @ d"] num_frac_none [of "''e'' @ sign @ d"] c(4) dot_no_digit
    by (auto simp: f_def digits_def)
  moreover have "num_int ([c] @ f @ ''e'' @ sign @ d) = Some ([c], f @ ''e'' @ sign @ d)"
    using c dot_no_digit by (intro num_int_leading) (auto simp: leading_def digits_def f_def)
  ultimately show ?thesis unfolding shape using num_unsigned_parts [OF _ _ num_exp_digits [OF e(3,2)]] by simp
qed

subsection \<open>The text of a float64\<close>

lemma dec_int_nonneg: "0 \<le> n \<Longrightarrow> 0 \<le> dec_int n s"
  by (induction n s rule: dec_int.induct) simp_all

lemma ratio10_bounds: "0 \<le> m \<Longrightarrow> ratio10 m e = (n, d) \<Longrightarrow> 0 \<le> n \<and> 0 < d"
  by (auto simp: ratio10_def split: if_splits)

lemma scale2_bounds: "0 \<le> n \<Longrightarrow> 0 < d \<Longrightarrow> scale2 n d e = (n', d') \<Longrightarrow> 0 \<le> n' \<and> 0 < d'"
  by (auto simp: scale2_def split: if_splits)

lemma round_even_nonneg: "0 \<le> n \<Longrightarrow> 0 < d \<Longrightarrow> 0 \<le> round_even n d"
  using pos_imp_zdiv_nonneg_iff [of d n] by (simp add: round_even_def Let_def)

lemma to_float_nonneg:
  assumes "0 \<le> n" "0 < d" "to_float n d = Some (m, e)"
  shows "0 \<le> m"
proof (cases "n = 0")
  case False
  define x where "x = max (if fst (scale2 n d (bits n - bits d - 53)) div snd (scale2 n d (bits n - bits d - 53)) < 9007199254740992
    then bits n - bits d - 53 else bits n - bits d - 53 + 1) (- 1074)"
  obtain n2 d2 where s: "scale2 n d x = (n2, d2)" by fastforce
  have "m = (if round_even n2 d2 = 9007199254740992 then 4503599627370496 else round_even n2 d2)"
    using assms(3) False s unfolding to_float_def Let_def x_def
    by (auto simp: split_beta split: if_splits)
  with round_even_nonneg scale2_bounds [OF assms(1,2) s] show ?thesis by auto
qed (use assms(3) in \<open>simp add: to_float_def\<close>)

lemma to_float_zero: "to_float 0 d = Some (0, - 1074)"
  by (simp add: to_float_def)

lemma digits_of_pos:
  assumes "m \<noteq> 0" "0 \<le> n" "0 < d" "digits_of m e n d x = Some (D, y)"
  shows "0 < D"
proof -
  obtain n1 d1 where s: "(if 0 \<le> x then (n, d * 10 ^ nat x) else (n * 10 ^ nat (- x), d)) = (n1, d1)" by fastforce
  then have "0 \<le> n1" "0 < d1" using assms(2,3) by (auto split: if_splits)
  then have lo: "0 \<le> n1 div d1" using pos_imp_zdiv_nonneg_iff by blast
  have "D = n1 div d1 \<and> (case ratio10 (n1 div d1) x of (a, b) \<Rightarrow> to_float a b = Some (m, e)) \<or> D = n1 div d1 + 1"
    using assms(4) unfolding digits_of_def s Let_def prod.case by (auto split: if_splits)
  then show ?thesis
  proof
    assume D: "D = n1 div d1 \<and> (case ratio10 (n1 div d1) x of (a, b) \<Rightarrow> to_float a b = Some (m, e))"
    have "(case ratio10 0 x of (a, b) \<Rightarrow> to_float a b) = Some (0, - 1074)"
      by (simp add: ratio10_def to_float_zero)
    with D assms(1) have "n1 div d1 \<noteq> 0" by (auto split: prod.splits)
    with lo D show ?thesis by simp
  qed (use lo in simp)
qed

lemma shortest_pos:
  "m \<noteq> 0 \<Longrightarrow> 0 \<le> n \<Longrightarrow> 0 < d \<Longrightarrow> shortest fuel m e n d x = (D, y) \<Longrightarrow> 0 < D"
  by (induction fuel m e n d x rule: shortest.induct) (auto split: option.splits dest: digits_of_pos)

lemma float_number:
  assumes "0 \<le> m"
  shows "number (format_float (neg, m, e)) = Some (format_float (neg, m, e), [])"
proof -
  have signed: "number ((if neg then ''-'' else []) @ s) = Some ((if neg then ''-'' else []) @ s, [])"
    if "num_unsigned s = Some (s, [])" for s
    using num_unsigned_front [OF that] that by (auto simp: number_def)
  show ?thesis
  proof (cases "m = 0")
    case True
    then show ?thesis using signed [of "''0''"] by (simp add: format_float_def num_unsigned_def num_int_def num_frac_def)
  next
    case False
    obtain num den :: int where nd: "(if 0 \<le> e then (m * 2 ^ nat e, 1) else (m, 2 ^ nat (- e))) = (num, den)" by fastforce
    then have b: "0 \<le> num" "0 < den" using assms by (auto split: if_splits)
    obtain D x where D: "shortest 17 m e num den (dec_exp num den - 1) = (D, x)" by fastforce
    have "leading (strip_zeros (int_text D))"
      using leading_strip [OF leading_int_text] shortest_pos [OF False b D] by blast
    then show ?thesis
      unfolding format_float_def Let_def prod.case nd D
      using False by (simp add: signed format_e_number format_f_number del: append.simps)
  qed
qed

lemma float_text_number: "float_text s = Some t \<Longrightarrow> number t = Some (t, [])"
proof -
  assume "float_text s = Some t"
  moreover obtain neg m e where l: "lit_parts s = (neg, m, e)" by (metis prod_cases3)
  moreover obtain n d where r: "ratio10 m e = (n, d)" by fastforce
  moreover have "0 \<le> m" using l by (auto simp: lit_parts_def Let_def dec_int_nonneg split: prod.splits)
  ultimately show ?thesis
    using to_float_nonneg ratio10_bounds [of m e n d] float_number
    by (auto simp: float_text_def ParseFloat_def)
qed

subsection \<open>Values\<close>

lemma opt_list_rel: "opt_list xs = Some ys \<Longrightarrow> list_all2 (\<lambda>x y. x = Some y) xs ys"
  by (induction xs arbitrary: ys rule: opt_list.induct) auto

lemma opt_list_map: "opt_list (map f xs) = Some ys \<Longrightarrow> list_all2 (\<lambda>x y. f x = Some y) xs ys"
  using opt_list_rel [of "map f xs" ys] by (simp add: list.rel_map)

lemma list_all2_back: "list_all2 P xs ys \<Longrightarrow> y \<in> set ys \<Longrightarrow> \<exists>x \<in> set xs. P x y"
  by (induction rule: list_all2_induct) auto

lemma float_keys:
  "list_all2 (\<lambda>(k, v) p. map_option (Pair k) (float_json v) = Some p) m m' \<Longrightarrow> map fst m' = map fst m"
  by (induction rule: list_all2_induct) auto

lemma float_shallow: "float_json v = Some w \<Longrightarrow> shallow n v \<Longrightarrow> shallow n w"
proof (induction v arbitrary: w n)
  case (JNum t)
  then show ?case by (auto dest: float_text_number)
next
  case (JArr vs)
  then obtain ws where "w = JArr ws" "list_all2 (\<lambda>x y. float_json x = Some y) vs ws"
    using opt_list_map [of float_json vs] by auto
  with JArr show ?case by (auto simp: list_all_iff dest!: list_all2_back)
next
  case (JObj m)
  then obtain m' where m': "w = JObj m'" "list_all2 (\<lambda>(k, v) p. map_option (Pair k) (float_json v) = Some p) m m'"
    using opt_list_map [of "\<lambda>(k, v). map_option (Pair k) (float_json v)" m] by (auto simp: case_prod_beta')
  have "member_ok (n - 1) p" if p: "p \<in> set m'" for p
  proof -
    obtain k v where v: "(k, v) \<in> set m" "map_option (Pair k) (float_json v) = Some p"
      using list_all2_back [OF m'(2) p] by auto
    then obtain u where "p = (k, u)" "float_json v = Some u" by auto
    moreover have "member_ok (n - 1) (k, v)" using JObj.prems(2) v(1) by (auto simp: list_all_iff)
    ultimately show ?thesis using JObj.IH [OF v(1), of v u "n - 1"] by simp
  qed
  then have "list_all (member_ok (n - 1)) m'" by (simp add: list_all_iff)
  moreover have "sorted_obj m'"
    using JObj.prems(2) float_keys [OF m'(2)] by (simp add: sorted_obj_def)
  ultimately show ?case using JObj.prems(2) m'(1) by simp
qed auto

end
