(* ===== verification/Routing.thy ===== *)
theory Routing
  imports Claude_Stream OpenAI_Stream Claude_OpenAI_Stream Float_Wf
begin

text \<open>
  The routes between the client's format and the upstream endpoint:
  \<open>internal/translate/translate.go\<close>. The official translator (a third-party SDK) is the
  parameter \<open>sdk\<close>: its format names, which transformers it has and what they return. The
  \<open>ctx\<close> argument is only passed on to it and is part of the parameter. A \<open>*any\<close> stream state is
  an optional cell of type \<open>any_state\<close>.
\<close>

definition EndpointResponses :: string where "EndpointResponses = ''/responses''"
definition EndpointChatCompletions :: string where "EndpointChatCompletions = ''/chat/completions''"
definition EndpointMessages :: string where "EndpointMessages = ''/v1/messages''"

datatype 'x any_state =
    NilAny
  | ClaudeState responsesClaudeStreamState
  | OpenAIState responsesOpenAIStreamState
  | ClaudeOpenAIState claudeOpenAIStreamState
  | TwoHop "'x any_state" "'x any_state"
  | Foreign 'x

record 'x sdk =
  FormatClaude :: string
  FormatOpenAI :: string
  FormatOpenAIResponse :: string
  FromString :: "string \<Rightarrow> string"
  HasRequestTransformer :: "string \<Rightarrow> string \<Rightarrow> bool"
  HasNonStreamResponseTransformer :: "string \<Rightarrow> string \<Rightarrow> bool"
  HasStreamResponseTransformer :: "string \<Rightarrow> string \<Rightarrow> bool"
  TranslateRequest :: "string \<Rightarrow> string \<Rightarrow> string \<Rightarrow> string \<Rightarrow> bool \<Rightarrow> string"
  TranslateNonStream :: "string \<Rightarrow> string \<Rightarrow> string \<Rightarrow> string \<Rightarrow> string \<Rightarrow> string \<Rightarrow> string"
  TranslateStream :: "string \<Rightarrow> string \<Rightarrow> string \<Rightarrow> string \<Rightarrow> string \<Rightarrow> string \<Rightarrow> 'x any_state option \<Rightarrow>
    string list \<times> 'x any_state"

subsection \<open>Formats\<close>

definition endpointFormat :: "'x sdk \<Rightarrow> string \<Rightarrow> string res" where
  "endpointFormat sdk endpoint =
     (if endpoint = EndpointResponses then Inr (FormatOpenAIResponse sdk)
      else if endpoint = EndpointChatCompletions then Inr (FormatOpenAI sdk)
      else if endpoint = EndpointMessages then Inr (FormatClaude sdk)
      else Inl (ErrorQ ''unsupported Copilot endpoint '' endpoint))"

definition intermediateFormat :: "'x sdk \<Rightarrow> string \<Rightarrow> string \<Rightarrow> string option" where
  "intermediateFormat sdk from_f to_f =
     find (\<lambda>candidate. candidate \<noteq> from_f \<and> candidate \<noteq> to_f \<and>
             HasRequestTransformer sdk from_f candidate \<and> HasRequestTransformer sdk candidate to_f)
       [FormatOpenAI sdk, FormatOpenAIResponse sdk, FormatClaude sdk]"

definition bad :: "string \<Rightarrow> bool" where
  "bad out \<longleftrightarrow> out = [] \<or> \<not> Valid out"

subsection \<open>Requests\<close>

definition request :: "'x sdk \<Rightarrow> string \<Rightarrow> string \<Rightarrow> string \<Rightarrow> string \<Rightarrow> bool \<Rightarrow> string res" where
  "request sdk from_f to_f model body stream =
     (if \<not> Valid body then Inl (ErrorText ''request body is not valid JSON'')
      else if from_f = FormatClaude sdk \<and> to_f = FormatOpenAIResponse sdk then claudeRequestToResponses model body stream
      else if from_f = FormatOpenAI sdk \<and> to_f = FormatOpenAIResponse sdk then
        openAIRequestToResponses (FormatOpenAI sdk) (FormatClaude sdk)
          (TranslateRequest sdk (FormatOpenAI sdk) (FormatClaude sdk)) model body stream
      else if from_f \<noteq> to_f \<and> \<not> HasRequestTransformer sdk from_f to_f then
        (case intermediateFormat sdk from_f to_f of
           None \<Rightarrow> Inl (ErrorText (''official translator has no request route from '' @ from_f @ '' to '' @ to_f))
         | Some mid \<Rightarrow>
             (let first = TranslateRequest sdk from_f mid model body stream;
                  out = TranslateRequest sdk mid to_f model first stream
              in if bad out
                 then Inl (ErrorText (''official two-hop request translation from '' @ from_f @ '' to '' @ to_f @ '' failed''))
                 else Inr out))
      else
        (let out = TranslateRequest sdk from_f to_f model body stream
         in if bad out
            then Inl (ErrorText (''official request translation from '' @ from_f @ '' to '' @ to_f @ '' failed''))
            else Inr out))"

definition setModelAndStream :: "string \<Rightarrow> string \<Rightarrow> bool \<Rightarrow> string res" where
  "setModelAndStream body model streamEnabled =
     (case unmarshal_map body of
        Inl e \<Rightarrow> Inl (Wrap ''decode translated request: '' e)
      | Inr (JObj m) \<Rightarrow> Inr (encode (JObj (obj_put ''stream'' (JBool streamEnabled) (obj_put ''model'' (JStr model) m))))
      | Inr _ \<Rightarrow> Inl (Panic ''assignment to entry in nil map''))"

definition RequestForEndpointFrom :: "'x sdk \<Rightarrow> string \<Rightarrow> string \<Rightarrow> string \<Rightarrow> bool \<Rightarrow> string \<Rightarrow> string res" where
  "RequestForEndpointFrom sdk source model body stream endpoint =
     (case endpointFormat sdk endpoint of
        Inl e \<Rightarrow> Inl e
      | Inr to_f \<Rightarrow>
          (let from_f = FromString sdk source;
               translated = (if from_f = to_f then Inr body else request sdk from_f to_f model body stream)
           in (case translated of Inl e \<Rightarrow> Inl e | Inr out \<Rightarrow> setModelAndStream out model stream)))"

definition RequestForEndpoint :: "'x sdk \<Rightarrow> string \<Rightarrow> string \<Rightarrow> bool \<Rightarrow> string \<Rightarrow> string res" where
  "RequestForEndpoint sdk model body stream endpoint =
     RequestForEndpointFrom sdk (FormatOpenAIResponse sdk) model body stream endpoint"

definition ClaudeToResponses :: "'x sdk \<Rightarrow> string \<Rightarrow> string \<Rightarrow> bool \<Rightarrow> string res" where
  "ClaudeToResponses sdk = request sdk (FormatClaude sdk) (FormatOpenAIResponse sdk)"

subsection \<open>Finished responses\<close>

definition response :: "'x sdk \<Rightarrow> string \<Rightarrow> string \<Rightarrow> string \<Rightarrow> string \<Rightarrow> string \<Rightarrow> string \<Rightarrow> string res" where
  "response sdk from_f to_f model original translated body =
     (if \<not> Valid body then Inl (ErrorText ''response body is not valid JSON'')
      else if from_f = FormatOpenAIResponse sdk \<and> to_f = FormatClaude sdk then responsesResponseToClaude model body
      else if from_f = FormatOpenAIResponse sdk \<and> to_f = FormatOpenAI sdk then responsesResponseToOpenAI model body
      else if from_f = FormatClaude sdk \<and> to_f = FormatOpenAI sdk then claudeResponseToOpenAI model body
      else if from_f \<noteq> to_f \<and> \<not> HasNonStreamResponseTransformer sdk to_f from_f then
        (case intermediateFormat sdk to_f from_f of
           None \<Rightarrow> Inl (ErrorText (''official translator has no response route from '' @ from_f @ '' to '' @ to_f))
         | Some mid \<Rightarrow>
             (let intermediateRequest = TranslateRequest sdk to_f mid model original False;
                  first = TranslateNonStream sdk from_f mid model intermediateRequest translated body;
                  out = TranslateNonStream sdk mid to_f model original intermediateRequest first
              in if bad out
                 then Inl (ErrorText (''official two-hop response translation from '' @ from_f @ '' to '' @ to_f @ '' failed''))
                 else Inr out))
      else
        (let out = TranslateNonStream sdk from_f to_f model original translated body
         in if bad out
            then Inl (ErrorText (''official response translation from '' @ from_f @ '' to '' @ to_f @ '' failed''))
            else Inr out))"

definition ResponseFromEndpoint ::
  "'x sdk \<Rightarrow> string \<Rightarrow> string \<Rightarrow> string \<Rightarrow> string \<Rightarrow> string \<Rightarrow> string \<Rightarrow> string res" where
  "ResponseFromEndpoint sdk endpoint destination model original translated body =
     (case endpointFormat sdk endpoint of
        Inl e \<Rightarrow> Inl e
      | Inr from_f \<Rightarrow>
          (let to_f = FromString sdk destination
           in if from_f = to_f then
                (if \<not> Valid body then Inl (ErrorText ''Copilot API returned invalid JSON'') else Inr body)
              else response sdk from_f to_f model original translated body))"

definition ResponseToResponses :: "'x sdk \<Rightarrow> string \<Rightarrow> string \<Rightarrow> string \<Rightarrow> string \<Rightarrow> string \<Rightarrow> string res" where
  "ResponseToResponses sdk endpoint model original translated body =
     ResponseFromEndpoint sdk endpoint (FormatOpenAIResponse sdk) model original translated body"

definition ResponsesToClaude :: "'x sdk \<Rightarrow> string \<Rightarrow> string \<Rightarrow> string \<Rightarrow> string \<Rightarrow> string res" where
  "ResponsesToClaude sdk = response sdk (FormatOpenAIResponse sdk) (FormatClaude sdk)"

subsection \<open>Streams\<close>

text \<open>The stream translators of the package on an \<open>any\<close> cell: a cell that holds another type of
  state is replaced.\<close>

definition claude_cell :: "'x any_state \<Rightarrow> responsesClaudeStreamState option" where
  "claude_cell a = (case a of ClaudeState s \<Rightarrow> Some s | _ \<Rightarrow> None)"

definition openai_cell :: "'x any_state \<Rightarrow> responsesOpenAIStreamState option" where
  "openai_cell a = (case a of OpenAIState s \<Rightarrow> Some s | _ \<Rightarrow> None)"

definition claude_openai_cell :: "'x any_state \<Rightarrow> claudeOpenAIStreamState option" where
  "claude_openai_cell a = (case a of ClaudeOpenAIState s \<Rightarrow> Some s | _ \<Rightarrow> None)"

text \<open>The translators of the package on the cell of the caller.\<close>

definition claude_translator ::
  "(string list \<Rightarrow> string list) \<Rightarrow> string \<Rightarrow> string \<Rightarrow> 'x any_state option \<Rightarrow> string list res \<times> 'x any_state option" where
  "claude_translator order model frame state =
     (let (r, st) = responsesStreamToClaude order model frame (map_option claude_cell state)
      in (r, map_option (\<lambda>c. case c of Some s \<Rightarrow> ClaudeState s | None \<Rightarrow> NilAny) st))"

definition chat_translator :: "string \<Rightarrow> string \<Rightarrow> 'x any_state option \<Rightarrow> string list res \<times> 'x any_state option" where
  "chat_translator model frame state =
     (let (r, st) = responsesStreamToOpenAI model frame (map_option openai_cell state)
      in (r, map_option (\<lambda>c. case c of Some s \<Rightarrow> OpenAIState s | None \<Rightarrow> NilAny) st))"

definition claude_chat_translator :: "string \<Rightarrow> string \<Rightarrow> 'x any_state option \<Rightarrow> string list res \<times> 'x any_state option" where
  "claude_chat_translator model frame state =
     (let (r, st) = claudeStreamToOpenAI model frame (map_option claude_openai_cell state)
      in (r, map_option (\<lambda>c. case c of Some s \<Rightarrow> ClaudeOpenAIState s | None \<Rightarrow> NilAny) st))"

definition hop_cells :: "'x any_state \<Rightarrow> 'x any_state \<times> 'x any_state" where
  "hop_cells a = (case a of TwoHop f s \<Rightarrow> (f, s) | _ \<Rightarrow> (NilAny, NilAny))"

fun hop_run :: "(string \<Rightarrow> 'a \<Rightarrow> string list \<times> 'a) \<Rightarrow> string list \<Rightarrow> 'a \<Rightarrow> string list \<times> 'a" where
  "hop_run f [] st = ([], st)"
| "hop_run f (x # xs) st =
     (let (out, st1) = f x st; (outs, st2) = hop_run f xs st1 in (out @ outs, st2))"

text \<open>One hop: the translator on the address of a state.\<close>

definition hop ::
  "'x sdk \<Rightarrow> string \<Rightarrow> string \<Rightarrow> string \<Rightarrow> string \<Rightarrow> string \<Rightarrow> string \<Rightarrow> 'x any_state \<Rightarrow> string list \<times> 'x any_state" where
  "hop sdk from_f to_f model original translated frame cell =
     TranslateStream sdk from_f to_f model original translated frame (Some cell)"

definition two_hop ::
  "'x sdk \<Rightarrow> string \<Rightarrow> string \<Rightarrow> string \<Rightarrow> string \<Rightarrow> string \<Rightarrow> string \<Rightarrow> string \<Rightarrow> 'x any_state \<Rightarrow>
   string list \<times> 'x any_state" where
  "two_hop sdk mid from_f to_f model original translated frame cell =
     (let (first_state, second_state) = hop_cells cell;
          intermediateRequest = TranslateRequest sdk to_f mid model original True;
          (first, first_state') = hop sdk from_f mid model intermediateRequest translated frame first_state;
          (out, second_state') = hop_run (hop sdk mid to_f model original intermediateRequest) first second_state
      in (out, TwoHop first_state' second_state'))"

definition stream ::
  "(string list \<Rightarrow> string list) \<Rightarrow> 'x sdk \<Rightarrow> string \<Rightarrow> string \<Rightarrow> string \<Rightarrow> string \<Rightarrow> string \<Rightarrow> string \<Rightarrow>
   'x any_state option \<Rightarrow> string list res \<times> 'x any_state option" where
  "stream order sdk from_f to_f model original translated frame state =
     (if from_f = FormatOpenAIResponse sdk \<and> to_f = FormatClaude sdk then
        claude_translator order model frame state
      else if from_f = FormatOpenAIResponse sdk \<and> to_f = FormatOpenAI sdk then chat_translator model frame state
      else if from_f = FormatClaude sdk \<and> to_f = FormatOpenAI sdk then claude_chat_translator model frame state
      else if from_f \<noteq> to_f \<and> \<not> HasStreamResponseTransformer sdk to_f from_f then
        (case intermediateFormat sdk to_f from_f of
           None \<Rightarrow> (Inl (ErrorText (''official translator has no stream route from '' @ from_f @ '' to '' @ to_f)), state)
         | Some mid \<Rightarrow>
             (case state of
                None \<Rightarrow> (Inl (ErrorText ''two-hop stream translation requires state''), None)
              | Some cell \<Rightarrow>
                  (let (out, cell') = two_hop sdk mid from_f to_f model original translated frame cell
                   in (Inr out, Some cell'))))
      else
        (let (out, cell') = TranslateStream sdk from_f to_f model original translated frame state;
             state' = map_option (\<lambda>cell. cell') state
         in if out = [frame] \<and> from_f \<noteq> to_f
            then (Inl (ErrorText (''official stream translation from '' @ from_f @ '' to '' @ to_f @ '' fell back unchanged'')), state')
            else (Inr out, state')))"

definition StreamFromEndpoint ::
  "(string list \<Rightarrow> string list) \<Rightarrow> 'x sdk \<Rightarrow> string \<Rightarrow> string \<Rightarrow> string \<Rightarrow> string \<Rightarrow> string \<Rightarrow> string \<Rightarrow>
   'x any_state option \<Rightarrow> string list res \<times> 'x any_state option" where
  "StreamFromEndpoint order sdk endpoint destination model original translated frame state =
     (case endpointFormat sdk endpoint of
        Inl e \<Rightarrow> (Inl e, state)
      | Inr from_f \<Rightarrow>
          (let to_f = FromString sdk destination
           in if from_f = to_f then
                (if to_f = FormatOpenAI sdk then (openAIPassthroughFrame frame, state) else (Inr [frame], state))
              else stream order sdk from_f to_f model original translated frame state))"

definition StreamToResponses ::
  "(string list \<Rightarrow> string list) \<Rightarrow> 'x sdk \<Rightarrow> string \<Rightarrow> string \<Rightarrow> string \<Rightarrow> string \<Rightarrow> string \<Rightarrow>
   'x any_state option \<Rightarrow> string list res \<times> 'x any_state option" where
  "StreamToResponses order sdk endpoint model original translated frame state =
     StreamFromEndpoint order sdk endpoint (FormatOpenAIResponse sdk) model original translated frame state"

definition ResponsesSSEToClaude ::
  "(string list \<Rightarrow> string list) \<Rightarrow> 'x sdk \<Rightarrow> string \<Rightarrow> string \<Rightarrow> string \<Rightarrow> string \<Rightarrow>
   'x any_state option \<Rightarrow> string list res \<times> 'x any_state option" where
  "ResponsesSSEToClaude order sdk = stream order sdk (FormatOpenAIResponse sdk) (FormatClaude sdk)"

subsection \<open>Properties\<close>

lemma hop_run_append:
  "hop_run f (xs @ ys) st =
     (fst (hop_run f xs st) @ fst (hop_run f ys (snd (hop_run f xs st))), snd (hop_run f ys (snd (hop_run f xs st))))"
  by (induction xs arbitrary: st) (simp_all add: split_beta Let_def)

lemma two_hop_TwoHop:
  "two_hop sdk mid from_f to_f model original translated frame (TwoHop a b) =
     (let r = TranslateRequest sdk to_f mid model original True;
          first = hop sdk from_f mid model r translated frame a;
          second = hop_run (hop sdk mid to_f model original r) (fst first) b
      in (fst second, TwoHop (snd first) (snd second)))"
  by (simp add: two_hop_def hop_cells_def Let_def split_beta)

lemma two_hop_run:
  "hop_run (two_hop sdk mid from_f to_f model original translated) frames (TwoHop a b) =
     (let r = TranslateRequest sdk to_f mid model original True;
          first = hop_run (hop sdk from_f mid model r translated) frames a;
          second = hop_run (hop sdk mid to_f model original r) (fst first) b
      in (fst second, TwoHop (snd first) (snd second)))"
proof (induction frames arbitrary: a b)
  case (Cons x xs)
  then show ?case by (simp add: two_hop_TwoHop Let_def split_beta hop_run_append)
qed simp

text \<open>C22: a two-hop stream is a pipeline: over any frames it gives what the second translator gives on
  everything the first one gives, each with a state of its own.\<close>

theorem two_hop_pipeline:
  "fst (hop_run (two_hop sdk mid from_f to_f model original translated) frames NilAny) =
     (let r = TranslateRequest sdk to_f mid model original True
      in fst (hop_run (hop sdk mid to_f model original r)
                (fst (hop_run (hop sdk from_f mid model r translated) frames NilAny)) NilAny))"
proof -
  have "two_hop sdk mid from_f to_f model original translated x NilAny =
      two_hop sdk mid from_f to_f model original translated x (TwoHop NilAny NilAny)" for x
    by (simp add: two_hop_def hop_cells_def)
  then have "fst (hop_run (two_hop sdk mid from_f to_f model original translated) frames NilAny) =
      fst (hop_run (two_hop sdk mid from_f to_f model original translated) frames (TwoHop NilAny NilAny))"
    by (cases frames) simp_all
  then show ?thesis by (simp add: two_hop_run Let_def)
qed

text \<open>Every request that is routed is a JSON object with the model and the stream flag of the call.\<close>

theorem routed_request_model:
  "case RequestForEndpointFrom sdk source model body stream_flag endpoint of
     Inl e \<Rightarrow> True
   | Inr out \<Rightarrow> \<exists>m. out = encode (JObj m) \<and> fld m ''model'' = JStr model \<and> fld m ''stream'' = JBool stream_flag"
proof -
  have "\<exists>m. out = encode (JObj m) \<and> fld m ''model'' = JStr model \<and> fld m ''stream'' = JBool stream_flag"
    if "setModelAndStream b model stream_flag = Inr out" for b out
    using that by (auto simp: setModelAndStream_def simp del: encode.simps split: sum.splits json.splits)
  then show ?thesis
    by (auto simp: RequestForEndpointFrom_def Let_def split: sum.splits)
qed

text \<open>What the decoder makes of a body that was decoded, changed and printed again.\<close>

lemma unmarshal_map_shallow: "unmarshal_map raw = Inr v \<Longrightarrow> shallow 10000 v"
  by (auto simp: unmarshal_map_def decode_all_def max_depth_def simp del: shallow_nested float_json.simps
      dest!: decode_shallow(1) float_shallow split: option.splits json.splits if_splits)

lemma set_model_read:
  assumes "setModelAndStream body model stream_flag = Inr out" "valid_utf8 model"
  shows "\<exists>m. unmarshal_map body = Inr (JObj m) \<and>
    decodeObject out = Inr (obj_put ''stream'' (JBool stream_flag) (obj_put ''model'' (JStr model) m))"
proof -
  obtain m where m: "unmarshal_map body = Inr (JObj m)"
    "out = encode (JObj (obj_put ''stream'' (JBool stream_flag) (obj_put ''model'' (JStr model) m)))"
    using assms(1) by (auto simp: setModelAndStream_def simp del: encode.simps split: sum.splits json.splits)
  have "valid_utf8 ''stream''" "valid_utf8 ''model''" by (simp_all add: valid_ascii_Cons byte_def)
  then have "shallow 10000 (JObj (obj_put ''stream'' (JBool stream_flag) (obj_put ''model'' (JStr model) m)))"
    using unmarshal_map_shallow [OF m(1)] assms(2) by simp
  then show ?thesis using m
    by (simp add: decodeObject_encode shallow_def del: encode.simps wf_json.simps jdepth.simps shallow_nested)
qed

text \<open>C9: what the upstream reads. The body of a routed request, whatever the client sent, is decoded by
  the upstream as the object the translation gave (the client's own one when the formats agree), its
  numbers rounded to \<open>float64\<close>, with the model and the stream flag of the call.\<close>

theorem routed_request_read:
  assumes "RequestForEndpointFrom sdk source model body stream_flag endpoint = Inr out" "valid_utf8 model"
  shows "\<exists>target translated m.
    endpointFormat sdk endpoint = Inr target \<and>
    (if FromString sdk source = target then translated = body
     else request sdk (FromString sdk source) target model body stream_flag = Inr translated) \<and>
    unmarshal_map translated = Inr (JObj m) \<and>
    decodeObject out = Inr (obj_put ''stream'' (JBool stream_flag) (obj_put ''model'' (JStr model) m))"
  using assms(1) set_model_read [OF _ assms(2)]
  by (fastforce simp: RequestForEndpointFrom_def Let_def split: sum.splits if_splits)

text \<open>A translator registry that connects no formats.\<close>

definition empty_sdk :: "unit sdk" where
  "empty_sdk =
     \<lparr> FormatClaude = ''claude'', FormatOpenAI = ''openai'', FormatOpenAIResponse = ''openai-response'',
       FromString = (\<lambda>s. s), HasRequestTransformer = (\<lambda>a b. False),
       HasNonStreamResponseTransformer = (\<lambda>a b. False), HasStreamResponseTransformer = (\<lambda>a b. False),
       TranslateRequest = (\<lambda>a b m body streamed. body), TranslateNonStream = (\<lambda>a b m original translated body. body),
       TranslateStream = (\<lambda>a b m original translated frame st. ([frame], NilAny)) \<rparr>"

theorem routed_request_read_witness:
  \<open>\<exists>m. decodeObject
     ''{"input":[{"content":[{"text":"hi","type":"input_text"}],"role":"user","type":"message"}],"max_output_tokens":8,"model":"m","stream":false}'' =
     Inr (obj_put ''stream'' (JBool False) (obj_put ''model'' (JStr ''m'') m))\<close>
proof -
  have \<open>RequestForEndpointFrom empty_sdk ''claude'' ''m'' ''{"max_tokens":8,"messages":[{"role":"user","content":"hi"}]}'' False EndpointResponses =
    Inr ''{"input":[{"content":[{"text":"hi","type":"input_text"}],"role":"user","type":"message"}],"max_output_tokens":8,"model":"m","stream":false}''\<close>
    by code_simp
  moreover have "valid_utf8 ''m''" by (simp add: valid_ascii_Cons byte_def)
  ultimately show ?thesis using routed_request_read by blast
qed

text \<open>An intermediate format is a third one that connects the two with existing transformers, and
  none is reported only when there is none.\<close>

theorem intermediate_format_correct:
  "case intermediateFormat sdk from_f to_f of
     Some mid \<Rightarrow> mid \<in> {FormatOpenAI sdk, FormatOpenAIResponse sdk, FormatClaude sdk} - {from_f, to_f} \<and>
       HasRequestTransformer sdk from_f mid \<and> HasRequestTransformer sdk mid to_f
   | None \<Rightarrow> \<not> (\<exists>mid. mid \<in> {FormatOpenAI sdk, FormatOpenAIResponse sdk, FormatClaude sdk} - {from_f, to_f} \<and>
       HasRequestTransformer sdk from_f mid \<and> HasRequestTransformer sdk mid to_f)"
  by (auto simp: intermediateFormat_def find_None_iff find_Some_iff split: option.splits if_splits)

text \<open>Setting the model panics exactly on the body \<open>null\<close>: the decoded map is nil there.\<close>

theorem set_model_panics_on_null:
  "(\<exists>msg. setModelAndStream body model stream_flag = Inl (Panic msg)) \<longleftrightarrow> decode_all body = Some JNull"
proof -
  have "\<not> (\<exists>v. float_json (JObj m) = Some v \<and> \<not> (\<exists>m'. v = JObj m'))" for m
    by auto
  then show ?thesis
    by (auto simp: setModelAndStream_def unmarshal_map_def simp del: float_json.simps
        split: option.splits json.splits)
qed

text \<open>Numbers pass through \<open>float64\<close> on the way: an integer beyond \<open>2 ^ 53\<close> is rounded.\<close>

theorem set_model_rounds_integers:
  \<open>setModelAndStream ''{"seed":9007199254740993}'' ''m'' False =
     Inr ''{"model":"m","seed":9007199254740992,"stream":false}''\<close>
  by code_simp

end
