(* ===== verification/Go_Time.thy ===== *)
theory Go_Time
  imports Go_Strings
begin

text \<open>
  The part of package \<open>time\<close> the provider uses. A \<open>time.Duration\<close> is an \<open>int64\<close> number of
  nanoseconds, whose arithmetic wraps; a \<open>time.Time\<close> is the number of nanoseconds since the
  start of year 1, Go's internal epoch (the monotonic reading is identified with the wall
  clock). \<open>Unix\<close> wraps and \<open>Add\<close> saturates in the \<open>int64\<close> seconds, as in the library.
\<close>

type_synonym time = int
type_synonym duration = int

definition wrap64 :: "int \<Rightarrow> int" where
  "wrap64 n = (n + 9223372036854775808) mod 18446744073709551616 - 9223372036854775808"

definition Second :: duration where "Second = 1000000000"
definition Minute :: duration where "Minute = 60000000000"
definition Hour :: duration where "Hour = 3600000000000"

text \<open>\<open>time.Duration(n) * time.Second\<close>.\<close>

definition Seconds :: "int \<Rightarrow> duration" where
  "Seconds n = wrap64 (n * 1000000000)"

definition unix_epoch :: int where "unix_epoch = 62135596800"

text \<open>\<open>time.Unix(sec, 0)\<close>, \<open>t.Unix()\<close>, \<open>t.Add(d)\<close>.\<close>

definition Unix :: "int \<Rightarrow> time" where
  "Unix sec = wrap64 (sec + unix_epoch) * 1000000000"

definition UnixSeconds :: "time \<Rightarrow> int" where
  "UnixSeconds t = wrap64 (t div 1000000000 - unix_epoch)"

definition Add :: "time \<Rightarrow> duration \<Rightarrow> time" where
  "Add t d =
     (let s = (t + d) div 1000000000; n = (t + d) mod 1000000000;
          s' = (if s > 9223372036854775807 then 9223372036854775807
                else if s < - 9223372036854775808 then - 9223372036854775807 else s)
      in s' * 1000000000 + n)"

lemma wrap64_id: "min_int64 \<le> n \<Longrightarrow> n \<le> max_int64 \<Longrightarrow> wrap64 n = n"
  by (simp add: wrap64_def min_int64_def max_int64_def)

lemma wrap64_range: "min_int64 \<le> wrap64 n \<and> wrap64 n \<le> max_int64"
  using pos_mod_bound [of 18446744073709551616 "n + 9223372036854775808"]
    pos_mod_sign [of 18446744073709551616 "n + 9223372036854775808"]
  by (simp add: wrap64_def min_int64_def max_int64_def)

text \<open>Times within 290 billion years of the epoch: nothing saturates.\<close>

definition sane_time :: "time \<Rightarrow> bool" where
  "sane_time t \<longleftrightarrow> \<bar>t\<bar> \<le> 9000000000000000000000000000"

lemma Add_exact:
  assumes "sane_time t" "min_int64 \<le> d" "d \<le> max_int64"
  shows "Add t d = t + d"
proof -
  define s where "s = (t + d) div 1000000000"
  have "t + d = s * 1000000000 + (t + d) mod 1000000000"
    by (simp add: s_def)
  moreover have "0 \<le> (t + d) mod 1000000000" "(t + d) mod 1000000000 < 1000000000" by simp_all
  moreover have "\<bar>t\<bar> \<le> 9000000000000000000000000000" "- 9223372036854775808 \<le> d" "d \<le> 9223372036854775807"
    using assms by (simp_all add: sane_time_def min_int64_def max_int64_def)
  ultimately have "s \<le> 9223372036854775807" "- 9223372036854775808 \<le> s" by linarith+
  then show ?thesis
    by (simp add: Add_def Let_def s_def)
qed

subsection \<open>Formatting in UTC\<close>

definition pad2 :: "int \<Rightarrow> string" where
  "pad2 n = (if n < 10 then ''0'' @ Itoa n else Itoa n)"

definition pad4 :: "int \<Rightarrow> string" where
  "pad4 n =
     (let a = \<bar>n\<bar> in (if n < 0 then ''-'' else []) @
        (if a < 10 then ''000'' else if a < 100 then ''00'' else if a < 1000 then ''0'' else []) @ Itoa a)"

text \<open>Year, month and day of a day number counted from 0000-03-01 (years start in March).\<close>

definition civil :: "int \<Rightarrow> int \<times> int \<times> int" where
  "civil z =
     (let era = z div 146097; doe = z mod 146097;
          yoe = (doe - doe div 1460 + doe div 36524 - doe div 146096) div 365;
          doy = doe - (365 * yoe + yoe div 4 - yoe div 100);
          mp = (5 * doy + 2) div 153;
          d = doy - (153 * mp + 2) div 5 + 1;
          m = (if mp < 10 then mp + 3 else mp - 9);
          y = yoe + era * 400
      in (if m \<le> 2 then y + 1 else y, m, d))"

definition day_number :: "time \<Rightarrow> int" where
  "day_number t = t div 86400000000000"

definition date_of :: "time \<Rightarrow> int \<times> int \<times> int" where
  "date_of t = civil (day_number t + 306)"

definition clock_text :: "time \<Rightarrow> string" where
  "clock_text t =
     (let s = t div 1000000000 mod 86400
      in pad2 (s div 3600) @ '':'' @ pad2 (s div 60 mod 60) @ '':'' @ pad2 (s mod 60))"

text \<open>\<open>t.UTC().Format(time.RFC3339)\<close> and \<open>t.UTC().Format(http.TimeFormat)\<close>.\<close>

definition FormatRFC3339 :: "time \<Rightarrow> string" where
  "FormatRFC3339 t =
     (let (y, m, d) = date_of t
      in pad4 y @ ''-'' @ pad2 m @ ''-'' @ pad2 d @ ''T'' @ clock_text t @ ''Z'')"

definition weekday_name :: "int \<Rightarrow> string" where
  "weekday_name n = (if n = 0 then ''Mon'' else if n = 1 then ''Tue'' else if n = 2 then ''Wed''
     else if n = 3 then ''Thu'' else if n = 4 then ''Fri'' else if n = 5 then ''Sat'' else ''Sun'')"

definition month_name :: "int \<Rightarrow> string" where
  "month_name m = (if m = 1 then ''Jan'' else if m = 2 then ''Feb'' else if m = 3 then ''Mar''
     else if m = 4 then ''Apr'' else if m = 5 then ''May'' else if m = 6 then ''Jun''
     else if m = 7 then ''Jul'' else if m = 8 then ''Aug'' else if m = 9 then ''Sep''
     else if m = 10 then ''Oct'' else if m = 11 then ''Nov'' else ''Dec'')"

definition FormatHTTP :: "time \<Rightarrow> string" where
  "FormatHTTP t =
     (let (y, m, d) = date_of t
      in weekday_name (day_number t mod 7) @ '', '' @ pad2 d @ '' '' @ month_name m @ '' '' @ pad4 y @
         '' '' @ clock_text t @ '' GMT'')"

end
