(* ===== verification/Go_Struct.thy ===== *)
theory Go_Struct
  imports Go_Json_Roundtrip Go_Float
begin

text \<open>
  \<open>json.Unmarshal\<close> into Go structs. The decoder takes the members of an object in the order of
  the input, repeated ones included, and sets the field whose name matches up to case; so the
  input is first read into a value that keeps that order (\<open>read_ordered\<close>). \<open>canon\<close> forgets the
  order: then it is the value the untyped decoder of \<open>Go_Json\<close> gives (\<open>read_ordered_canon\<close>).

  A setter takes the old value of a field and a JSON value to the new value, \<open>None\<close> for an
  \<open>UnmarshalTypeError\<close>. The code uses a decoded value only when there was no error, so what the
  library leaves behind besides a type error is not modelled.
\<close>

subsection \<open>Values in the order of the input\<close>

function order_val :: "int \<Rightarrow> string \<Rightarrow> (json \<times> string) option"
  and order_elems :: "int \<Rightarrow> string \<Rightarrow> (json list \<times> string) option"
  and order_members :: "int \<Rightarrow> string \<Rightarrow> (obj \<times> string) option"
where
  "order_val d s =
     (case skip_ws s of [] \<Rightarrow> None
      | c # r \<Rightarrow>
          if c = CHR 0x22 then map_option (\<lambda>(t, r'). (JStr t, r')) (unquote r)
          else if c = CHR ''['' then
            (if d \<le> 0 then None
             else (case skip_ws r of [] \<Rightarrow> None
                   | e # r' \<Rightarrow>
                       if e = CHR '']'' then Some (JArr [], r')
                       else if length r < length s
                       then map_option (\<lambda>(vs, r''). (JArr vs, r'')) (order_elems (d - 1) r)
                       else None))
          else if c = CHR 0x7B then
            (if d \<le> 0 then None
             else (case skip_ws r of [] \<Rightarrow> None
                   | e # r' \<Rightarrow>
                       if e = CHR 0x7D then Some (JObj [], r')
                       else if length r < length s
                       then map_option (\<lambda>(m, r''). (JObj m, r'')) (order_members (d - 1) r)
                       else None))
          else if c = CHR ''-'' \<or> is_digit c
          then map_option (\<lambda>(n, r'). (JNum n, r')) (number (c # r))
          else literal_val (c # r))"
| "order_elems d s =
     (case order_val d s of None \<Rightarrow> None
      | Some (v, r) \<Rightarrow>
          (case skip_ws r of [] \<Rightarrow> None
           | c # r' \<Rightarrow>
               if c = CHR '','' then
                 (if length r' < length s
                  then map_option (\<lambda>(vs, r''). (v # vs, r'')) (order_elems d r') else None)
               else if c = CHR '']'' then Some ([v], r')
               else None))"
| "order_members d s =
     (case skip_ws s of [] \<Rightarrow> None
      | q # s1 \<Rightarrow>
          if q \<noteq> CHR 0x22 then None else
          (case unquote s1 of None \<Rightarrow> None
           | Some (k, s2) \<Rightarrow>
               (case skip_ws s2 of [] \<Rightarrow> None
                | c # s3 \<Rightarrow>
                    if c \<noteq> CHR '':'' \<or> \<not> length s3 < length s then None else
                    (case order_val d s3 of None \<Rightarrow> None
                     | Some (v, r) \<Rightarrow>
                         (case skip_ws r of [] \<Rightarrow> None
                          | e # r' \<Rightarrow>
                              if e = CHR '','' then
                                (if length r' < length s
                                 then map_option (\<lambda>(m, r''). ((k, v) # m, r'')) (order_members d r') else None)
                              else if e = CHR 0x7D then Some ([(k, v)], r')
                              else None)))))"
  by pat_completeness auto
termination
  by (relation "measure (\<lambda>x. case x of Inl (d, s) \<Rightarrow> 2 * length s
        | Inr (Inl (d, s)) \<Rightarrow> 2 * length s + 1
        | Inr (Inr (d, s)) \<Rightarrow> 2 * length s + 1)") auto

declare order_val.simps [simp del] order_elems.simps [simp del] order_members.simps [simp del]

definition read_ordered :: "string \<Rightarrow> json option" where
  "read_ordered s =
     (case order_val max_depth s of None \<Rightarrow> None
      | Some (v, r) \<Rightarrow> if skip_ws r = [] then Some v else None)"

fun canon :: "json \<Rightarrow> json" where
  "canon (JArr vs) = JArr (map canon vs)"
| "canon (JObj m) = JObj (fold (\<lambda>(k, v). obj_put k v) (map (\<lambda>(k, v). (k, canon v)) m) [])"
| "canon v = v"

abbreviation put_members :: "obj \<Rightarrow> obj \<Rightarrow> obj" where
  "put_members ms m \<equiv> fold (\<lambda>(k, v). obj_put k v) (map (\<lambda>(k, v). (k, canon v)) ms) m"

lemma decode_val_order:
  "decode_val d s = map_option (\<lambda>(v, r). (canon v, r)) (order_val d s)"
  "decode_elems d s = map_option (\<lambda>(vs, r). (map canon vs, r)) (order_elems d s)"
  "decode_members d s m = map_option (\<lambda>(ms, r). (put_members ms m, r)) (order_members d s)"
proof (induction d s and d s and d s m rule: decode_val_decode_elems_decode_members.induct)
  case (1 d s)
  show ?case
  proof (cases "skip_ws s")
    case Nil
    then show ?thesis by (simp add: decode_val.simps [of d s] order_val.simps [of d s])
  next
    case (Cons c r)
    consider "c = CHR 0x22" | "c = CHR ''[''" | "c = CHR 0x7B"
      | "c \<noteq> CHR 0x22" "c \<noteq> CHR ''[''" "c \<noteq> CHR 0x7B" by blast
    then show ?thesis
    proof cases
      case 1
      with Cons show ?thesis
        by (simp add: decode_val.simps [of d s] order_val.simps [of d s] option.map_comp comp_def case_prod_unfold)
    next
      case 2
      with Cons "1.IH"(1) [OF Cons] show ?thesis
        by (simp add: decode_val.simps [of d s] order_val.simps [of d s] option.map_comp comp_def case_prod_unfold
            split: list.split)
    next
      case 3
      with Cons "1.IH"(2) [OF Cons] show ?thesis
        by (simp add: decode_val.simps [of d s] order_val.simps [of d s] option.map_comp comp_def case_prod_unfold
            split: list.split)
    next
      case 4
      with Cons show ?thesis
        by (simp add: decode_val.simps [of d s] order_val.simps [of d s] option.map_comp comp_def case_prod_unfold
            literal_val_def)
    qed
  qed
next
  case (2 d s)
  show ?case
  proof (cases "order_val d s")
    case None
    with "2.IH"(1) show ?thesis by (simp add: decode_elems.simps [of d s] order_elems.simps [of d s])
  next
    case (Some p)
    then obtain v r where p: "order_val d s = Some (v, r)" by (cases p) simp
    with "2.IH"(1) have "decode_val d s = Some (canon v, r)" by simp
    with p "2.IH"(2) [OF this refl] show ?thesis
      by (simp add: decode_elems.simps [of d s] order_elems.simps [of d s] option.map_comp comp_def case_prod_unfold
          split: list.split)
  qed
next
  case (3 d s m)
  show ?case
  proof (cases "skip_ws s")
    case Nil
    then show ?thesis by (simp add: decode_members.simps [of d s m] order_members.simps [of d s])
  next
    case 1: (Cons q s1)
    show ?thesis
    proof (cases "q = CHR 0x22 \<and> unquote s1 \<noteq> None")
      case False
      then have "q \<noteq> CHR 0x22 \<or> unquote s1 = None" by blast
      with 1 show ?thesis
        by (elim disjE) (simp_all add: decode_members.simps [of d s m] order_members.simps [of d s])
    next
      case True
      then obtain k s2 where 2: "q = CHR 0x22" "unquote s1 = Some (k, s2)" by auto
      show ?thesis
      proof (cases "skip_ws s2")
        case Nil
        with 1 2 show ?thesis
          by (simp add: decode_members.simps [of d s m] order_members.simps [of d s])
      next
        case 3: (Cons c s3)
        show ?thesis
        proof (cases "c = CHR '':'' \<and> length s3 < length s \<and> order_val d s3 \<noteq> None")
          case False
          then consider "\<not> (c = CHR '':'' \<and> length s3 < length s)"
            | "c = CHR '':''" "length s3 < length s" "order_val d s3 = None" by blast
          then show ?thesis
            using 1 2 3 "3.IH"(1) [OF 1 _ 2(2) refl 3]
            by cases (simp_all add: decode_members.simps [of d s m] order_members.simps [of d s])
        next
          case True
          then obtain v r where 4: "c = CHR '':''" "length s3 < length s" "order_val d s3 = Some (v, r)" by auto
          with "3.IH"(1) [OF 1 _ 2(2) refl 3] 2(1) have 5: "decode_val d s3 = Some (canon v, r)" by simp
          show ?thesis
            using 1 2 3 4 5 "3.IH"(2) [OF 1 _ 2(2) refl 3 _ 5 refl]
            by (simp add: decode_members.simps [of d s m] order_members.simps [of d s] option.map_comp comp_def
                split_beta split: list.split)
        qed
      qed
    qed
  qed
qed

theorem read_ordered_canon: "decode_all s = map_option canon (read_ordered s)"
  by (auto simp: decode_all_def read_ordered_def decode_val_order split: option.splits)

text \<open>An object of scalar members, in any order, is read back member by member.\<close>

fun scalar :: "json \<Rightarrow> bool" where
  "scalar (JArr vs) = False"
| "scalar (JObj m) = False"
| "scalar v = True"

lemma order_scalar:
  assumes "wf_json v" "scalar v" "0 \<le> d" "stops t"
  shows "order_val d (encode v @ t) = Some (v, t)"
proof -
  have "jdepth v = 0" using assms(2) by (cases v) simp_all
  then have "decode_val d (encode v @ t) = Some (v, t)"
    using reads_back_wf [OF assms(1)] assms(3,4) by (simp add: reads_back_def)
  then obtain v' where "order_val d (encode v @ t) = Some (v', t)" "canon v' = v"
    by (auto simp: decode_val_order)
  moreover have "v' = v" using \<open>canon v' = v\<close> assms(2) by (cases v') auto
  ultimately show ?thesis by simp
qed

text \<open>A value the encoder writes is read back with its members in the order they were written.\<close>

fun plain_json :: "json \<Rightarrow> bool" where
  "plain_json (JArr vs) = list_all plain_json vs"
| "plain_json (JObj m) = list_all (\<lambda>(k, v). valid_utf8 k \<and> plain_json v) m"
| "plain_json v = wf_json v"

definition written_back :: "json \<Rightarrow> bool" where
  "written_back v \<longleftrightarrow> (\<forall>d t. int (jdepth v) \<le> d \<longrightarrow> stops t \<longrightarrow> order_val d (encode v @ t) = Some (v, t))"

lemma written_backD:
  "written_back v \<Longrightarrow> int (jdepth v) \<le> d \<Longrightarrow> stops t \<Longrightarrow> order_val d (encode v @ t) = Some (v, t)"
  by (simp add: written_back_def)

lemma plain_front: "plain_json v \<Longrightarrow> \<exists>c u. encode v = c # u \<and> \<not> json_space c \<and> c \<noteq> CHR '']''"
proof (cases "scalar v")
  case True
  moreover assume "plain_json v"
  ultimately have "wf_json v" by (cases v) auto
  then show ?thesis using encode_front by blast
next
  case False
  then show ?thesis by (cases v) auto
qed

lemma order_elems_encode:
  assumes "vs \<noteq> []" "\<And>v. v \<in> set vs \<Longrightarrow> written_back v \<and> int (jdepth v) \<le> d"
  shows "order_elems d (Join (map encode vs) '','' @ CHR '']'' # t) = Some (vs, t)"
  using assms
proof (induction vs)
  case (Cons v vs)
  have v: "order_val d (encode v @ u) = Some (v, u)" if "stops u" for u
    using Cons.prems(2) [of v] that by (simp add: written_backD)
  show ?case
  proof (cases "vs = []")
    case True
    with v [of "CHR '']'' # t"] show ?thesis
      by (simp add: order_elems.simps [of _ "encode v @ _"] skip_ws_fix)
  next
    case False
    then have j: "Join (map encode (v # vs)) '','' @ CHR '']'' # t =
        encode v @ CHR '','' # (Join (map encode vs) '','' @ CHR '']'' # t)"
      by (simp add: Join_Cons)
    have "order_elems d (Join (map encode vs) '','' @ CHR '']'' # t) = Some (vs, t)"
      using Cons False by simp
    then show ?thesis
      unfolding j by (simp add: order_elems.simps [of _ "encode v @ _"] skip_ws_fix v)
  qed
qed simp

lemma order_member_step:
  assumes "valid_utf8 k" "written_back v" "int (jdepth v) \<le> d" "stops t"
  shows "order_members d (encode_field (k, v) @ t) =
    (case skip_ws t of [] \<Rightarrow> None
     | e # r \<Rightarrow> if e = CHR '','' then
                  (if length r < length (encode_field (k, v) @ t)
                   then map_option (\<lambda>(m, r'). ((k, v) # m, r')) (order_members d r) else None)
                else if e = CHR 0x7D then Some ([(k, v)], r) else None)"
proof -
  have "unquote (quote_body k @ CHR 0x22 # CHR '':'' # encode v @ t) = Some (k, CHR '':'' # encode v @ t)"
    using assms(1) by (rule unquote_quote_body)
  then show ?thesis
    using written_backD [OF assms(2-4)]
    by (simp add: order_members.simps [of _ "encode_field (k, v) @ t"])
       (simp add: encode_field_def quote_def skip_ws_fix)
qed

lemma order_members_encode:
  assumes "m \<noteq> []" "\<And>k v. (k, v) \<in> set m \<Longrightarrow> valid_utf8 k \<and> written_back v \<and> int (jdepth v) \<le> d"
  shows "order_members d (Join (map encode_field m) '','' @ CHR 0x7D # t) = Some (m, t)"
  using assms
proof (induction m)
  case (Cons p m)
  obtain k v where p: "p = (k, v)" by (cases p)
  have kv: "valid_utf8 k" "written_back v" "int (jdepth v) \<le> d"
    using Cons.prems(2) [of k v] by (auto simp: p)
  show ?case
  proof (cases "m = []")
    case True
    with order_member_step [OF kv, of "CHR 0x7D # t"] show ?thesis by (simp add: p skip_ws_fix)
  next
    case False
    let ?r = "Join (map encode_field m) '','' @ CHR 0x7D # t"
    have "Join (map encode_field (p # m)) '','' @ CHR 0x7D # t = encode_field (k, v) @ CHR '','' # ?r"
      using False by (simp add: Join_Cons p)
    moreover have "order_members d ?r = Some (m, t)"
      by (rule Cons.IH [OF False]) (rule Cons.prems(2), simp)
    ultimately show ?thesis
      using order_member_step [OF kv, of "CHR '','' # ?r"] by (simp add: p skip_ws_fix)
  qed
qed simp

lemma written_back_plain: "plain_json v \<Longrightarrow> written_back v"
proof (induction v)
  case (JArr vs)
  have el: "written_back v \<and> int (jdepth v) \<le> d - 1"
    if "v \<in> set vs" "int (jdepth (JArr vs)) \<le> d" for v d
    using that JArr fold_max_ge [of "jdepth v" "map jdepth vs" 0] by (auto simp: list_all_iff)
  show ?case
  proof (cases "vs = []")
    case True
    then show ?thesis by (simp add: written_back_def order_val.simps [of _ "_ # _"] skip_ws_fix)
  next
    case False
    then obtain v ws where vs: "vs = v # ws" by (cases vs) auto
    with JArr.prems obtain c u where cu: "encode v = c # u" "\<not> json_space c" "c \<noteq> CHR '']''"
      using plain_front by fastforce
    have front: "\<exists>u'. Join (map encode vs) '','' = c # u'"
      by (cases ws) (simp_all add: vs cu)
    have "order_val d (encode (JArr vs) @ t) = Some (JArr vs, t)" if "int (jdepth (JArr vs)) \<le> d" for d t
    proof -
      have "0 < d" using that by simp
      with front cu order_elems_encode [OF False, of "d - 1" t] el [OF _ that] show ?thesis
        by (auto simp: order_val.simps [of d "_ # _"] skip_ws_fix)
    qed
    then show ?thesis by (simp add: written_back_def del: encode.simps jdepth.simps)
  qed
next
  case (JObj m)
  have el: "valid_utf8 k \<and> written_back v \<and> int (jdepth v) \<le> d - 1"
    if "(k, v) \<in> set m" "int (jdepth (JObj m)) \<le> d" for k v d
    using that JObj.prems JObj.IH [of "(k, v)" v] fold_max_ge [of "jdepth v" "map (\<lambda>(k, v). jdepth v) m" 0]
    by (fastforce simp: list_all_iff)
  show ?case
  proof (cases "m = []")
    case True
    then show ?thesis by (simp add: written_back_def order_val.simps [of _ "_ # _"] skip_ws_fix)
  next
    case False
    have front: "\<exists>u'. Join (map encode_field m) '','' = CHR 0x22 # u'"
      using False by (cases m; cases "tl m") (simp_all add: encode_field_def quote_def)
    have "order_val d (encode (JObj m) @ t) = Some (JObj m, t)" if "int (jdepth (JObj m)) \<le> d" for d t
    proof -
      have "0 < d" using that by simp
      with front order_members_encode [OF False, of "d - 1" t] el [OF _ that] show ?thesis
        by (auto simp: order_val.simps [of d "_ # _"] skip_ws_fix encode_JObj simp del: encode.simps)
    qed
    then show ?thesis by (simp add: written_back_def del: encode.simps jdepth.simps)
  qed
qed (use order_scalar in \<open>simp_all add: written_back_def del: encode.simps\<close>)

theorem read_ordered_encode: "plain_json v \<Longrightarrow> jdepth v \<le> 10000 \<Longrightarrow> read_ordered (encode v) = Some v"
  using written_backD [OF written_back_plain, of v max_depth "[]"]
  by (simp add: read_ordered_def skip_ws_def max_depth_def)

definition flat_member :: "string \<times> json \<Rightarrow> bool" where
  "flat_member p \<longleftrightarrow> valid_utf8 (fst p) \<and> wf_json (snd p) \<and> scalar (snd p)"

lemma flat_plain: "list_all flat_member m \<Longrightarrow> plain_json (JObj m)"
  by (auto simp: list_all_iff flat_member_def elim!: scalar.elims(2))

theorem read_ordered_flat:
  assumes "list_all flat_member m"
  shows "read_ordered (encode (JObj m)) = Some (JObj m)"
proof (rule read_ordered_encode [OF flat_plain [OF assms]])
  have "jdepth v = 0" if "scalar v" for v using that by (cases v) simp_all
  then have "fold max (map (\<lambda>(k, v). jdepth v) m) 0 \<le> 0"
    using assms by (intro jdepth_bound) (auto simp: list_all_iff flat_member_def)
  then show "jdepth (JObj m) \<le> 10000" by simp
qed

subsection \<open>Setters\<close>

fun set_string :: "json \<Rightarrow> string \<Rightarrow> string option" where
  "set_string (JStr s) old = Some s"
| "set_string JNull old = Some old"
| "set_string _ old = None"

fun set_bool :: "json \<Rightarrow> bool \<Rightarrow> bool option" where
  "set_bool (JBool b) old = Some b"
| "set_bool JNull old = Some old"
| "set_bool _ old = None"

fun set_int64 :: "json \<Rightarrow> int \<Rightarrow> int option" where
  "set_int64 (JNum n) old = (case ParseInt n of (i, ok) \<Rightarrow> if ok then Some i else None)"
| "set_int64 JNull old = Some old"
| "set_int64 _ old = None"

text \<open>A field of type \<open>any\<close>: numbers become \<open>float64\<close>.\<close>

definition set_any :: "json \<Rightarrow> json \<Rightarrow> json option" where
  "set_any v old = map_option canon (float_json v)"

text \<open>Slices: an element is decoded into the one that was there before, if any.\<close>

fun set_elems :: "(json \<Rightarrow> 'a \<Rightarrow> 'a option) \<Rightarrow> 'a \<Rightarrow> json list \<Rightarrow> 'a list \<Rightarrow> 'a list option" where
  "set_elems f z [] old = Some []"
| "set_elems f z (v # vs) old =
     (case f v (case old of [] \<Rightarrow> z | x # _ \<Rightarrow> x) of None \<Rightarrow> None
      | Some x \<Rightarrow> map_option (Cons x) (set_elems f z vs (drop 1 old)))"

fun set_list :: "(json \<Rightarrow> 'a \<Rightarrow> 'a option) \<Rightarrow> 'a \<Rightarrow> json \<Rightarrow> 'a list \<Rightarrow> 'a list option" where
  "set_list f z (JArr vs) old = set_elems f z vs old"
| "set_list f z JNull old = Some []"
| "set_list f z _ old = None"

text \<open>\<open>map[string]string\<close>.\<close>

fun set_map_members :: "obj \<Rightarrow> (string \<times> string) list \<Rightarrow> (string \<times> string) list option" where
  "set_map_members [] m = Some m"
| "set_map_members ((k, v) # r) m =
     (case set_string v [] of None \<Rightarrow> None | Some s \<Rightarrow> set_map_members r (obj_put k s m))"

fun set_map :: "json \<Rightarrow> (string \<times> string) list \<Rightarrow> (string \<times> string) list option" where
  "set_map (JObj ms) old = set_map_members ms old"
| "set_map JNull old = Some []"
| "set_map _ old = None"

subsection \<open>Structs\<close>

text \<open>Names are compared after case folding.\<close>

type_synonym 'a fields = "(string \<times> (json \<Rightarrow> 'a \<Rightarrow> 'a option)) list"

fun set_members :: "'a fields \<Rightarrow> obj \<Rightarrow> 'a \<Rightarrow> 'a option" where
  "set_members fs [] x = Some x"
| "set_members fs ((k, v) # r) x =
     (case map_of fs (fold_name k) of None \<Rightarrow> set_members fs r x
      | Some f \<Rightarrow> (case f v x of None \<Rightarrow> None | Some x' \<Rightarrow> set_members fs r x'))"

fun set_struct :: "'a fields \<Rightarrow> json \<Rightarrow> 'a \<Rightarrow> 'a option" where
  "set_struct fs (JObj ms) x = set_members fs ms x"
| "set_struct fs JNull x = Some x"
| "set_struct fs _ x = None"

text \<open>A field setter from the setter of its type and the record update of the field.\<close>

definition at_field :: "('a \<Rightarrow> 'b) \<Rightarrow> (('b \<Rightarrow> 'b) \<Rightarrow> 'a \<Rightarrow> 'a) \<Rightarrow> (json \<Rightarrow> 'b \<Rightarrow> 'b option) \<Rightarrow> json \<Rightarrow> 'a \<Rightarrow> 'a option" where
  "at_field get upd f v x = map_option (\<lambda>y. upd (\<lambda>_. y) x) (f v (get x))"

text \<open>\<open>json.Unmarshal(raw, &x)\<close>.\<close>

definition unmarshal :: "'a fields \<Rightarrow> string \<Rightarrow> 'a \<Rightarrow> 'a option" where
  "unmarshal fs raw x = (case read_ordered raw of None \<Rightarrow> None | Some v \<Rightarrow> set_struct fs v x)"

lemma set_members_append:
  "set_members fs (a @ b) x = (case set_members fs a x of None \<Rightarrow> None | Some y \<Rightarrow> set_members fs b y)"
  by (induction fs a x rule: set_members.induct) (auto split: option.splits)

end
