(* ===== verification/Redact.thy ===== *)
theory Redact
  imports Go_Strings
begin

text \<open>
  Redaction of error text: \<open>internal/redact/redact.go\<close>. The three patterns are matchers on the
  front of the text; they never backtrack, because every repetition is followed by something
  that cannot continue it. \<open>ReplaceAllString\<close> tries a pattern at every position from the left
  and goes on after a match.
\<close>

definition mark :: string where "mark = ''[REDACTED]''"

subsection \<open>The patterns\<close>

definition re_space :: "char \<Rightarrow> bool" where
  "re_space c \<longleftrightarrow> c = CHR 0x20 \<or> c = CHR 0x09 \<or> c = CHR 0x0A \<or> c = CHR 0x0C \<or> c = CHR 0x0D"

definition word_char :: "char \<Rightarrow> bool" where
  "word_char c \<longleftrightarrow> is_digit c \<or> c = CHR ''_'' \<or> (97 \<le> byte (ascii_lower c) \<and> byte (ascii_lower c) \<le> 122)"

text \<open>\<open>(?i)\<close>: the bytes of the text that match the letter \<open>c\<close> at the front, 0 for none. The long s
  and the Kelvin sign are the two runes beyond ASCII with an ASCII case variant.\<close>

definition fold_len :: "char \<Rightarrow> string \<Rightarrow> nat" where
  "fold_len c s =
     (case s of [] \<Rightarrow> 0
      | a # r \<Rightarrow>
          if ascii_lower a = c then 1
          else if c = CHR ''s'' \<and> take 2 s = [CHR 0xC5, CHR 0xBF] then 2
          else if c = CHR ''k'' \<and> take 3 s = [CHR 0xE2, CHR 0x84, CHR 0xAA] then 3
          else 0)"

fun match_fold :: "string \<Rightarrow> string \<Rightarrow> nat option" where
  "match_fold [] s = Some 0"
| "match_fold (c # p) s =
     (let n = fold_len c s in if n = 0 then None else map_option ((+) n) (match_fold p (drop n s)))"

text \<open>A matcher gives the lengths of group 1, of the part that is replaced and of group 2.\<close>

type_synonym matcher = "char option \<Rightarrow> string \<Rightarrow> (nat \<times> nat \<times> nat) option"

definition run_len :: "(char \<Rightarrow> bool) \<Rightarrow> string \<Rightarrow> nat" where
  "run_len P s = length (takeWhile P s)"

fun first_match :: "string list \<Rightarrow> string \<Rightarrow> nat option" where
  "first_match [] s = None"
| "first_match (p # ps) s = (case match_fold p s of Some n \<Rightarrow> Some n | None \<Rightarrow> first_match ps s)"

definition auth_header :: matcher where
  "auth_header prev s =
     (case match_fold ''authorization'' s of None \<Rightarrow> None
      | Some n1 \<Rightarrow>
        (let n2 = n1 + run_len re_space (drop n1 s)
         in case drop n2 s of [] \<Rightarrow> None
            | c # r \<Rightarrow>
              if c \<noteq> CHR '':'' \<and> c \<noteq> CHR ''='' then None
              else
                (let n3 = n2 + 1 + run_len re_space r
                 in case first_match [''bearer'', ''token''] (drop n3 s) of None \<Rightarrow> None
                    | Some k \<Rightarrow>
                      (let n4 = n3 + k; w = run_len re_space (drop n4 s);
                           v = run_len (\<lambda>c. \<not> re_space c \<and> c \<noteq> CHR '','' \<and> c \<noteq> CHR '';'' \<and>
                                  c \<noteq> CHR 0x22 \<and> c \<noteq> CHR 0x27) (drop (n4 + w) s)
                       in if w = 0 \<or> v = 0 then None else Some (n4 + w, v, 0)))))"

definition token_names :: "string list" where
  "token_names = [''access_token'', ''refresh_token'', ''github_access_token'', ''github_refresh_token'', ''token'']"

definition json_token :: matcher where
  "json_token prev s =
     (if take 1 s \<noteq> [CHR 0x22] then None
      else case first_match (map (\<lambda>n. n @ [CHR 0x22]) token_names) (drop 1 s) of None \<Rightarrow> None
      | Some k \<Rightarrow>
        (let n1 = 1 + k + run_len re_space (drop (1 + k) s)
         in if take 1 (drop n1 s) \<noteq> '':'' then None
            else
              (let n2 = n1 + 1 + run_len re_space (drop (n1 + 1) s)
               in if take 1 (drop n2 s) \<noteq> [CHR 0x22] then None
                  else
                    (let v = run_len (\<lambda>c. c \<noteq> CHR 0x22) (drop (n2 + 1) s)
                     in if v = 0 \<or> drop (n2 + 1 + v) s = [] then None else Some (n2 + 1, v, 1)))))"

definition bare_prefix :: "string \<Rightarrow> nat option" where
  "bare_prefix s =
     (if take 2 s = ''gh'' \<and> take 1 (drop 3 s) = ''_'' \<and> (\<exists>c \<in> set ''opurs''. take 1 (drop 2 s) = [c]) then Some 4
      else if take 11 s = ''github_pat_'' then Some 11
      else None)"

definition bare_token :: matcher where
  "bare_token prev s =
     (if (case prev of None \<Rightarrow> False | Some c \<Rightarrow> word_char c) then None
      else case bare_prefix s of None \<Rightarrow> None
      | Some n \<Rightarrow>
        (let k = run_len word_char (drop n s) in if k < 20 then None else Some (0, n + k, 0)))"

definition tokenPatterns :: "matcher list" where
  "tokenPatterns = [auth_header, json_token, bare_token]"

subsection \<open>Replacing\<close>

text \<open>\<open>pattern.ReplaceAllString(out, "${1}[REDACTED]${2}")\<close>.\<close>

function replace_matches :: "matcher \<Rightarrow> char option \<Rightarrow> string \<Rightarrow> string" where
  "replace_matches m prev [] = []"
| "replace_matches m prev (c # s) =
     (case m prev (c # s) of
        Some (a, Suc b, d) \<Rightarrow>
          (let n = a + Suc b + d
           in take a (c # s) @ mark @ take d (drop (a + Suc b) (c # s)) @
              replace_matches m (Some (last (take n (c # s)))) (drop n (c # s)))
      | _ \<Rightarrow> c # replace_matches m (Some c) s)"
  by pat_completeness auto
termination
  by (relation "measure (\<lambda>(_, _, s). length s)") auto

definition redact_secret :: "string \<Rightarrow> string \<Rightarrow> string" where
  "redact_secret secret out = (if TrimSpace secret = [] then out else ReplaceAll out (TrimSpace secret) mark)"

definition Text :: "string \<Rightarrow> string list \<Rightarrow> string" where
  "Text value secrets = fold (\<lambda>m out. replace_matches m None out) tokenPatterns (fold redact_secret secrets value)"

definition maxErrorBody :: nat where "maxErrorBody = 2048"

definition ErrorBody :: "string \<Rightarrow> string list \<Rightarrow> string" where
  "ErrorBody body secrets =
     (let text = TrimSpace body
      in Text (if length text > maxErrorBody
               then take maxErrorBody text @ [CHR 0xE2, CHR 0x80, CHR 0xA6] else text) secrets)"

subsection \<open>What redaction leaves\<close>

text \<open>\<open>masked s t\<close>: \<open>t\<close> is \<open>s\<close> with some parts cut out and a mark in place of each.\<close>

inductive masked :: "string \<Rightarrow> string \<Rightarrow> bool" where
  masked_Nil: "masked [] []"
| masked_copy: "masked s t \<Longrightarrow> masked (c # s) (c # t)"
| masked_cut: "masked s t \<Longrightarrow> masked (u @ s) (mark @ t)"

lemma masked_refl [simp]: "masked s s"
  by (induction s) (auto intro: masked.intros)

lemma masked_keep: "masked s t \<Longrightarrow> masked (u @ s) (u @ t)"
  by (induction u) (auto intro: masked.intros)

lemma masked_ReplaceAll: "new = mark \<Longrightarrow> masked s (ReplaceAll s old new)"
proof (induction s old new rule: ReplaceAll.induct)
  case (2 c s old new)
  then show ?case
    using masked_cut [of "drop (length old) (c # s)" _ old]
    by (auto simp: HasPrefix_iff intro: masked_copy)
qed (simp add: masked_Nil)

lemma masked_replace_matches: "masked s (replace_matches m prev s)"
proof (induction s arbitrary: prev rule: length_induct)
  case (1 s)
  show ?case
  proof (cases s)
    case Nil
    then show ?thesis by (simp add: masked_Nil)
  next
    case (Cons c r)
    show ?thesis
    proof (cases "\<exists>a b d. m prev s = Some (a, Suc b, d)")
      case True
      then obtain a b d where m: "m prev s = Some (a, Suc b, d)" by blast
      define n where "n = a + Suc b + d"
      define t where "t = replace_matches m (Some (last (take n s))) (drop n s)"
      have "masked (drop n s) t"
        using 1 Cons by (simp add: t_def n_def)
      from masked_keep [OF masked_cut [OF masked_keep [OF this, of "take d (drop (a + Suc b) s)"],
          of "take (Suc b) (drop a s)"], of "take a s"]
      have "masked (take a s @ take (Suc b) (drop a s) @ take d (drop (a + Suc b) s) @ drop n s)
          (take a s @ mark @ take d (drop (a + Suc b) s) @ t)" .
      moreover have "take a s @ take (Suc b) (drop a s) @ take d (drop (a + Suc b) s) @ drop n s = s"
        unfolding n_def by (metis append_take_drop_id drop_drop add.commute)
      moreover have "replace_matches m prev s = take a s @ mark @ take d (drop (a + Suc b) s) @ t"
        using m Cons by (simp add: t_def n_def Let_def del: take_Suc_Cons drop_Suc_Cons)
      ultimately show ?thesis by metis
    next
      case False
      then have "replace_matches m prev s = c # replace_matches m (Some c) r"
        using Cons by (auto split: option.splits nat.splits)
      moreover have "masked r (replace_matches m (Some c) r)"
        using 1 Cons by simp
      ultimately show ?thesis using Cons by (simp add: masked_copy)
    qed
  qed
qed

lemma masked_not_Nil: "masked s t \<Longrightarrow> s \<noteq> [] \<Longrightarrow> t \<noteq> []"
  by (induction rule: masked.induct) (auto simp: mark_def)

lemma fold_not_Nil: "(\<And>x s. s \<noteq> [] \<Longrightarrow> f x s \<noteq> []) \<Longrightarrow> s \<noteq> [] \<Longrightarrow> fold f xs s \<noteq> []"
  by (induction xs arbitrary: s) simp_all

text \<open>A message is never redacted to nothing.\<close>

lemma Text_not_Nil: "value \<noteq> [] \<Longrightarrow> Text value secrets \<noteq> []"
proof -
  have "redact_secret x s \<noteq> []" if "s \<noteq> []" for x s
    using masked_not_Nil [OF masked_ReplaceAll [OF refl] that] that by (simp add: redact_secret_def)
  then show "value \<noteq> [] \<Longrightarrow> Text value secrets \<noteq> []"
    unfolding Text_def by (intro fold_not_Nil masked_not_Nil [OF masked_replace_matches])
qed

text \<open>A secret that the mark cannot help to build: it is not inside the mark, the mark is not inside it,
  it does not end as the mark starts, nor start as the mark ends. A secret without brackets that is
  no part of \<open>REDACTED\<close> is such a secret, and most secrets with brackets are.\<close>

definition clear_of_mark :: "string \<Rightarrow> bool" where
  "clear_of_mark x \<longleftrightarrow> x \<noteq> [] \<and> \<not> sublist x mark \<and>
     list_all (\<lambda>y. y = [] \<or> \<not> prefix y mark \<and> \<not> prefix mark y) (suffixes x) \<and>
     list_all (\<lambda>y. y = [] \<or> \<not> suffix y mark) (prefixes x)"

lemma clear_of_markD:
  assumes "clear_of_mark x"
  shows "x \<noteq> []" "\<not> sublist x mark" "suffix y x \<Longrightarrow> y \<noteq> [] \<Longrightarrow> \<not> prefix y mark \<and> \<not> prefix mark y"
    "prefix y x \<Longrightarrow> y \<noteq> [] \<Longrightarrow> \<not> suffix y mark"
  using assms by (auto simp: clear_of_mark_def list_all_iff)

lemma clear_without_brackets:
  assumes "x \<noteq> []" "CHR ''['' \<notin> set x" "CHR '']'' \<notin> set x" "\<not> sublist x ''REDACTED''"
  shows "clear_of_mark x"
proof -
  have mark: "mark = CHR ''['' # ''REDACTED'' @ [CHR '']'']" by (simp add: mark_def)
  have "\<not> prefix y mark \<and> \<not> prefix mark y" if "suffix y x" "y \<noteq> []" for y
    using that assms(2) by (cases y) (auto simp: mark dest: set_mono_suffix)
  moreover have "\<not> suffix y mark" if "prefix y x" "y \<noteq> []" for y
  proof
    assume "suffix y mark"
    then have "last y = CHR '']''" using that(2) by (auto simp: suffix_def mark_def dest: arg_cong [of _ _ last])
    then show False using that assms(3) set_mono_prefix [OF that(1)] last_in_set [OF that(2)] by auto
  qed
  moreover have "\<not> sublist x mark"
  proof
    assume "sublist x mark"
    with assms(1) obtain u v where m: "mark = u @ x @ v" by (auto simp: sublist_def)
    from m assms(2,1) obtain u' where u: "u = CHR ''['' # u'" by (cases u; cases x) (auto simp: mark)
    from m assms(3,1) obtain v' where v: "v = v' @ [CHR '']'']"
      by (cases v rule: rev_cases; cases x rule: rev_cases) (auto simp: mark_def dest: arg_cong [of _ _ last])
    from m u v have "''REDACTED'' = u' @ x @ v'" by (simp add: mark)
    then have "sublist x ''REDACTED''" unfolding sublist_def by blast
    with assms(4) show False ..
  qed
  ultimately show ?thesis using assms(1) by (auto simp: clear_of_mark_def list_all_iff)
qed

lemma masked_prefix:
  "masked s t \<Longrightarrow> (\<And>y. suffix y x \<Longrightarrow> y \<noteq> [] \<Longrightarrow> \<not> prefix y mark \<and> \<not> prefix mark y) \<Longrightarrow> prefix x t \<Longrightarrow> prefix x s"
proof (induction arbitrary: x rule: masked.induct)
  case (masked_copy s t c)
  show ?case
  proof (cases x)
    case (Cons d x')
    then have "prefix x' s"
      using masked_copy.prems by (intro masked_copy.IH) (auto intro: suffix_ConsI)
    with Cons masked_copy.prems(2) show ?thesis by simp
  qed simp
next
  case (masked_cut s t u)
  have "prefix x mark \<or> prefix mark x"
    using masked_cut.prems(2) by (metis prefix_same_cases prefixI)
  with masked_cut.prems(1) [of x] have "x = []" by auto
  then show ?case by simp
qed simp

lemma sublist_mark:
  assumes "clear_of_mark x"
  shows "sublist x (mark @ t) \<longleftrightarrow> sublist x t"
proof -
  have "x1 = []" if "suffix x1 mark" "x = x1 @ x2" for x1 x2
    using clear_of_markD(4) [OF assms, of x1] that by auto
  with clear_of_markD(2) [OF assms] show ?thesis
    unfolding sublist_append by (metis append_Nil prefix_imp_sublist)
qed

lemma masked_sublist: "masked s t \<Longrightarrow> clear_of_mark x \<Longrightarrow> sublist x t \<Longrightarrow> sublist x s"
proof (induction rule: masked.induct)
  case (masked_copy s t c)
  then show ?case
    using masked_prefix [OF masked.masked_copy [OF masked_copy.hyps] clear_of_markD(3), of x]
    by (auto simp: sublist_Cons_right)
next
  case (masked_cut s t u)
  then have "sublist x s" by (simp add: sublist_mark)
  then show ?case by (rule sublist_order.order.trans) simp
qed simp

lemma ReplaceAll_removes: "new = mark \<Longrightarrow> clear_of_mark old \<Longrightarrow> \<not> sublist old (ReplaceAll s old new)"
proof (induction s old new rule: ReplaceAll.induct)
  case (2 c s old new)
  note old = clear_of_markD [OF \<open>clear_of_mark old\<close>]
  show ?case
  proof (cases "HasPrefix (c # s) old")
    case True
    with 2 old(1) show ?thesis by (auto simp: sublist_mark)
  next
    case False
    then have "\<not> prefix old (c # s)" by (auto simp: HasPrefix_iff prefix_def)
    moreover have "masked (c # s) (c # ReplaceAll s old new)"
      using 2 by (simp add: masked_copy masked_ReplaceAll)
    ultimately have "\<not> prefix old (c # ReplaceAll s old new)"
      using masked_prefix [OF _ old(3)] by blast
    with False 2 show ?thesis by (simp add: sublist_Cons_right)
  qed
qed (simp add: clear_of_mark_def)

lemma masked_trans_sublist:
  assumes "\<And>x s. f x s = s \<or> masked s (f x s)" "clear_of_mark y" "\<not> sublist y s"
  shows "\<not> sublist y (fold f xs s)"
  using assms(3)
proof (induction xs arbitrary: s)
  case (Cons x xs)
  then have "\<not> sublist y (f x s)"
    using assms(1) [of x s] masked_sublist [OF _ assms(2)] by metis
  with Cons.IH show ?case by simp
qed simp

text \<open>C23: a secret passed to \<open>Text\<close> does not occur in its result, wherever and however often it occurs in
  the text, if it is clear of the mark. The condition is needed: \<open>redact_mark_overlap\<close> is a secret that the
  replacement puts together again.\<close>

theorem redact_removes_secret:
  assumes "secret \<in> set secrets" "clear_of_mark (TrimSpace secret)"
  shows "\<not> sublist (TrimSpace secret) (Text value secrets)"
proof -
  obtain before after where secrets: "secrets = before @ secret # after"
    using assms(1) by (meson split_list)
  have "\<not> sublist (TrimSpace secret) (redact_secret secret v)" for v
    using assms(2) by (simp add: redact_secret_def ReplaceAll_removes clear_of_markD(1))
  then have "\<not> sublist (TrimSpace secret) (fold redact_secret secrets value)"
    unfolding secrets fold_append fold_Cons o_apply
    by (intro masked_trans_sublist assms(2)) (simp_all add: redact_secret_def masked_ReplaceAll)
  then show ?thesis
    unfolding Text_def by (rule masked_trans_sublist [rotated 2]) (simp_all add: assms(2) masked_replace_matches)
qed

theorem redact_removes_secret_witness:
  "\<not> sublist (TrimSpace '' a[1]bc '') (Text ''key a[1]bc; Authorization: Bearer xyz'' ['' a[1]bc ''])"
proof -
  have "TrimSpace '' a[1]bc '' = ''a[1]bc''" by code_simp
  moreover have "clear_of_mark ''a[1]bc''" by code_simp
  ultimately show ?thesis
    using redact_removes_secret [of "'' a[1]bc ''" "['' a[1]bc '']" "''key a[1]bc; Authorization: Bearer xyz''"]
    by simp
qed

text \<open>A secret that ends as the mark starts: the byte before the place it was removed from and the bracket of
  the mark are the secret again.\<close>

theorem redact_mark_overlap:
  "Text ''aa[['' [''a[''] = ''a[REDACTED]['' \<and> sublist ''a['' (Text ''aa[['' [''a[''])"
proof -
  have "Text ''aa[['' [''a[''] = ''a[REDACTED][''" by code_simp
  moreover have "''a[REDACTED]['' = [] @ ''a['' @ ''REDACTED][''" by simp
  ultimately show ?thesis by (metis sublist_appendI)
qed

text \<open>What the patterns remove without being told the secret.\<close>

lemma redact_example: \<open>Text ''{"token":"t1"}'' [] = ''{"token":"[REDACTED]"}''\<close>
  by code_simp

text \<open>The body is cut before the secrets are looked for, so a secret that crosses the limit keeps
  its beginning in the result.\<close>

lemma error_body_cut:
  assumes "TrimSpace body = body" "length body > maxErrorBody"
  shows "ErrorBody body secrets = Text (take maxErrorBody body @ [CHR 0xE2, CHR 0x80, CHR 0xA6]) secrets"
  using assms by (simp add: ErrorBody_def Let_def)

end
