(* ===== verification/Transport.thy ===== *)
theory Transport
  imports Go_Time Go_Struct Redact
begin

text \<open>
  What the provider calls outside itself: the interface \<open>Host\<close> of \<open>internal/transport/transport.go\<close>
  and the library functions that are parameters of the model.

  \<open>lib\<close> holds pure functions: \<open>url.Parse\<close> (the accepted hosts change with the Go release) and the
  text the library prints for an error or a quoted string, the SHA-256 digest in hexadecimal, and
  \<open>url.Values.Encode\<close>. \<open>'w host\<close> holds the host process, the clock and the random source; \<open>'w\<close> is the
  state of the world, which every call may change and on which every answer may depend. The
  \<open>context.Context\<close> of a call belongs to the host.
\<close>

record url =
  Scheme :: string
  Host :: string
  Hostname :: string
  RawQuery :: string
  Fragment :: string
  UrlString :: string

record lib =
  UrlParse :: "string \<Rightarrow> url option"
  SetQuery :: "url \<Rightarrow> string \<Rightarrow> string \<Rightarrow> string"
  EncodeForm :: "(string \<times> string) list \<Rightarrow> string"
  Sha256Hex :: "string \<Rightarrow> string"
  GoQuote :: "string \<Rightarrow> string"
  LibError :: string

text \<open>\<open>err.Error()\<close>.\<close>

fun ErrorString :: "lib \<Rightarrow> go_error \<Rightarrow> string" where
  "ErrorString L (ErrorText s) = s"
| "ErrorString L (ErrorQ s v) = s @ GoQuote L v"
| "ErrorString L JsonError = LibError L"
| "ErrorString L (WrapQ s v e) = s @ GoQuote L v @ '': '' @ ErrorString L e"
| "ErrorString L (Wrap s e) = s @ ErrorString L e"
| "ErrorString L (Panic s) = s"
| "ErrorString L (StatusErr code msg status retry) = msg"

subsection \<open>Headers\<close>

text \<open>\<open>http.Header\<close> is a map from names to values; a map is kept sorted by its keys. \<open>Set\<close> puts the
  name into canonical form, unless it has a byte that no header name may have.\<close>

type_synonym header = "(string \<times> string list) list"

definition token_byte :: "char \<Rightarrow> bool" where
  "token_byte c \<longleftrightarrow> is_digit c \<or> (97 \<le> byte (ascii_lower c) \<and> byte (ascii_lower c) \<le> 122) \<or>
     c \<in> set [CHR ''!'', CHR ''#'', CHR ''$'', CHR ''%'', CHR 0x26, CHR 0x27, CHR ''*'', CHR ''+'', CHR ''-'',
              CHR ''.'', CHR ''^'', CHR ''_'', CHR 0x60, CHR ''|'', CHR ''~'']"

definition ascii_upper :: "char \<Rightarrow> char" where
  "ascii_upper c = (if 97 \<le> byte c \<and> byte c \<le> 122 then char_of (byte c - 32) else c)"

fun canonical_from :: "bool \<Rightarrow> string \<Rightarrow> string" where
  "canonical_from up [] = []"
| "canonical_from up (c # s) =
     (if up then ascii_upper c else ascii_lower c) # canonical_from (c = CHR ''-'') s"

definition CanonicalHeaderKey :: "string \<Rightarrow> string" where
  "CanonicalHeaderKey s = (if list_all token_byte s then canonical_from True s else s)"

definition SetHeader :: "string \<Rightarrow> string \<Rightarrow> header \<Rightarrow> header" where
  "SetHeader k v h = obj_put (CanonicalHeaderKey k) [v] h"

subsection \<open>Requests, responses and streams\<close>

record http_request =
  Method :: string
  URL :: string
  Headers :: header
  Body :: string

record http_response =
  StatusCode :: int
  RespHeaders :: header
  RespBody :: string

record http_stream =
  StreamStatus :: int
  StreamHeaders :: header
  StreamID :: string

record stream_chunk =
  Payload :: string
  ChunkError :: string
  Done :: bool

record 'w host =
  DoHTTP :: "string \<Rightarrow> http_request \<Rightarrow> 'w \<Rightarrow> http_response res \<times> 'w"
  OpenStream :: "string \<Rightarrow> http_request \<Rightarrow> 'w \<Rightarrow> http_stream res \<times> 'w"
  ReadStream :: "string \<Rightarrow> 'w \<Rightarrow> stream_chunk res \<times> 'w"
  CloseStream :: "string \<Rightarrow> 'w \<Rightarrow> 'w"
  Emit :: "string \<Rightarrow> string \<Rightarrow> 'w \<Rightarrow> go_error option \<times> 'w"
  CloseOutput :: "string \<Rightarrow> string \<Rightarrow> 'w \<Rightarrow> 'w"
  Now :: "'w \<Rightarrow> time \<times> 'w"
  RandomHex :: "nat \<Rightarrow> 'w \<Rightarrow> string res \<times> 'w"

text \<open>The calls a program makes, in order: a history that only the properties read.\<close>

datatype host_call =
    CallDo http_request
  | CallOpen http_request
  | CallRead string
  | CallClose string
  | CallEmit string string
  | CallCloseOutput string string

definition ok_status :: "int \<Rightarrow> bool" where
  "ok_status n \<longleftrightarrow> 200 \<le> n \<and> n < 300"

end
