(* ===== verification/Config.thy ===== *)
theory Config
  imports Transport
begin

text \<open>
  The plugin's configuration: \<open>internal/provider/config.go\<close>. The YAML decoder (a third-party
  package) is a parameter: it gets the text and the record to fill. The base URLs are checked by
  ranging over a map, whose order is a parameter.
\<close>

record Config =
  Enabled :: bool
  GitHubClientID :: string
  GitHubScope :: string
  GitHubBaseURL :: string
  GitHubAPIURL :: string
  CopilotAPIURL :: string
  AllowInsecureBaseURLs :: bool
  OAuthTimeoutSeconds :: int
  ModelCacheTTLSeconds :: int
  TokenExpiryBufferSeconds :: int
  ExcludedModelPrefixes :: "string list"

definition DefaultGitHubClientID :: string where "DefaultGitHubClientID = ''Iv1.b507a08c87ecfe98''"
definition defaultGitHubBaseURL :: string where "defaultGitHubBaseURL = ''https://github.com''"
definition defaultGitHubAPIURL :: string where "defaultGitHubAPIURL = ''https://api.github.com''"
definition defaultCopilotAPIURL :: string where "defaultCopilotAPIURL = ''https://api.githubcopilot.com''"

definition DefaultConfig :: Config where
  "DefaultConfig =
     \<lparr> Enabled = True, GitHubClientID = DefaultGitHubClientID, GitHubScope = ''read:user'',
       GitHubBaseURL = defaultGitHubBaseURL, GitHubAPIURL = defaultGitHubAPIURL,
       CopilotAPIURL = defaultCopilotAPIURL, AllowInsecureBaseURLs = False,
       OAuthTimeoutSeconds = 900, ModelCacheTTLSeconds = 600, TokenExpiryBufferSeconds = 300,
       ExcludedModelPrefixes = [] \<rparr>"

fun normalize_prefixes :: "string set \<Rightarrow> string list \<Rightarrow> string list" where
  "normalize_prefixes seen [] = []"
| "normalize_prefixes seen (p # ps) =
     (let prefix = ToLower (TrimSpace p) in
      if prefix = [] \<or> prefix \<in> seen then normalize_prefixes seen ps
      else prefix # normalize_prefixes (insert prefix seen) ps)"

definition normalizeModelPrefixes :: "string list \<Rightarrow> string list" where
  "normalizeModelPrefixes ps = normalize_prefixes {} ps"

definition validateBaseURL :: "lib \<Rightarrow> string \<Rightarrow> bool \<Rightarrow> go_error option" where
  "validateBaseURL L raw allowInsecure =
     (case UrlParse L raw of
        None \<Rightarrow> Some (ErrorText ''invalid absolute URL'')
      | Some parsed \<Rightarrow>
          if Hostname parsed = [] then Some (ErrorText ''invalid absolute URL'')
          else if Scheme parsed \<noteq> ''https'' \<and> \<not> (allowInsecure \<and> Scheme parsed = ''http'')
          then Some (ErrorText ''URL must use HTTPS'')
          else if RawQuery parsed \<noteq> [] \<or> Fragment parsed \<noteq> []
          then Some (ErrorText ''base URL must not contain query or fragment'')
          else None)"

fun validate_urls :: "lib \<Rightarrow> bool \<Rightarrow> (string \<times> string) list \<Rightarrow> go_error option" where
  "validate_urls L allow [] = None"
| "validate_urls L allow ((name, value) # r) =
     (case validateBaseURL L value allow of
        Some e \<Rightarrow> Some (Wrap (name @ '': '') e)
      | None \<Rightarrow> validate_urls L allow r)"

definition clean_url :: "string \<Rightarrow> string" where
  "clean_url s = TrimRight (TrimSpace s) ''/''"

definition clean_config :: "Config \<Rightarrow> Config" where
  "clean_config c = c\<lparr> GitHubClientID := TrimSpace (GitHubClientID c),
       GitHubScope := TrimSpace (GitHubScope c),
       GitHubBaseURL := clean_url (GitHubBaseURL c),
       GitHubAPIURL := clean_url (GitHubAPIURL c),
       CopilotAPIURL := clean_url (CopilotAPIURL c),
       ExcludedModelPrefixes := normalizeModelPrefixes (ExcludedModelPrefixes c) \<rparr>"

definition base_urls :: "Config \<Rightarrow> (string \<times> string) list" where
  "base_urls c = [(''github_base_url'', GitHubBaseURL c), (''github_api_url'', GitHubAPIURL c),
     (''copilot_api_url'', CopilotAPIURL c)]"

definition ParseConfig ::
  "lib \<Rightarrow> (string \<Rightarrow> Config \<Rightarrow> Config res) \<Rightarrow> ((string \<times> string) list \<Rightarrow> (string \<times> string) list) \<Rightarrow>
   string \<Rightarrow> Config res" where
  "ParseConfig L yaml order raw =
     (case (if raw = [] then Inr DefaultConfig else yaml raw DefaultConfig) of
        Inl e \<Rightarrow> Inl (Wrap ''decode plugin config: '' e)
      | Inr decoded \<Rightarrow>
          (let cfg = clean_config decoded in
           if GitHubClientID cfg = [] then Inl (ErrorText ''github_client_id is required'')
           else (case validate_urls L (AllowInsecureBaseURLs cfg) (order (base_urls cfg)) of
             Some e \<Rightarrow> Inl e
           | None \<Rightarrow>
               if OAuthTimeoutSeconds cfg < 60 \<or> OAuthTimeoutSeconds cfg > 1800
               then Inl (ErrorText ''oauth_timeout_seconds must be between 60 and 1800'')
               else if ModelCacheTTLSeconds cfg < 30 \<or> ModelCacheTTLSeconds cfg > 3600
               then Inl (ErrorText ''model_cache_ttl_seconds must be between 30 and 3600'')
               else if TokenExpiryBufferSeconds cfg < 30 \<or> TokenExpiryBufferSeconds cfg > 900
               then Inl (ErrorText ''token_expiry_buffer_seconds must be between 30 and 900'')
               else Inr cfg)))"

definition oauthTimeout :: "Config \<Rightarrow> duration" where "oauthTimeout c = Seconds (OAuthTimeoutSeconds c)"
definition modelCacheTTL :: "Config \<Rightarrow> duration" where "modelCacheTTL c = Seconds (ModelCacheTTLSeconds c)"
definition tokenExpiryBuffer :: "Config \<Rightarrow> duration" where
  "tokenExpiryBuffer c = Seconds (TokenExpiryBufferSeconds c)"

subsection \<open>Properties\<close>

lemma normalize_prefixes_set:
  "set (normalize_prefixes seen ps) = {p. p \<noteq> [] \<and> p \<in> (\<lambda>p. ToLower (TrimSpace p)) ` set ps} - seen"
  by (induction seen ps rule: normalize_prefixes.induct) (auto simp: Let_def)

lemma normalize_prefixes_distinct: "distinct (normalize_prefixes seen ps)"
  by (induction seen ps rule: normalize_prefixes.induct) (auto simp: Let_def normalize_prefixes_set)

text \<open>A URL the provider may send credentials to.\<close>

definition safe_base :: "lib \<Rightarrow> bool \<Rightarrow> string \<Rightarrow> bool" where
  "safe_base L allow raw \<longleftrightarrow>
     (\<exists>u. UrlParse L raw = Some u \<and> Hostname u \<noteq> [] \<and>
        (Scheme u = ''https'' \<or> allow \<and> Scheme u = ''http'') \<and> RawQuery u = [] \<and> Fragment u = [])"

lemma validateBaseURL_safe: "validateBaseURL L raw allow = None \<longleftrightarrow> safe_base L allow raw"
  by (auto simp: validateBaseURL_def safe_base_def split: option.splits if_splits)

lemma validate_urls_safe:
  "validate_urls L allow urls = None \<longleftrightarrow> (\<forall>p \<in> set urls. safe_base L allow (snd p))"
  by (induction L allow urls rule: validate_urls.induct)
    (auto simp: validateBaseURL_safe [symmetric] split: option.splits)

definition sound_config :: "lib \<Rightarrow> Config \<Rightarrow> bool" where
  "sound_config L c \<longleftrightarrow> GitHubClientID c \<noteq> [] \<and>
     safe_base L (AllowInsecureBaseURLs c) (GitHubBaseURL c) \<and>
     safe_base L (AllowInsecureBaseURLs c) (GitHubAPIURL c) \<and>
     safe_base L (AllowInsecureBaseURLs c) (CopilotAPIURL c) \<and>
     oauthTimeout c \<in> {Minute .. 30 * Minute} \<and> modelCacheTTL c \<in> {30 * Second .. Hour} \<and>
     tokenExpiryBuffer c \<in> {30 * Second .. 15 * Minute} \<and>
     distinct (ExcludedModelPrefixes c) \<and>
     (\<forall>p \<in> set (ExcludedModelPrefixes c). p \<noteq> [] \<and> ToLower p = p \<and> TrimSpace p = p)"

lemma parsed_config_sound:
  assumes "\<And>urls. set (order urls) = set urls" "ParseConfig L yaml order raw = Inr cfg"
  shows "sound_config L cfg"
proof -
  obtain d where cfg: "cfg = clean_config d" and id: "GitHubClientID cfg \<noteq> []"
    and urls: "validate_urls L (AllowInsecureBaseURLs cfg) (order (base_urls cfg)) = None"
    and ints: "60 \<le> OAuthTimeoutSeconds cfg" "OAuthTimeoutSeconds cfg \<le> 1800"
      "30 \<le> ModelCacheTTLSeconds cfg" "ModelCacheTTLSeconds cfg \<le> 3600"
      "30 \<le> TokenExpiryBufferSeconds cfg" "TokenExpiryBufferSeconds cfg \<le> 900"
    using assms(2) by (auto simp: ParseConfig_def Let_def split: sum.splits option.splits if_splits)
  have seconds: "Seconds n = n * 1000000000" if "0 \<le> n" "n \<le> 3600" for n
    using that by (simp add: Seconds_def wrap64_id min_int64_def max_int64_def)
  have "\<forall>p \<in> set (base_urls cfg). safe_base L (AllowInsecureBaseURLs cfg) (snd p)"
    using urls assms(1) by (simp add: validate_urls_safe)
  moreover have "distinct (ExcludedModelPrefixes cfg)"
    "\<forall>p \<in> set (ExcludedModelPrefixes cfg). p \<noteq> [] \<and> ToLower p = p \<and> TrimSpace p = p"
    by (auto simp: cfg clean_config_def normalizeModelPrefixes_def normalize_prefixes_distinct normalize_prefixes_set
        ToLower_idem TrimSpace_ToLower)
  ultimately show ?thesis
    using id ints seconds [of "OAuthTimeoutSeconds cfg"] seconds [of "ModelCacheTTLSeconds cfg"]
      seconds [of "TokenExpiryBufferSeconds cfg"]
    by (simp add: sound_config_def base_urls_def oauthTimeout_def modelCacheTTL_def tokenExpiryBuffer_def
        Second_def Minute_def Hour_def)
qed

text \<open>C24: a configuration that is accepted is sound: every base URL is an absolute HTTPS URL (plain
  HTTP only when allowed) without query or fragment, the three durations are within their limits
  and do not wrap, and the excluded prefixes are distinct, lower case (lowering them changes nothing),
  without white space at their ends, and none is empty, which would exclude every model. It holds whatever order the URLs are checked in.\<close>

theorem parse_config_sound:
  assumes "\<And>urls. set (order urls) = set urls" "ParseConfig L yaml order raw = Inr cfg"
  shows "sound_config L cfg"
  using assms by (rule parsed_config_sound)

definition sample_lib :: lib where
  "sample_lib = \<lparr> UrlParse = (\<lambda>s. if HasPrefix s ''https://'' then
        Some \<lparr> Scheme = ''https'', Host = drop 8 s, Hostname = drop 8 s, RawQuery = [], Fragment = [], UrlString = s \<rparr>
      else None),
    SetQuery = (\<lambda>u k v. UrlString u @ ''?'' @ k @ ''='' @ v), EncodeForm = concat \<circ> map (\<lambda>(k, v). k @ ''='' @ v),
    Sha256Hex = (\<lambda>s. s), GoQuote = (\<lambda>s. s), LibError = ''error'' \<rparr>"

text \<open>A configuration file with two excluded prefixes, which are the same once cleaned.\<close>

definition sample_yaml :: "string \<Rightarrow> Config \<Rightarrow> Config res" where
  "sample_yaml raw c = Inr (c\<lparr> ExcludedModelPrefixes := ['' GPT-3 '', ''gpt-3''] \<rparr>)"

theorem parse_config_sound_witness:
  "\<exists>cfg. ParseConfig sample_lib sample_yaml rev ''x'' = Inr cfg \<and> sound_config sample_lib cfg \<and>
     ExcludedModelPrefixes cfg = [''gpt-3'']"
proof -
  have ok: "is_ok (ParseConfig sample_lib sample_yaml rev ''x'')"
    by code_simp
  then obtain cfg where cfg: "ParseConfig sample_lib sample_yaml rev ''x'' = Inr cfg"
    by (auto simp: is_ok_def split: sum.splits)
  have "(case ParseConfig sample_lib sample_yaml rev ''x'' of Inl e \<Rightarrow> [] | Inr c \<Rightarrow> ExcludedModelPrefixes c) = [''gpt-3'']"
    by code_simp
  with parse_config_sound [OF _ cfg] cfg show ?thesis by simp
qed

end
