(* ===== verification/Service.thy ===== *)
theory Service
  imports Config
begin

text \<open>
  The provider's errors and state: \<open>internal/provider/errors.go\<close>, \<open>internal/provider/service.go\<close>
  and the types of the values the service keeps (\<open>oauth.go\<close>, \<open>token.go\<close>, \<open>models.go\<close>).

  A handler runs on a machine: the service, the world outside, and the history of the calls it
  has made. The maps of the service are shared by all handlers and are read or written only
  under a mutex; what the other goroutines do meanwhile is a parameter, any change of the service
  at the moment a handler takes a lock (\<open>lock\<close>). A token exchange in flight is known by an identity
  (in the code the pointer to its \<open>tokenFlight\<close>); \<open>nextFlight\<close> is the next unused one.
\<close>

subsection \<open>Errors\<close>

definition statusError :: "string \<Rightarrow> string \<Rightarrow> int \<Rightarrow> go_error" where
  "statusError code message status = StatusErr code message (if status = 0 then 500 else status) False"

definition upstreamStatusError :: "int \<Rightarrow> string \<Rightarrow> go_error" where
  "upstreamStatusError status detail =
     StatusErr ''upstream_error''
       (''Copilot upstream returned HTTP '' @ Itoa status @ (if detail \<noteq> [] then '': '' @ detail else []))
       status (status = 408 \<or> status = 429 \<or> status \<ge> 500)"

subsection \<open>What the service keeps\<close>

record deviceSession =
  DeviceCode :: string
  ClientID :: string
  UserCode :: string
  SessionExpiresAt :: time
  Interval :: duration
  NextPoll :: time
  Polling :: bool

record copilotTokenEntry =
  Token :: string
  APIBaseURL :: string
  ExpiresAt :: time
  Fingerprint :: string

record modelSupports =
  ToolCalls :: bool
  ParallelToolCalls :: bool
  Streaming :: bool
  Vision :: bool
  AdaptiveThinking :: bool
  ReasoningEffort :: "string list"

record modelLimits =
  MaxInputs :: int
  MaxPromptTokens :: int
  MaxOutputTokens :: int
  MaxNonStreamingOutputTokens :: int
  MaxContextWindowTokens :: int

record modelCapabilities =
  CapType :: string
  Tokenizer :: string
  Family :: string
  CapObject :: string
  Supports :: modelSupports
  Limits :: modelLimits

record upstreamModel =
  ModelID :: string
  Vendor :: string
  ModelName :: string
  Version :: string
  ModelObject :: string
  ModelPickerEnabled :: bool
  Preview :: bool
  SupportedEndpoints :: "string list"
  WarningMessages :: "string list"
  InformationMessages :: "string list"
  Capabilities :: modelCapabilities

record modelCacheEntry =
  CacheFingerprint :: string
  CacheAPIBaseURL :: string
  CacheExpiresAt :: time
  Models :: "upstreamModel list"
  ByID :: "string \<rightharpoonup> upstreamModel"

record Service =
  config :: Config
  oauthSession :: "string \<rightharpoonup> deviceSession"
  tokenEntries :: "string \<rightharpoonup> copilotTokenEntry"
  tokenInflight :: "string \<rightharpoonup> nat"
  nextFlight :: nat
  modelEntries :: "string \<rightharpoonup> modelCacheEntry"

definition New :: Service where
  "New = \<lparr> config = DefaultConfig, oauthSession = Map.empty, tokenEntries = Map.empty,
     tokenInflight = Map.empty, nextFlight = 0, modelEntries = Map.empty \<rparr>"

subsection \<open>Running a handler\<close>

record 'w machine =
  svc :: Service
  world :: 'w
  calls :: "host_call list"

record 'w outside = "'w host" +
  Others :: "'w \<Rightarrow> Service \<Rightarrow> Service \<times> 'w"
  AwaitFlight :: "nat \<Rightarrow> 'w \<Rightarrow> copilotTokenEntry res \<times> 'w"

text \<open>Sequencing: \<open>step\<close> runs one action and goes on with its result, \<open>and_then\<close> returns at once
  when the action gave an error.\<close>

definition step :: "('s \<Rightarrow> 'a \<times> 's) \<Rightarrow> ('a \<Rightarrow> 's \<Rightarrow> 'b \<times> 's) \<Rightarrow> 's \<Rightarrow> 'b \<times> 's" where
  "step f g s = (case f s of (x, s') \<Rightarrow> g x s')"

definition and_then :: "('s \<Rightarrow> 'a res \<times> 's) \<Rightarrow> ('a \<Rightarrow> 's \<Rightarrow> 'b res \<times> 's) \<Rightarrow> 's \<Rightarrow> 'b res \<times> 's" where
  "and_then f g s = (case f s of (Inl e, s') \<Rightarrow> (Inl e, s') | (Inr x, s') \<Rightarrow> g x s')"

definition return :: "'a \<Rightarrow> 's \<Rightarrow> 'a \<times> 's" where
  "return x s = (x, s)"

definition lock :: "'w outside \<Rightarrow> 'w machine \<Rightarrow> 'w machine" where
  "lock E m = (case Others E (world m) (svc m) of (s, w) \<Rightarrow> m\<lparr>svc := s, world := w\<rparr>)"

definition locked :: "'w outside \<Rightarrow> (Service \<Rightarrow> 'a \<times> Service) \<Rightarrow> 'w machine \<Rightarrow> 'a \<times> 'w machine" where
  "locked E f m = (let m1 = lock E m in case f (svc m1) of (x, s) \<Rightarrow> (x, m1\<lparr>svc := s\<rparr>))"

definition clock :: "'w outside \<Rightarrow> 'w machine \<Rightarrow> time \<times> 'w machine" where
  "clock E m = (case Now E (world m) of (t, w) \<Rightarrow> (t, m\<lparr>world := w\<rparr>))"

definition random_hex :: "'w outside \<Rightarrow> nat \<Rightarrow> 'w machine \<Rightarrow> string res \<times> 'w machine" where
  "random_hex E n m = (case RandomHex E n (world m) of (r, w) \<Rightarrow> (r, m\<lparr>world := w\<rparr>))"

definition host_do :: "'w outside \<Rightarrow> string \<Rightarrow> http_request \<Rightarrow> 'w machine \<Rightarrow> http_response res \<times> 'w machine" where
  "host_do E cb req m =
     (case DoHTTP E cb req (world m) of (r, w) \<Rightarrow> (r, m\<lparr>world := w, calls := calls m @ [CallDo req]\<rparr>))"

definition host_open :: "'w outside \<Rightarrow> string \<Rightarrow> http_request \<Rightarrow> 'w machine \<Rightarrow> http_stream res \<times> 'w machine" where
  "host_open E cb req m =
     (case OpenStream E cb req (world m) of (r, w) \<Rightarrow> (r, m\<lparr>world := w, calls := calls m @ [CallOpen req]\<rparr>))"

definition host_read :: "'w outside \<Rightarrow> string \<Rightarrow> 'w machine \<Rightarrow> stream_chunk res \<times> 'w machine" where
  "host_read E sid m =
     (case ReadStream E sid (world m) of (r, w) \<Rightarrow> (r, m\<lparr>world := w, calls := calls m @ [CallRead sid]\<rparr>))"

definition host_close :: "'w outside \<Rightarrow> string \<Rightarrow> 'w machine \<Rightarrow> 'w machine" where
  "host_close E sid m = m\<lparr>world := CloseStream E sid (world m), calls := calls m @ [CallClose sid]\<rparr>"

definition host_emit :: "'w outside \<Rightarrow> string \<Rightarrow> string \<Rightarrow> 'w machine \<Rightarrow> go_error option \<times> 'w machine" where
  "host_emit E sid p m =
     (case Emit E sid p (world m) of (r, w) \<Rightarrow> (r, m\<lparr>world := w, calls := calls m @ [CallEmit sid p]\<rparr>))"

definition host_close_output :: "'w outside \<Rightarrow> string \<Rightarrow> string \<Rightarrow> 'w machine \<Rightarrow> 'w machine" where
  "host_close_output E sid msg m =
     m\<lparr>world := CloseOutput E sid msg (world m), calls := calls m @ [CallCloseOutput sid msg]\<rparr>"

subsection \<open>The service\<close>

definition ServiceConfig :: "'w outside \<Rightarrow> 'w machine \<Rightarrow> Config \<times> 'w machine" where
  "ServiceConfig E = locked E (\<lambda>s. (config s, s))"

definition Configure ::
  "lib \<Rightarrow> (string \<Rightarrow> Config \<Rightarrow> Config res) \<Rightarrow> ((string \<times> string) list \<Rightarrow> (string \<times> string) list) \<Rightarrow>
   'w outside \<Rightarrow> string \<Rightarrow> 'w machine \<Rightarrow> unit res \<times> 'w machine" where
  "Configure L yaml order E raw m =
     (case ParseConfig L yaml order raw of
        Inl e \<Rightarrow> (Inl e, m)
      | Inr cfg \<Rightarrow>
          step (locked E (\<lambda>s. ((), s\<lparr>config := cfg\<rparr>)))
            (\<lambda>_. locked E (\<lambda>s. (Inr (), s\<lparr>modelEntries := Map.empty\<rparr>))) m)"

definition Shutdown :: "'w outside \<Rightarrow> 'w machine \<Rightarrow> unit \<times> 'w machine" where
  "Shutdown E =
     step (locked E (\<lambda>s. ((), s\<lparr>oauthSession := Map.empty\<rparr>)))
       (\<lambda>_. step (locked E (\<lambda>s. ((), s\<lparr>tokenEntries := Map.empty\<rparr>)))
         (\<lambda>_. locked E (\<lambda>s. ((), s\<lparr>modelEntries := Map.empty\<rparr>))))"

subsection \<open>Reasoning about handlers\<close>

text \<open>The calls an action adds to the history, and what it leaves alone.\<close>

lemma calls_lock [simp]: "calls (lock E m) = calls m"
  by (simp add: lock_def split: prod.split)

lemma calls_locked [simp]: "calls (snd (locked E f m)) = calls m"
  by (simp add: locked_def Let_def split: prod.split)

lemma calls_clock [simp]: "calls (snd (clock E m)) = calls m"
  by (simp add: clock_def split: prod.split)

lemma calls_ServiceConfig [simp]: "calls (snd (ServiceConfig E m)) = calls m"
  by (simp add: ServiceConfig_def)

lemma calls_random [simp]: "calls (snd (random_hex E n m)) = calls m"
  by (simp add: random_hex_def split: prod.split)

lemma calls_host [simp]:
  "calls (snd (host_do E cb req m)) = calls m @ [CallDo req]"
  "calls (snd (host_open E cb req m)) = calls m @ [CallOpen req]"
  "calls (snd (host_read E sid m)) = calls m @ [CallRead sid]"
  "calls (snd (host_emit E sid p m)) = calls m @ [CallEmit sid p]"
  "calls (host_close E sid m) = calls m @ [CallClose sid]"
  "calls (host_close_output E sid p m) = calls m @ [CallCloseOutput sid p]"
  by (simp_all add: host_do_def host_open_def host_read_def host_emit_def host_close_def host_close_output_def
      split: prod.split)

lemma keep_calls:
  "clock E m = (t, m') \<Longrightarrow> calls m' = calls m"
  "locked E f m = (x, m') \<Longrightarrow> calls m' = calls m"
  "ServiceConfig E m = (cfg, m') \<Longrightarrow> calls m' = calls m"
  "random_hex E n m = (rnd, m') \<Longrightarrow> calls m' = calls m"
  using calls_clock [of E m] calls_locked [of E f m] calls_ServiceConfig [of E m] calls_random [of E n m]
  by simp_all

lemma add_calls:
  "host_do E cb req m = (r, m') \<Longrightarrow> calls m' = calls m @ [CallDo req]"
  "host_open E cb req m = (q, m') \<Longrightarrow> calls m' = calls m @ [CallOpen req]"
  "host_read E sid m = (c, m') \<Longrightarrow> calls m' = calls m @ [CallRead sid]"
  "host_emit E sid p m = (e, m') \<Longrightarrow> calls m' = calls m @ [CallEmit sid p]"
  using calls_host(1) [of E cb req m] calls_host(2) [of E cb req m] calls_host(3) [of E sid m]
    calls_host(4) [of E sid p m]
  by simp_all

lemma keep_svc:
  "clock E m = (t, m') \<Longrightarrow> svc m' = svc m"
  "random_hex E n m = (rnd, m') \<Longrightarrow> svc m' = svc m"
  "host_do E cb req m = (r, m') \<Longrightarrow> svc m' = svc m"
  "host_open E cb req m = (q, m') \<Longrightarrow> svc m' = svc m"
  "host_read E sid m = (c, m') \<Longrightarrow> svc m' = svc m"
  "host_emit E sid p m = (e, m') \<Longrightarrow> svc m' = svc m"
  by (auto simp: clock_def random_hex_def host_do_def host_open_def host_read_def host_emit_def split: prod.splits)

lemma and_then_Inr: "f s = (Inr x, s') \<Longrightarrow> and_then f g s = g x s'"
  by (simp add: and_then_def)

lemma and_then_Inl: "f s = (Inl e, s') \<Longrightarrow> and_then f g s = (Inl e, s')"
  by (simp add: and_then_def)

lemma and_then_cases:
  assumes "and_then f g s = (r, t)"
  obtains (error) e where "f s = (Inl e, t)" "r = Inl e"
    | (ok) x s' where "f s = (Inr x, s')" "g x s' = (r, t)"
  using assms by (auto simp: and_then_def split: prod.splits sum.splits)

text \<open>Without interference a section works on the service as it was left.\<close>

definition undisturbed :: "'w outside \<Rightarrow> bool" where
  "undisturbed E \<longleftrightarrow> (\<forall>w s. Others E w s = (s, w))"

lemma lock_undisturbed [simp]: "undisturbed E \<Longrightarrow> lock E m = m"
  by (simp add: lock_def undisturbed_def)

end
