(* ===== verification/Storage.thy ===== *)
theory Storage
  imports Service Json_Wf
begin

text \<open>
  The stored GitHub credential: \<open>internal/provider/storage.go\<close>. A value of type \<open>any\<close> in the
  metadata is a decoded JSON value (numbers are \<open>float64\<close>) or an \<open>int\<close> the code put there. The
  metadata and attribute maps may be nil (\<open>None\<close>).
\<close>

record authStorage =
  StorageType :: string
  GitHubAccessToken :: string
  GitHubRefreshToken :: string
  TokenType :: string
  Scope :: string
  StorageExpiresAt :: int
  RefreshTokenExpiresAt :: int
  GitHubLogin :: string
  GitHubUserID :: int
  OAuthClientID :: string
  UpdatedAt :: string

definition providerID :: string where "providerID = ''copilot''"

definition empty_storage :: authStorage where
  "empty_storage = \<lparr> StorageType = [], GitHubAccessToken = [], GitHubRefreshToken = [], TokenType = [],
     Scope = [], StorageExpiresAt = 0, RefreshTokenExpiresAt = 0, GitHubLogin = [], GitHubUserID = 0,
     OAuthClientID = [], UpdatedAt = [] \<rparr>"

definition storage_fields :: "authStorage fields" where
  "storage_fields =
     [(''type'', at_field StorageType StorageType_update set_string),
      (''github_access_token'', at_field GitHubAccessToken GitHubAccessToken_update set_string),
      (''github_refresh_token'', at_field GitHubRefreshToken GitHubRefreshToken_update set_string),
      (''token_type'', at_field TokenType TokenType_update set_string),
      (''scope'', at_field Scope Scope_update set_string),
      (''expires_at'', at_field StorageExpiresAt StorageExpiresAt_update set_int64),
      (''refresh_token_expires_at'', at_field RefreshTokenExpiresAt RefreshTokenExpiresAt_update set_int64),
      (''github_login'', at_field GitHubLogin GitHubLogin_update set_string),
      (''github_user_id'', at_field GitHubUserID GitHubUserID_update set_int64),
      (''oauth_client_id'', at_field OAuthClientID OAuthClientID_update set_string),
      (''updated_at'', at_field UpdatedAt UpdatedAt_update set_string)]"

definition trim_storage :: "authStorage \<Rightarrow> authStorage" where
  "trim_storage s = s\<lparr> GitHubAccessToken := TrimSpace (GitHubAccessToken s),
     GitHubRefreshToken := TrimSpace (GitHubRefreshToken s),
     GitHubLogin := TrimSpace (GitHubLogin s), OAuthClientID := TrimSpace (OAuthClientID s) \<rparr>"

definition parseStorage :: "string \<Rightarrow> authStorage res" where
  "parseStorage raw =
     (if raw = [] then Inl (ErrorText ''Copilot auth storage is empty'')
      else (case unmarshal storage_fields raw empty_storage of
          None \<Rightarrow> Inl (Wrap ''decode Copilot auth storage: '' JsonError)
        | Some s \<Rightarrow>
            if \<not> EqualFold (TrimSpace (StorageType s)) providerID
            then Inl (ErrorText (''auth type is not '' @ providerID))
            else if GitHubAccessToken (trim_storage s) = []
            then Inl (ErrorText ''Copilot auth storage has no GitHub access token'')
            else Inr (trim_storage s)))"

text \<open>\<open>json.Marshal\<close> writes the fields in the order of the struct, the empty ones marked
  \<open>omitempty\<close> left out.\<close>

definition text_field :: "string \<Rightarrow> string \<Rightarrow> obj" where
  "text_field k v = (if v = [] then [] else [(k, JStr v)])"

definition int_field :: "string \<Rightarrow> int \<Rightarrow> obj" where
  "int_field k i = (if i = 0 then [] else [(k, JNum (Itoa i))])"

definition storage_members :: "authStorage \<Rightarrow> obj" where
  "storage_members s =
     [(''type'', JStr (StorageType s)), (''github_access_token'', JStr (GitHubAccessToken s))] @
     text_field ''github_refresh_token'' (GitHubRefreshToken s) @ text_field ''token_type'' (TokenType s) @
     text_field ''scope'' (Scope s) @ int_field ''expires_at'' (StorageExpiresAt s) @
     int_field ''refresh_token_expires_at'' (RefreshTokenExpiresAt s) @
     [(''github_login'', JStr (GitHubLogin s))] @ int_field ''github_user_id'' (GitHubUserID s) @
     text_field ''oauth_client_id'' (OAuthClientID s) @ [(''updated_at'', JStr (UpdatedAt s))]"

definition marshalStorage :: "authStorage \<Rightarrow> string" where
  "marshalStorage s = encode (JObj (storage_members s))"

subsection \<open>Priorities\<close>

datatype any_value = Json json | GoInt int

text \<open>\<open>int(v)\<close> of a \<open>float64\<close>, given by the text of its JSON number: truncation; a value out of
  range gives the smallest \<open>int64\<close> (amd64).\<close>

definition float_to_int :: "string \<Rightarrow> int" where
  "float_to_int n =
     (case ParseFloat n of None \<Rightarrow> 0
      | Some (neg, m, e) \<Rightarrow>
          (let a = (if 0 \<le> e then m * 2 ^ nat e else m div 2 ^ nat (- e)); i = (if neg then - a else a)
           in if i < min_int64 \<or> i > max_int64 then min_int64 else i))"

definition Atoi :: "string \<Rightarrow> int option" where
  "Atoi s = (case ParseInt s of (i, ok) \<Rightarrow> if ok then Some i else None)"

definition parsePriorityValue :: "any_value \<Rightarrow> int option" where
  "parsePriorityValue raw =
     (case raw of
        GoInt i \<Rightarrow> Some i
      | Json v \<Rightarrow> (case v of JNum n \<Rightarrow> Some (float_to_int n) | JStr s \<Rightarrow> Atoi (TrimSpace s) | _ \<Rightarrow> None))"

definition extractPriorityFromJSON :: "string \<Rightarrow> int option" where
  "extractPriorityFromJSON raw =
     (case unmarshal [(''priority'', set_any)] raw JNull of
        None \<Rightarrow> None | Some v \<Rightarrow> parsePriorityValue (Json v))"

definition any_at :: "(string \<times> any_value) list \<Rightarrow> string \<Rightarrow> any_value" where
  "any_at m k = (case map_of m k of None \<Rightarrow> Json JNull | Some v \<Rightarrow> v)"

definition text_at :: "(string \<times> string) list \<Rightarrow> string \<Rightarrow> string" where
  "text_at m k = (case map_of m k of None \<Rightarrow> [] | Some v \<Rightarrow> v)"

type_synonym metadata = "(string \<times> any_value) list"
type_synonym attributes = "(string \<times> string) list"

definition ensureAuthPriority :: "metadata option \<Rightarrow> attributes option \<Rightarrow> metadata option \<times> attributes option" where
  "ensureAuthPriority metadata attributes =
     (case (case attributes of None \<Rightarrow> None
            | Some a \<Rightarrow> (let raw = TrimSpace (text_at a ''priority'') in if raw = [] then None else Atoi raw)) of
        Some priority \<Rightarrow>
          (map_option (\<lambda>m. if map_of m ''priority'' = None then obj_put ''priority'' (GoInt priority) m else m) metadata,
           map_option (obj_put ''priority'' (Itoa priority)) attributes)
      | None \<Rightarrow>
          (case (metadata, attributes) of
             (Some m, Some a) \<Rightarrow>
               (case parsePriorityValue (any_at m ''priority'') of
                  Some priority \<Rightarrow> (Some (obj_put ''priority'' (GoInt priority) m), Some (obj_put ''priority'' (Itoa priority) a))
                | None \<Rightarrow> (metadata, attributes))
           | _ \<Rightarrow> (metadata, attributes)))"

subsection \<open>The credential handed to the host\<close>

definition nextGitHubRefresh :: "authStorage \<Rightarrow> time \<Rightarrow> time" where
  "nextGitHubRefresh storage now =
     (if StorageExpiresAt storage > 0 then
        (let refreshAt = Add (Unix (StorageExpiresAt storage)) (- 10 * Minute)
         in if refreshAt < Add now Minute then Add now Minute else refreshAt)
      else Add now (24 * Hour))"

definition name_char :: "char \<Rightarrow> bool" where
  "name_char c \<longleftrightarrow> (97 \<le> byte c \<and> byte c \<le> 122) \<or> is_digit c \<or> c = CHR ''-'' \<or> c = CHR ''_'' \<or> c = CHR ''.''"

function clean_runes :: "string \<Rightarrow> string" where
  "clean_runes [] = []"
| "clean_runes (c # r) =
     (if name_char c then c else CHR ''-'') # clean_runes (drop (max 1 (rune_len (c # r))) (c # r))"
  by pat_completeness auto
termination
  by (relation "measure length") auto

definition credentialFileName :: "string \<Rightarrow> string" where
  "credentialFileName login =
     (let name = Trim (clean_runes (ToLower (TrimSpace login))) ''-.''
      in ''copilot-'' @ (if name = [] then ''account'' else name) @ ''.json'')"

definition tokenFingerprint :: "lib \<Rightarrow> string \<Rightarrow> string" where
  "tokenFingerprint L token = Sha256Hex L token"

record authData =
  AuthProvider :: string
  AuthID :: string
  AuthFileName :: string
  AuthLabel :: string
  AuthPrefix :: string
  AuthProxyURL :: string
  AuthDisabled :: bool
  AuthStorageJSON :: string
  AuthMetadata :: "metadata option"
  AuthAttributes :: "attributes option"
  NextRefreshAfter :: time

definition make_authData ::
  "time \<Rightarrow> authStorage \<Rightarrow> string \<Rightarrow> string \<Rightarrow> string \<Rightarrow> string \<Rightarrow> bool \<Rightarrow> metadata \<Rightarrow> attributes \<Rightarrow> authData" where
  "make_authData now storage auth_id fileName pfx proxyURL disabled metadata attributes =
     (let file = (if fileName = [] then credentialFileName (GitHubLogin storage) else fileName);
          meta = (if metadata = [] then
                    mk_obj [(''type'', Json (JStr providerID)), (''github_login'', Json (JStr (GitHubLogin storage)))]
                  else metadata);
          attrs = (if attributes = [] then [(''auth_kind'', ''oauth'')] else attributes);
          (meta', attrs') = ensureAuthPriority (Some meta) (Some attrs)
      in \<lparr> AuthProvider = providerID, AuthID = (if auth_id = [] then file else auth_id), AuthFileName = file,
           AuthLabel = GitHubLogin storage, AuthPrefix = pfx, AuthProxyURL = proxyURL, AuthDisabled = disabled,
           AuthStorageJSON = marshalStorage storage, AuthMetadata = meta', AuthAttributes = attrs',
           NextRefreshAfter = nextGitHubRefresh storage now \<rparr>)"

subsection \<open>File names\<close>

lemma name_char_lower: "name_char c \<Longrightarrow> ascii_lower c = c"
  by (auto simp: name_char_def ascii_lower_def is_digit_def byte_def)

lemma clean_runes_chars: "list_all name_char (clean_runes s)"
  by (induction s rule: clean_runes.induct) (auto simp: name_char_def)

lemma name_char_bound: "name_char c \<Longrightarrow> byte c < 128"
  by (auto simp: name_char_def is_digit_def byte_def)

lemma clean_runes_id: "list_all name_char s \<Longrightarrow> clean_runes s = s"
  by (induction s) (simp_all add: rune_len_ascii name_char_bound)

lemma ToLower_id: "list_all name_char s \<Longrightarrow> ToLower s = s"
proof (induction s)
  case (Cons c s)
  then have "c \<noteq> CHR 0xC4" "c \<noteq> CHR 0xE2" by (auto simp: name_char_def is_digit_def byte_def)
  with Cons show ?case by (simp add: name_char_lower)
qed simp

lemma list_all_TrimRight: "list_all P s \<Longrightarrow> list_all P (TrimRight s cs)"
  unfolding TrimRight_def list_all_iff by (auto dest: set_dropWhileD)

lemma Trim_chars: "list_all P s \<Longrightarrow> list_all P (Trim s cs)"
  unfolding Trim_def list_all_iff
  by (metis (no_types, lifting) list_all_TrimRight list_all_iff set_dropWhileD)

lemma Trim_last: "Trim s cs \<noteq> [] \<Longrightarrow> last (Trim s cs) \<notin> set cs"
  unfolding Trim_def by (rule TrimRight_last)

lemma TrimRight_hd: "TrimRight s cs \<noteq> [] \<Longrightarrow> hd (TrimRight s cs) = hd s"
proof -
  have "suffix (dropWhile (\<lambda>c. c \<in> set cs) (rev s)) (rev s)" by (rule suffix_dropWhile)
  then obtain u where "rev s = u @ dropWhile (\<lambda>c. c \<in> set cs) (rev s)" by (auto simp: suffix_def)
  then have "s = TrimRight s cs @ rev u" by (metis TrimRight_def rev_append rev_rev_ident)
  then show "TrimRight s cs \<noteq> [] \<Longrightarrow> hd (TrimRight s cs) = hd s" by (metis hd_append2)
qed

lemma Trim_hd:
  assumes "Trim s cs \<noteq> []"
  shows "hd (Trim s cs) \<notin> set cs"
proof -
  have "dropWhile (\<lambda>c. c \<in> set cs) s \<noteq> []"
  proof
    assume "dropWhile (\<lambda>c. c \<in> set cs) s = []"
    with assms show False unfolding Trim_def TrimRight_def by simp
  qed
  with assms show ?thesis
    unfolding Trim_def by (metis TrimRight_hd hd_dropWhile)
qed

text \<open>The stem of a file name: a non-empty word of lower-case letters, digits, \<open>-\<close>, \<open>_\<close> and \<open>.\<close> that
  starts and ends with none of \<open>-\<close> and \<open>.\<close>.\<close>

definition safe_stem :: "string \<Rightarrow> bool" where
  "safe_stem s \<longleftrightarrow> s \<noteq> [] \<and> list_all name_char s \<and> hd s \<notin> set ''-.'' \<and> last s \<notin> set ''-.''"

lemma safe_stem_fix: "safe_stem s \<Longrightarrow> Trim (clean_runes (ToLower (TrimSpace s))) ''-.'' = s"
proof -
  assume s: "safe_stem s"
  have graphic: "graphic c" if "name_char c" for c
    using that by (auto simp: name_char_def graphic_def is_digit_def byte_def)
  have "TrimSpace s = s"
    using s graphic by (intro TrimSpace_graphic) (auto simp: safe_stem_def list_all_iff)
  moreover have "dropWhile (\<lambda>c. c \<in> set ''-.'') s = s"
    using s by (cases s) (auto simp: safe_stem_def)
  moreover have "dropWhile (\<lambda>c. c \<in> set ''-.'') (rev s) = rev s"
    using s by (cases s rule: rev_cases) (auto simp: safe_stem_def)
  ultimately show ?thesis
    using s by (simp add: ToLower_id clean_runes_id safe_stem_def Trim_def TrimRight_def)
qed

text \<open>C25: whatever the account is called, its credential goes to a file name without path separators
  or hidden names; and a login that is already a safe name is kept.\<close>

theorem credential_file_name_safe:
  "\<exists>stem. credentialFileName login = ''copilot-'' @ stem @ ''.json'' \<and> safe_stem stem \<and>
     (if safe_stem login then stem = login else True)"
proof -
  let ?n = "Trim (clean_runes (ToLower (TrimSpace login))) ''-.''"
  have "safe_stem ?n" if "?n \<noteq> []"
    unfolding safe_stem_def
    using that Trim_hd [OF that] Trim_last [OF that] Trim_chars [OF clean_runes_chars] by blast
  moreover have "safe_stem ''account''" by code_simp
  moreover have "\<not> safe_stem login \<or> ?n = login" using safe_stem_fix by blast
  moreover have "\<not> safe_stem login \<or> ?n \<noteq> []" using safe_stem_fix by (auto simp: safe_stem_def)
  ultimately have "safe_stem (if ?n = [] then ''account'' else ?n)"
    "if safe_stem login then (if ?n = [] then ''account'' else ?n) = login else True"
    by presburger+
  moreover have "credentialFileName login = ''copilot-'' @ (if ?n = [] then ''account'' else ?n) @ ''.json''"
    by (simp only: credentialFileName_def Let_def)
  ultimately show ?thesis
    by (intro exI [of _ "if ?n = [] then ''account'' else ?n"] conjI)
qed

subsection \<open>Saving and loading\<close>

lemma set_members_text:
  "map_of fs (fold_name k) = Some (at_field get upd set_string) \<Longrightarrow> (v = [] \<Longrightarrow> upd (\<lambda>_. v) x = x) \<Longrightarrow>
   set_members fs (text_field k v) x = Some (upd (\<lambda>_. v) x)"
  by (auto simp: text_field_def at_field_def)

lemma set_members_int:
  "map_of fs (fold_name k) = Some (at_field get upd set_int64) \<Longrightarrow> min_int64 \<le> i \<Longrightarrow> i \<le> max_int64 \<Longrightarrow>
   (i = 0 \<Longrightarrow> upd (\<lambda>_. i) x = x) \<Longrightarrow> set_members fs (int_field k i) x = Some (upd (\<lambda>_. i) x)"
  by (auto simp: int_field_def at_field_def ParseInt_Itoa)

lemma set_members_string:
  "map_of fs (fold_name k) = Some (at_field get upd set_string) \<Longrightarrow>
   set_members fs ((k, JStr v) # r) x = set_members fs r (upd (\<lambda>_. v) x)"
  by (simp add: at_field_def)

lemma fold_name_lower: "list_all name_char s \<Longrightarrow> fold_name s = s"
proof (induction s)
  case (Cons c s)
  then have "c \<noteq> CHR 0xC5" "c \<noteq> CHR 0xE2" by (auto simp: name_char_def is_digit_def byte_def)
  with Cons show ?case by (simp add: name_char_lower)
qed simp

text \<open>A credential as the provider makes it: text in UTF-8, the trimmed fields trimmed, numbers in
  range.\<close>

definition storable :: "authStorage \<Rightarrow> bool" where
  "storable s \<longleftrightarrow>
     list_all valid_utf8 [StorageType s, GitHubAccessToken s, GitHubRefreshToken s, TokenType s, Scope s,
       GitHubLogin s, OAuthClientID s, UpdatedAt s] \<and>
     list_all (\<lambda>i. min_int64 \<le> i \<and> i \<le> max_int64) [StorageExpiresAt s, RefreshTokenExpiresAt s, GitHubUserID s] \<and>
     trim_storage s = s \<and> GitHubAccessToken s \<noteq> [] \<and> EqualFold (TrimSpace (StorageType s)) providerID"

lemma valid_utf8_names: "list_all name_char s \<Longrightarrow> valid_utf8 s"
  by (induction s) (simp_all add: valid_utf8.simps [of "_ # _"] valid_utf8.simps [of "[]"] rune_len_ascii name_char_bound)

lemma storage_names:
  "list_all name_char ''type''" "list_all name_char ''github_access_token''"
  "list_all name_char ''github_refresh_token''" "list_all name_char ''token_type''"
  "list_all name_char ''scope''" "list_all name_char ''expires_at''"
  "list_all name_char ''refresh_token_expires_at''" "list_all name_char ''github_login''"
  "list_all name_char ''github_user_id''" "list_all name_char ''oauth_client_id''"
  "list_all name_char ''updated_at''"
  by code_simp+

lemmas storage_utf8 = storage_names [THEN valid_utf8_names]
lemmas storage_folds = storage_names [THEN fold_name_lower]

lemma flat_fields:
  "valid_utf8 k \<Longrightarrow> valid_utf8 v \<Longrightarrow> list_all flat_member (text_field k v)"
  "valid_utf8 k \<Longrightarrow> list_all flat_member (int_field k i)"
  by (simp_all add: text_field_def int_field_def flat_member_def Itoa_number)

lemma storage_flat: "storable s \<Longrightarrow> list_all flat_member (storage_members s)"
  by (simp add: storable_def storage_members_def flat_fields storage_utf8)
    (simp add: flat_member_def storage_utf8)

lemma storage_at:
  "map_of storage_fields ''type'' = Some (at_field StorageType StorageType_update set_string)"
  "map_of storage_fields ''github_access_token'' = Some (at_field GitHubAccessToken GitHubAccessToken_update set_string)"
  "map_of storage_fields ''github_refresh_token'' = Some (at_field GitHubRefreshToken GitHubRefreshToken_update set_string)"
  "map_of storage_fields ''token_type'' = Some (at_field TokenType TokenType_update set_string)"
  "map_of storage_fields ''scope'' = Some (at_field Scope Scope_update set_string)"
  "map_of storage_fields ''expires_at'' = Some (at_field StorageExpiresAt StorageExpiresAt_update set_int64)"
  "map_of storage_fields ''refresh_token_expires_at'' = Some (at_field RefreshTokenExpiresAt RefreshTokenExpiresAt_update set_int64)"
  "map_of storage_fields ''github_login'' = Some (at_field GitHubLogin GitHubLogin_update set_string)"
  "map_of storage_fields ''github_user_id'' = Some (at_field GitHubUserID GitHubUserID_update set_int64)"
  "map_of storage_fields ''oauth_client_id'' = Some (at_field OAuthClientID OAuthClientID_update set_string)"
  "map_of storage_fields ''updated_at'' = Some (at_field UpdatedAt UpdatedAt_update set_string)"
  by (simp_all add: storage_fields_def)

lemma storage_set:
  assumes "storable s"
  shows "set_members storage_fields (storage_members s) empty_storage = Some s"
proof -
  have "min_int64 \<le> StorageExpiresAt s" "StorageExpiresAt s \<le> max_int64"
    "min_int64 \<le> RefreshTokenExpiresAt s" "RefreshTokenExpiresAt s \<le> max_int64"
    "min_int64 \<le> GitHubUserID s" "GitHubUserID s \<le> max_int64"
    using assms by (simp_all add: storable_def)
  then show ?thesis
    unfolding storage_members_def
    by (simp add: set_members_append set_members_text set_members_int set_members_string storage_folds
        storage_at empty_storage_def del: fold_name.simps set_members.simps(2))
qed

text \<open>C26: a credential that is saved is loaded again unchanged.\<close>

theorem storage_round_trip:
  assumes "storable s"
  shows "parseStorage (marshalStorage s) = Inr s"
proof -
  have "read_ordered (marshalStorage s) = Some (JObj (storage_members s))"
    unfolding marshalStorage_def
    by (rule read_ordered_flat [OF storage_flat [OF assms]])
  then have "unmarshal storage_fields (marshalStorage s) empty_storage = Some s"
    using storage_set [OF assms] by (simp add: unmarshal_def)
  moreover have "marshalStorage s \<noteq> []" by (simp add: marshalStorage_def)
  ultimately show ?thesis
    using assms by (simp add: parseStorage_def storable_def)
qed

definition sample_storage :: authStorage where
  "sample_storage = empty_storage\<lparr> StorageType := ''copilot'', GitHubAccessToken := ''gho_1'',
     GitHubRefreshToken := ''r'', StorageExpiresAt := 1700000000, GitHubLogin := ''octo'', UpdatedAt := ''now'' \<rparr>"

theorem storage_round_trip_witness: "parseStorage (marshalStorage sample_storage) = Inr sample_storage"
proof (rule storage_round_trip)
  show "storable sample_storage" by code_simp
qed

end
