(* ===== verification/Single_Owner.thy ===== *)
theory Single_Owner
  imports Main
begin

text \<open>
  A contract several parts of the provider share: handlers run at the same time, and for each
  key at most one of them may be inside a slow operation that is done without the mutex (a token
  exchange for an account, a poll for a login). A handler enters under the mutex, which makes the
  key busy, and leaves under the mutex. \<open>owner_step\<close> runs any number of handlers; a handler that is
  inside owns its key. Any other change of the state may happen between the steps, as long as it
  does not make an owned key free.
\<close>

inductive owner_step ::
  "('k \<Rightarrow> 's \<Rightarrow> 's \<Rightarrow> bool) \<Rightarrow> ('k \<Rightarrow> 's \<Rightarrow> 's \<Rightarrow> bool) \<Rightarrow> ('k set \<Rightarrow> 's \<Rightarrow> 's \<Rightarrow> bool) \<Rightarrow>
   's \<times> (nat \<Rightarrow> 'k option) \<Rightarrow> 's \<times> (nat \<Rightarrow> 'k option) \<Rightarrow> bool"
  for enter leave other where
  enters: "own i = None \<Longrightarrow> enter k s s' \<Longrightarrow> owner_step enter leave other (s, own) (s', own(i \<mapsto> k))"
| leaves: "own i = Some k \<Longrightarrow> leave k s s' \<Longrightarrow> owner_step enter leave other (s, own) (s', own(i := None))"
| changes: "other (ran own) s s' \<Longrightarrow> owner_step enter leave other (s, own) (s', own)"

text \<open>The states any number of handlers can reach when none of them is inside at the start.\<close>

inductive owners_reach ::
  "('k \<Rightarrow> 's \<Rightarrow> 's \<Rightarrow> bool) \<Rightarrow> ('k \<Rightarrow> 's \<Rightarrow> 's \<Rightarrow> bool) \<Rightarrow> ('k set \<Rightarrow> 's \<Rightarrow> 's \<Rightarrow> bool) \<Rightarrow>
   's \<Rightarrow> (nat \<Rightarrow> 'k option) \<Rightarrow> bool"
  for enter leave other where
  reach_start: "owners_reach enter leave other s Map.empty"
| reach_step: "owners_reach enter leave other s own \<Longrightarrow> owner_step enter leave other (s, own) (s', own') \<Longrightarrow>
    owners_reach enter leave other s' own'"

locale single_owner =
  fixes busy :: "'s \<Rightarrow> 'k \<Rightarrow> bool"
    and enter :: "'k \<Rightarrow> 's \<Rightarrow> 's \<Rightarrow> bool"
    and leave :: "'k \<Rightarrow> 's \<Rightarrow> 's \<Rightarrow> bool"
    and other :: "'k set \<Rightarrow> 's \<Rightarrow> 's \<Rightarrow> bool"
  assumes enter_free: "enter k s s' \<Longrightarrow> \<not> busy s k"
    and enter_busy: "enter k s s' \<Longrightarrow> busy s' k"
    and enter_frame: "enter k s s' \<Longrightarrow> k' \<noteq> k \<Longrightarrow> busy s k' \<Longrightarrow> busy s' k'"
    and leave_frame: "leave k s s' \<Longrightarrow> k' \<noteq> k \<Longrightarrow> busy s k' \<Longrightarrow> busy s' k'"
    and other_frame: "other owned s s' \<Longrightarrow> k \<in> owned \<Longrightarrow> busy s k \<Longrightarrow> busy s' k"
begin

definition owned_once :: "'s \<Rightarrow> (nat \<Rightarrow> 'k option) \<Rightarrow> bool" where
  "owned_once s own \<longleftrightarrow>
     (\<forall>i k. own i = Some k \<longrightarrow> busy s k) \<and>
     (\<forall>i j k. own i = Some k \<longrightarrow> own j = Some k \<longrightarrow> i = j)"

lemma owned_once_step:
  assumes "owner_step enter leave other (s, own) (s', own')" "owned_once s own"
  shows "owned_once s' own'"
  using assms(1)
proof (cases rule: owner_step.cases)
  case (enters i k)
  have "own j \<noteq> Some k" for j
    using enter_free [of k s s'] enters assms(2) unfolding owned_once_def by blast
  then show ?thesis
    using enters enter_busy enter_frame assms(2) unfolding owned_once_def
    by (metis fun_upd_apply option.inject)
next
  case (leaves i k)
  then have "j = i" if "own j = Some k" for j
    using that assms(2) unfolding owned_once_def by blast
  then show ?thesis
    using leaves leave_frame assms(2) unfolding owned_once_def
    by (metis fun_upd_apply option.distinct(1))
next
  case changes
  then show ?thesis
    using other_frame assms(2) unfolding owned_once_def by (metis ranI)
qed

lemma reach_owned_once: "owners_reach enter leave other s own \<Longrightarrow> owned_once s own"
proof (induction rule: owners_reach.induct)
  case (reach_start s)
  show ?case by (simp add: owned_once_def)
qed (rule owned_once_step)

lemma exclusive:
  assumes "owners_reach enter leave other s own" "own i = Some k" "own j = Some k"
  shows "i = j" "busy s k"
  using reach_owned_once [OF assms(1)] assms(2,3) unfolding owned_once_def by blast+

end

end
