(* ===== verification/Token.thy ===== *)
theory Token
  imports Storage Single_Owner
begin

text \<open>
  The exchange of the GitHub token for a short-lived Copilot token and its cache:
  \<open>internal/provider/token.go\<close>. The two sections of \<open>copilotToken\<close> under the mutex are the
  functions \<open>token_enter\<close> and \<open>token_leave\<close>; the last section runs them for any number of callers at the same time.
\<close>

record copilotTokenResponse =
  ResponseToken :: string
  ResponseExpiresAt :: int
  RefreshIn :: int
  Endpoints :: "(string \<times> string) list"
  TokenError :: string

definition empty_token_response :: copilotTokenResponse where
  "empty_token_response =
     \<lparr> ResponseToken = [], ResponseExpiresAt = 0, RefreshIn = 0, Endpoints = [], TokenError = [] \<rparr>"

definition token_response_fields :: "copilotTokenResponse fields" where
  "token_response_fields =
     [(''token'', at_field ResponseToken ResponseToken_update set_string),
      (''expires_at'', at_field ResponseExpiresAt ResponseExpiresAt_update set_int64),
      (''refresh_in'', at_field RefreshIn RefreshIn_update set_int64),
      (''endpoints'', at_field Endpoints Endpoints_update set_map),
      (''error'', at_field TokenError TokenError_update set_string)]"

definition userAgent :: string where "userAgent = ''CLIProxyAPI-Copilot-Plugin/0.1.0''"

text \<open>The first \<open>exp=...\<close> of the token's parts that is a positive number.\<close>

fun exp_part :: "string list \<Rightarrow> int option" where
  "exp_part [] = None"
| "exp_part (part # parts) =
     (case Cut (TrimSpace part) (CHR ''='') of
        None \<Rightarrow> exp_part parts
      | Some (key, v) \<Rightarrow>
          if key \<noteq> ''exp'' then exp_part parts
          else (case ParseInt v of (seconds, ok) \<Rightarrow>
                  if ok \<and> seconds > 0 then Some seconds else exp_part parts))"

definition tokenExpiry :: "copilotTokenResponse \<Rightarrow> time \<Rightarrow> time" where
  "tokenExpiry token now =
     (if ResponseExpiresAt token > 0 then Unix (ResponseExpiresAt token)
      else (case exp_part (Split (CHR '';'') (ResponseToken token)) of
          Some seconds \<Rightarrow> Unix seconds
        | None \<Rightarrow>
            if RefreshIn token > 0 then Add now (Seconds (RefreshIn token))
            else Add now (20 * Minute)))"

definition copilotAPIBase :: "lib \<Rightarrow> (string \<times> string) list \<Rightarrow> Config \<Rightarrow> string res" where
  "copilotAPIBase L endpoints cfg =
     (let given = clean_url (text_at endpoints ''api'');
          raw = (if given = [] then CopilotAPIURL cfg else given)
      in case UrlParse L raw of
           None \<Rightarrow> Inl (ErrorText ''Copilot token returned an invalid API endpoint'')
         | Some parsed \<Rightarrow>
             if Hostname parsed = [] then Inl (ErrorText ''Copilot token returned an invalid API endpoint'')
             else if Scheme parsed \<noteq> ''https'' \<and> \<not> (AllowInsecureBaseURLs cfg \<and> Scheme parsed = ''http'')
             then Inl (ErrorText ''Copilot API endpoint must use HTTPS'')
             else if RawQuery parsed \<noteq> [] \<or> Fragment parsed \<noteq> []
             then Inl (ErrorText ''Copilot API endpoint contains query or fragment'')
             else Inr raw)"

definition exchange_request :: "Config \<Rightarrow> string \<Rightarrow> http_request" where
  "exchange_request cfg githubToken =
     \<lparr> Method = ''GET'', URL = GitHubAPIURL cfg @ ''/copilot_internal/v2/token'',
       Headers = mk_obj [(''Accept'', [''application/vnd.github+json'']),
         (''Authorization'', [''token '' @ githubToken]), (''User-Agent'', [userAgent]),
         (''X-GitHub-Api-Version'', [''2025-04-01''])],
       Body = [] \<rparr>"

definition read_token ::
  "'w outside \<Rightarrow> lib \<Rightarrow> Config \<Rightarrow> string \<Rightarrow> string \<Rightarrow> http_response \<Rightarrow> 'w machine \<Rightarrow>
   copilotTokenEntry res \<times> 'w machine" where
  "read_token E L cfg fingerprint githubToken resp m =
     (if \<not> ok_status (StatusCode resp)
      then (Inl (upstreamStatusError (StatusCode resp) (ErrorBody (RespBody resp) [githubToken])), m)
      else (case unmarshal token_response_fields (RespBody resp) empty_token_response of
          None \<Rightarrow> (Inl (Wrap ''decode Copilot token response: '' JsonError), m)
        | Some decoded \<Rightarrow>
            (let token = decoded\<lparr>ResponseToken := TrimSpace (ResponseToken decoded)\<rparr> in
             if ResponseToken token = [] then (Inl (ErrorText ''Copilot token response has no token''), m)
             else step (clock E) (\<lambda>now m.
               (case copilotAPIBase L (Endpoints token) cfg of
                  Inl e \<Rightarrow> (Inl e, m)
                | Inr apiBase \<Rightarrow>
                    (Inr \<lparr> Token = ResponseToken token, APIBaseURL = apiBase,
                           ExpiresAt = tokenExpiry token now, Fingerprint = fingerprint \<rparr>, m))) m)))"

definition exchangeCopilotToken ::
  "'w outside \<Rightarrow> lib \<Rightarrow> string \<Rightarrow> string \<Rightarrow> string \<Rightarrow> 'w machine \<Rightarrow> copilotTokenEntry res \<times> 'w machine" where
  "exchangeCopilotToken E L callbackID fingerprint githubToken =
     step (ServiceConfig E) (\<lambda>cfg.
       step (host_do E callbackID (exchange_request cfg githubToken)) (\<lambda>r m.
         case r of
           Inl e \<Rightarrow> (Inl (Wrap ''exchange GitHub OAuth token for Copilot token: '' e), m)
         | Inr resp \<Rightarrow> read_token E L cfg fingerprint githubToken resp m))"

subsection \<open>The cache\<close>

datatype entered = CacheHit copilotTokenEntry | JoinFlight nat | LeadFlight nat

definition token_enter :: "string \<Rightarrow> string \<Rightarrow> time \<Rightarrow> duration \<Rightarrow> Service \<Rightarrow> entered \<times> Service" where
  "token_enter key fingerprint now buffer s =
     (case (case tokenEntries s key of
              Some cached \<Rightarrow>
                if Fingerprint cached = fingerprint \<and> ExpiresAt cached > Add now buffer then Some cached else None
            | None \<Rightarrow> None) of
        Some cached \<Rightarrow> (CacheHit cached, s)
      | None \<Rightarrow>
          (case tokenInflight s key of
             Some flight \<Rightarrow> (JoinFlight flight, s)
           | None \<Rightarrow>
               (LeadFlight (nextFlight s),
                s\<lparr>tokenInflight := (tokenInflight s)(key \<mapsto> nextFlight s), nextFlight := Suc (nextFlight s)\<rparr>)))"

definition token_leave :: "string \<Rightarrow> copilotTokenEntry res \<Rightarrow> Service \<Rightarrow> Service" where
  "token_leave key r s =
     s\<lparr>tokenEntries := (case r of Inr entry \<Rightarrow> (tokenEntries s)(key \<mapsto> entry) | Inl _ \<Rightarrow> tokenEntries s),
       tokenInflight := (tokenInflight s)(key := None)\<rparr>"

definition cache_key :: "string \<Rightarrow> string \<Rightarrow> string" where
  "cache_key authID fingerprint = (if TrimSpace authID = [] then fingerprint else TrimSpace authID)"

definition await_flight :: "'w outside \<Rightarrow> nat \<Rightarrow> 'w machine \<Rightarrow> copilotTokenEntry res \<times> 'w machine" where
  "await_flight E flight m = (case AwaitFlight E flight (world m) of (r, w) \<Rightarrow> (r, m\<lparr>world := w\<rparr>))"

definition copilotToken ::
  "'w outside \<Rightarrow> lib \<Rightarrow> string \<Rightarrow> string \<Rightarrow> authStorage \<Rightarrow> 'w machine \<Rightarrow> copilotTokenEntry res \<times> 'w machine" where
  "copilotToken E L callbackID authID storage =
     (let fingerprint = tokenFingerprint L (GitHubAccessToken storage);
          key = cache_key authID fingerprint
      in step (ServiceConfig E) (\<lambda>cfg.
         step (clock E) (\<lambda>now.
         step (locked E (token_enter key fingerprint now (tokenExpiryBuffer cfg))) (\<lambda>entered.
           case entered of
             CacheHit cached \<Rightarrow> return (Inr cached)
           | JoinFlight flight \<Rightarrow> await_flight E flight
           | LeadFlight flight \<Rightarrow>
               step (exchangeCopilotToken E L callbackID fingerprint (GitHubAccessToken storage)) (\<lambda>r.
                 locked E (\<lambda>s. (r, token_leave key r s)))))))"

definition invalidateAuth :: "'w outside \<Rightarrow> string \<Rightarrow> 'w machine \<Rightarrow> unit \<times> 'w machine" where
  "invalidateAuth E authID =
     (let key = TrimSpace authID in
      step (locked E (\<lambda>s. ((), if key \<noteq> [] then s\<lparr>tokenEntries := (tokenEntries s)(key := None)\<rparr> else s)))
        (\<lambda>_. locked E (\<lambda>s. ((), if key \<noteq> [] then s\<lparr>modelEntries := (modelEntries s)(key := None)\<rparr> else s))))"

subsection \<open>Properties\<close>

lemma copilotAPIBase_safe:
  "copilotAPIBase L endpoints cfg = Inr base \<Longrightarrow> safe_base L (AllowInsecureBaseURLs cfg) base"
  by (auto simp: copilotAPIBase_def safe_base_def Let_def split: option.splits if_splits)

text \<open>A token worth caching for a GitHub token with the given fingerprint.\<close>

definition sound_entry :: "lib \<Rightarrow> bool \<Rightarrow> string \<Rightarrow> copilotTokenEntry \<Rightarrow> bool" where
  "sound_entry L allow fp e \<longleftrightarrow>
     Token e \<noteq> [] \<and> TrimSpace (Token e) = Token e \<and> safe_base L allow (APIBaseURL e) \<and> Fingerprint e = fp"

lemma read_token_sound:
  "read_token E L cfg fp tok resp m = (r, m') \<Longrightarrow>
     (case r of Inr e \<Rightarrow> sound_entry L (AllowInsecureBaseURLs cfg) fp e | Inl _ \<Rightarrow> True) \<and> calls m' = calls m"
  by (auto simp: read_token_def step_def Let_def sound_entry_def copilotAPIBase_safe dest: keep_calls
      split: if_splits option.splits prod.splits sum.splits)

lemma exchange_run:
  "exchangeCopilotToken E L cb fp tok m =
     (let (cfg, m1) = ServiceConfig E m; (r, m2) = host_do E cb (exchange_request cfg tok) m1
      in case r of Inl e \<Rightarrow> (Inl (Wrap ''exchange GitHub OAuth token for Copilot token: '' e), m2)
         | Inr resp \<Rightarrow> read_token E L cfg fp tok resp m2)"
  by (simp add: exchangeCopilotToken_def step_def Let_def split: prod.split)

text \<open>C27: the exchange sends the GitHub token in exactly one request, to the GitHub API of the
  configuration, and an entry it returns is sound: the token is not blank, its API base is an
  HTTPS URL (or HTTP where allowed) and it carries the fingerprint of the GitHub token.\<close>

theorem exchanged_token_sound:
  "let (cfg, m1) = ServiceConfig E m; (r, m') = exchangeCopilotToken E L cb fp tok m
   in calls m' = calls m @ [CallDo (exchange_request cfg tok)] \<and>
      (case r of Inl e \<Rightarrow> True | Inr e \<Rightarrow> sound_entry L (AllowInsecureBaseURLs cfg) fp e)"
proof -
  obtain cfg m1 where cfg: "ServiceConfig E m = (cfg, m1)" by fastforce
  obtain r m2 where do: "host_do E cb (exchange_request cfg tok) m1 = (r, m2)" by fastforce
  have calls: "calls m2 = calls m @ [CallDo (exchange_request cfg tok)]"
    using calls_ServiceConfig [of E m] calls_host(1) [of E cb "exchange_request cfg tok" m1]
    by (simp add: cfg do)
  show ?thesis
  proof (cases r)
    case (Inl e)
    with calls show ?thesis by (simp add: exchange_run cfg do)
  next
    case (Inr resp)
    obtain q m3 where q: "read_token E L cfg fp tok resp m2 = (q, m3)" by fastforce
    with read_token_sound [OF q] calls Inr show ?thesis by (simp add: exchange_run cfg do)
  qed
qed

text \<open>Outside the cache, the handler sends the GitHub token at most once.\<close>

lemma exchange_calls:
  "\<exists>cfg. calls (snd (exchangeCopilotToken E L cb fp tok m)) = calls m @ [CallDo (exchange_request cfg tok)]"
  using exchanged_token_sound [of E m L cb fp tok] by (auto simp: Let_def split: prod.splits)

subsection \<open>Many callers\<close>

text \<open>
  A caller is inside while it exchanges the token for its key; the others wait for its flight.
  Every other operation of the service leaves the flights alone.
\<close>

definition flight_enter :: "string \<Rightarrow> Service \<Rightarrow> Service \<Rightarrow> bool" where
  "flight_enter key s s' \<longleftrightarrow> (\<exists>fp now buffer f. token_enter key fp now buffer s = (LeadFlight f, s'))"

definition flight_leave :: "string \<Rightarrow> Service \<Rightarrow> Service \<Rightarrow> bool" where
  "flight_leave key s s' \<longleftrightarrow> (\<exists>r. s' = token_leave key r s)"

definition flights_kept :: "string set \<Rightarrow> Service \<Rightarrow> Service \<Rightarrow> bool" where
  "flights_kept owned s s' \<longleftrightarrow> tokenInflight s' = tokenInflight s"

lemma flight_enter_iff:
  "flight_enter key s s' \<Longrightarrow> tokenInflight s key = None \<and>
     tokenInflight s' = (tokenInflight s)(key \<mapsto> nextFlight s)"
  by (auto simp: flight_enter_def token_enter_def split: option.splits if_splits)

interpretation flights: single_owner "\<lambda>s k. tokenInflight s k \<noteq> None" flight_enter flight_leave flights_kept
proof unfold_locales
  fix k k' s s' owned
  show "flight_enter k s s' \<Longrightarrow> \<not> tokenInflight s k \<noteq> None"
    "flight_enter k s s' \<Longrightarrow> tokenInflight s' k \<noteq> None"
    "flight_enter k s s' \<Longrightarrow> k' \<noteq> k \<Longrightarrow> tokenInflight s k' \<noteq> None \<Longrightarrow> tokenInflight s' k' \<noteq> None"
    by (drule flight_enter_iff, simp)+
  show "flight_leave k s s' \<Longrightarrow> k' \<noteq> k \<Longrightarrow> tokenInflight s k' \<noteq> None \<Longrightarrow> tokenInflight s' k' \<noteq> None"
    by (auto simp: flight_leave_def token_leave_def)
  show "flights_kept owned s s' \<Longrightarrow> k \<in> owned \<Longrightarrow> tokenInflight s k \<noteq> None \<Longrightarrow> tokenInflight s' k \<noteq> None"
    by (simp add: flights_kept_def)
qed

text \<open>The other operations of the service are such changes.\<close>

lemma other_operations_keep_flights:
  assumes "undisturbed E"
  shows "tokenInflight (svc (snd (invalidateAuth E authID m))) = tokenInflight (svc m)"
    "tokenInflight (svc (snd (Shutdown E m))) = tokenInflight (svc m)"
    "tokenInflight (svc (snd (Configure L yaml order E raw m))) = tokenInflight (svc m)"
  using assms
  by (simp_all add: invalidateAuth_def Shutdown_def Configure_def step_def locked_def Let_def split: sum.split)

text \<open>C5: however the callers interleave, at most one of them at a time exchanges a token for a
  key, and while it does the key is marked as in flight.\<close>

theorem token_single_flight:
  assumes "owners_reach flight_enter flight_leave flights_kept s own"
    and "own i = Some key" "own j = Some key"
  shows "i = j \<and> tokenInflight s key \<noteq> None"
  using flights.exclusive [OF assms] by blast

theorem token_single_flight_witness:
  "tokenInflight (snd (token_enter ''a'' ''fp'' 0 0 New)) ''a'' \<noteq> None"
proof -
  have "token_enter ''a'' ''fp'' 0 0 New = (LeadFlight 0, snd (token_enter ''a'' ''fp'' 0 0 New))"
    by (simp add: token_enter_def New_def)
  then have "flight_enter ''a'' New (snd (token_enter ''a'' ''fp'' 0 0 New))"
    unfolding flight_enter_def by blast
  then have "owners_reach flight_enter flight_leave flights_kept
      (snd (token_enter ''a'' ''fp'' 0 0 New)) (Map.empty(0 \<mapsto> ''a''))"
    by (intro reach_step [OF reach_start] enters) simp_all
  from token_single_flight [OF this, of 0 "''a''" 0] show ?thesis by simp
qed

text \<open>A caller joins a flight for its key whatever GitHub token the flight was started with: the
  fingerprint is compared with cached entries only.\<close>

lemma join_ignores_fingerprint:
  assumes "tokenInflight s key = Some f" "tokenEntries s key = None"
  shows "token_enter key fp now buffer s = (JoinFlight f, s)"
  using assms by (simp add: token_enter_def)

end
