(* ===== verification/Models.thy ===== *)
theory Models
  imports Token Routing
begin

text \<open>
  The model catalogue: \<open>internal/provider/models.go\<close>, and what it needs of \<open>executor.go\<close> and
  \<open>oauth.go\<close> to call the API (\<open>copilotHeaders\<close>, \<open>randomIdentifier\<close>).
\<close>

subsection \<open>Calling the API\<close>

definition copilotUserAgent :: string where "copilotUserAgent = ''GitHubCopilotChat/0.35.0''"
definition copilotEditorVersion :: string where "copilotEditorVersion = ''vscode/1.107.0''"
definition copilotPluginVersion :: string where "copilotPluginVersion = ''copilot-chat/0.35.0''"
definition copilotIntegrationID :: string where "copilotIntegrationID = ''vscode-chat''"
definition copilotAPIVersion :: string where "copilotAPIVersion = ''2025-04-01''"

definition randomIdentifier :: "'w outside \<Rightarrow> nat \<Rightarrow> 'w machine \<Rightarrow> string res \<times> 'w machine" where
  "randomIdentifier E bytesCount = random_hex E bytesCount"

definition header_list :: "string \<Rightarrow> string \<Rightarrow> bool \<Rightarrow> (string \<times> string) list" where
  "header_list requestID token streamed =
     [(''Accept'', if streamed then ''text/event-stream'' else ''application/json''),
      (''Authorization'', ''Bearer '' @ token),
      (''Content-Type'', ''application/json''),
      (''Copilot-Integration-Id'', copilotIntegrationID),
      (''Editor-Plugin-Version'', copilotPluginVersion),
      (''Editor-Version'', copilotEditorVersion),
      (''OpenAI-Intent'', ''conversation-edits''),
      (''User-Agent'', copilotUserAgent),
      (''X-Agent-Task-Id'', requestID),
      (''X-GitHub-Api-Version'', copilotAPIVersion),
      (''X-Initiator'', ''user''),
      (''X-Interaction-Type'', ''conversation-edits''),
      (''X-Request-Id'', requestID)]"

text \<open>The identifier is empty when the random source fails.\<close>

definition copilotHeaders :: "'w outside \<Rightarrow> string \<Rightarrow> bool \<Rightarrow> 'w machine \<Rightarrow> header \<times> 'w machine" where
  "copilotHeaders E token streamed =
     step (randomIdentifier E 16) (\<lambda>r.
       return (fold (\<lambda>(k, v). SetHeader k v) (header_list (case r of Inl _ \<Rightarrow> [] | Inr i \<Rightarrow> i) token streamed) []))"

text \<open>
  A request with a Copilot token that is sent again once after HTTP 401: the cached token is
  dropped and a new one is obtained. The code has this three times, with its own request, its own
  error texts and, for a stream, closing the refused one first.
\<close>

definition with_refresh ::
  "'w outside \<Rightarrow> lib \<Rightarrow> string \<Rightarrow> string \<Rightarrow> authStorage \<Rightarrow>
   (copilotTokenEntry \<Rightarrow> 'w machine \<Rightarrow> 'r res \<times> 'w machine) \<Rightarrow> ('r \<Rightarrow> int) \<Rightarrow>
   ('r \<Rightarrow> 'w machine \<Rightarrow> 'w machine) \<Rightarrow> string \<Rightarrow> string \<Rightarrow>
   copilotTokenEntry \<Rightarrow> 'w machine \<Rightarrow> ('r \<times> copilotTokenEntry) res \<times> 'w machine" where
  "with_refresh E L callbackID authID storage send status discard msg1 msg2 token =
     step (send token) (\<lambda>first m.
       case first of
         Inl e \<Rightarrow> (Inl (Wrap msg1 e), m)
       | Inr r \<Rightarrow>
           if status r \<noteq> 401 then (Inr (r, token), m)
           else
             step (invalidateAuth E authID) (\<lambda>_.
               and_then (copilotToken E L callbackID authID storage) (\<lambda>refreshed.
                 step (send refreshed) (\<lambda>second m.
                   case second of
                     Inl e \<Rightarrow> (Inl (Wrap msg2 e), m)
                   | Inr r' \<Rightarrow> (Inr (r', refreshed), m)))) (discard r m))"

subsection \<open>The catalogue as the API sends it\<close>

definition supports_fields :: "modelSupports fields" where
  "supports_fields =
     [(''tool_calls'', at_field ToolCalls ToolCalls_update set_bool),
      (''parallel_tool_calls'', at_field ParallelToolCalls ParallelToolCalls_update set_bool),
      (''streaming'', at_field Streaming Streaming_update set_bool),
      (''vision'', at_field Vision Vision_update set_bool),
      (''adaptive_thinking'', at_field AdaptiveThinking AdaptiveThinking_update set_bool),
      (''reasoning_effort'', at_field ReasoningEffort ReasoningEffort_update (set_list set_string []))]"

definition limits_fields :: "modelLimits fields" where
  "limits_fields =
     [(''max_inputs'', at_field MaxInputs MaxInputs_update set_int64),
      (''max_prompt_tokens'', at_field MaxPromptTokens MaxPromptTokens_update set_int64),
      (''max_output_tokens'', at_field MaxOutputTokens MaxOutputTokens_update set_int64),
      (''max_non_streaming_output_tokens'',
        at_field MaxNonStreamingOutputTokens MaxNonStreamingOutputTokens_update set_int64),
      (''max_context_window_tokens'', at_field MaxContextWindowTokens MaxContextWindowTokens_update set_int64)]"

definition capabilities_fields :: "modelCapabilities fields" where
  "capabilities_fields =
     [(''type'', at_field CapType CapType_update set_string),
      (''tokenizer'', at_field Tokenizer Tokenizer_update set_string),
      (''family'', at_field Family Family_update set_string),
      (''object'', at_field CapObject CapObject_update set_string),
      (''supports'', at_field Supports Supports_update (set_struct supports_fields)),
      (''limits'', at_field Limits Limits_update (set_struct limits_fields))]"

definition message_list :: "json \<Rightarrow> string list \<Rightarrow> string list option" where
  "message_list = set_list (set_struct [(''message'', set_string)]) []"

definition model_fields :: "upstreamModel fields" where
  "model_fields =
     [(''id'', at_field ModelID ModelID_update set_string),
      (''vendor'', at_field Vendor Vendor_update set_string),
      (''name'', at_field ModelName ModelName_update set_string),
      (''version'', at_field Version Version_update set_string),
      (''object'', at_field ModelObject ModelObject_update set_string),
      (''model_picker_enabled'', at_field ModelPickerEnabled ModelPickerEnabled_update set_bool),
      (''preview'', at_field Preview Preview_update set_bool),
      (''supported_endpoints'', at_field SupportedEndpoints SupportedEndpoints_update (set_list set_string [])),
      (''warning_messages'', at_field WarningMessages WarningMessages_update message_list),
      (''info_messages'', at_field InformationMessages InformationMessages_update message_list),
      (''capabilities'', at_field Capabilities Capabilities_update (set_struct capabilities_fields))]"

definition empty_model :: upstreamModel where
  "empty_model =
     \<lparr> ModelID = [], Vendor = [], ModelName = [], Version = [], ModelObject = [], ModelPickerEnabled = False,
       Preview = False, SupportedEndpoints = [], WarningMessages = [], InformationMessages = [],
       Capabilities = \<lparr> CapType = [], Tokenizer = [], Family = [], CapObject = [],
         Supports = \<lparr> ToolCalls = False, ParallelToolCalls = False, Streaming = False, Vision = False,
           AdaptiveThinking = False, ReasoningEffort = [] \<rparr>,
         Limits = \<lparr> MaxInputs = 0, MaxPromptTokens = 0, MaxOutputTokens = 0,
           MaxNonStreamingOutputTokens = 0, MaxContextWindowTokens = 0 \<rparr> \<rparr> \<rparr>"

definition model_list_fields :: "upstreamModel list fields" where
  "model_list_fields = [(''data'', set_list (set_struct model_fields) empty_model)]"

subsection \<open>Endpoints\<close>

definition endpoint_name :: "string \<Rightarrow> string option" where
  "endpoint_name endpoint =
     (let e = ToLower (TrimSpace endpoint) in
      if e = ''/responses'' \<or> e = ''responses'' \<or> e = ''openai-responses'' then Some EndpointResponses
      else if e = ''/chat/completions'' \<or> e = ''chat'' \<or> e = ''chat-completions'' then Some EndpointChatCompletions
      else if e = ''/v1/messages'' \<or> e = ''messages'' \<or> e = ''anthropic'' then Some EndpointMessages
      else None)"

fun normalize_endpoints :: "string set \<Rightarrow> string list \<Rightarrow> string list" where
  "normalize_endpoints seen [] = []"
| "normalize_endpoints seen (e # es) =
     (case endpoint_name e of
        None \<Rightarrow> normalize_endpoints seen es
      | Some n \<Rightarrow> if n \<in> seen then normalize_endpoints seen es else n # normalize_endpoints (insert n seen) es)"

definition normalizeEndpoints :: "string list \<Rightarrow> string list" where
  "normalizeEndpoints endpoints = normalize_endpoints {} endpoints"

definition specialResponsesModel :: "string \<Rightarrow> string option" where
  "specialResponsesModel modelID =
     (let m = ToLower (TrimSpace modelID) in
      if m = ''gpt-5.6-sol'' \<or> m = ''gpt-5.6-terra'' then Some EndpointResponses else None)"

definition endpointPreference :: "string \<Rightarrow> string list" where
  "endpointPreference sourceFormat =
     (if sourceFormat = ''openai'' then [EndpointChatCompletions, EndpointResponses, EndpointMessages]
      else [EndpointResponses, EndpointChatCompletions, EndpointMessages])"

definition selectEndpoint :: "upstreamModel \<Rightarrow> string \<Rightarrow> string res" where
  "selectEndpoint model sourceFormat =
     (case specialResponsesModel (ModelID model) of
        Some endpoint \<Rightarrow> Inr endpoint
      | None \<Rightarrow>
          (let endpoints = normalizeEndpoints (SupportedEndpoints model)
           in case find (\<lambda>preferred. preferred \<in> set endpoints) (endpointPreference sourceFormat) of
                Some preferred \<Rightarrow> Inr preferred
              | None \<Rightarrow> Inl (statusError ''unsupported_model_endpoint''
                         ''Copilot model exposes no supported chat endpoint'' 422)))"

subsection \<open>Cleaning the catalogue\<close>

fun contains :: "string list \<Rightarrow> string \<Rightarrow> bool" where
  "contains [] target = False"
| "contains (v # vs) target = (if v = target then True else contains vs target)"

lemma contains_iff [simp]: "contains vs target \<longleftrightarrow> target \<in> set vs"
  by (induction vs) auto

text \<open>A copy that shares no slice with the original: every slice is appended to a nil one.\<close>

definition copy_slices :: "upstreamModel \<Rightarrow> upstreamModel" where
  "copy_slices m =
     m\<lparr> SupportedEndpoints := [] @ SupportedEndpoints m,
        Capabilities := (Capabilities m)\<lparr> Supports := (Supports (Capabilities m))\<lparr>
          ReasoningEffort := [] @ ReasoningEffort (Supports (Capabilities m)) \<rparr> \<rparr>,
        WarningMessages := [] @ WarningMessages m, InformationMessages := [] @ InformationMessages m \<rparr>"

definition cloneUpstreamModels :: "upstreamModel list \<Rightarrow> upstreamModel list" where
  "cloneUpstreamModels ms = map copy_slices ms"

lemma clone_same [simp]: "cloneUpstreamModels ms = ms"
  by (simp add: cloneUpstreamModels_def copy_slices_def map_idI)

definition clean_model :: "upstreamModel \<Rightarrow> upstreamModel" where
  "clean_model m =
     (let endpoints = normalizeEndpoints (SupportedEndpoints m)
      in m\<lparr> ModelID := TrimSpace (ModelID m), ModelName := TrimSpace (ModelName m), Vendor := TrimSpace (Vendor m),
            Version := TrimSpace (Version m), ModelObject := TrimSpace (ModelObject m),
            SupportedEndpoints :=
              (case specialResponsesModel (TrimSpace (ModelID m)) of
                 Some endpoint \<Rightarrow> if contains endpoints endpoint then endpoints else endpoints @ [endpoint]
               | None \<Rightarrow> endpoints) \<rparr>)"

definition model_key :: "upstreamModel \<Rightarrow> string" where
  "model_key m = ToLower (ModelID m)"

fun unique_models :: "string set \<Rightarrow> upstreamModel list \<Rightarrow> upstreamModel list" where
  "unique_models seen [] = []"
| "unique_models seen (m # ms) =
     (let i = TrimSpace (ModelID m) in
      if i = [] \<or> ToLower i \<in> seen then unique_models seen ms
      else clean_model m # unique_models (insert (ToLower i) seen) ms)"

definition normalizeModels :: "upstreamModel list \<Rightarrow> upstreamModel list" where
  "normalizeModels ms = sort_key model_key (unique_models {} ms)"

definition filterModels :: "upstreamModel list \<Rightarrow> string list \<Rightarrow> upstreamModel list" where
  "filterModels ms excludedPrefixes =
     (if excludedPrefixes = [] then ms
      else filter (\<lambda>m. \<not> list_ex (HasPrefix (ToLower (ModelID m))) excludedPrefixes) ms)"

subsection \<open>Discovery\<close>

definition model_list_request :: "copilotTokenEntry \<Rightarrow> header \<Rightarrow> http_request" where
  "model_list_request token headers =
     \<lparr> Method = ''GET'', URL = APIBaseURL token @ ''/models'', Headers = headers, Body = [] \<rparr>"

definition ask_models :: "'w outside \<Rightarrow> string \<Rightarrow> copilotTokenEntry \<Rightarrow> 'w machine \<Rightarrow> http_response res \<times> 'w machine" where
  "ask_models E callbackID token =
     step (copilotHeaders E (Token token) False) (\<lambda>headers.
       host_do E callbackID (model_list_request token headers))"

definition models_by_id :: "upstreamModel list \<Rightarrow> string \<rightharpoonup> upstreamModel" where
  "models_by_id ms = fold (\<lambda>m by. by(model_key m \<mapsto> m)) ms Map.empty"

definition store_models ::
  "'w outside \<Rightarrow> string \<Rightarrow> string \<Rightarrow> time \<Rightarrow> copilotTokenEntry \<Rightarrow> upstreamModel list \<Rightarrow> 'w machine \<Rightarrow> unit \<times> 'w machine" where
  "store_models E key fingerprint now token cleaned =
     step (ServiceConfig E) (\<lambda>cfg.
       locked E (\<lambda>s. ((), s\<lparr>modelEntries := (modelEntries s)(key \<mapsto>
         \<lparr> CacheFingerprint = fingerprint, CacheAPIBaseURL = APIBaseURL token,
           CacheExpiresAt = Add now (modelCacheTTL cfg), Models = cloneUpstreamModels cleaned, ByID = models_by_id cleaned \<rparr>)\<rparr>)))"

definition read_models ::
  "'w outside \<Rightarrow> string \<Rightarrow> string \<Rightarrow> time \<Rightarrow> authStorage \<Rightarrow> http_response \<times> copilotTokenEntry \<Rightarrow> 'w machine \<Rightarrow>
   (upstreamModel list \<times> copilotTokenEntry) res \<times> 'w machine" where
  "read_models E key fingerprint now storage answer m =
     (case answer of (resp, token) \<Rightarrow>
        if \<not> ok_status (StatusCode resp)
        then (Inl (upstreamStatusError (StatusCode resp)
                (ErrorBody (RespBody resp) [Token token, GitHubAccessToken storage])), m)
        else (case unmarshal model_list_fields (RespBody resp) [] of
            None \<Rightarrow> (Inl (Wrap ''decode Copilot models response: '' JsonError), m)
          | Some decoded \<Rightarrow>
              step (ServiceConfig E) (\<lambda>cfg m.
                let cleaned = filterModels (normalizeModels decoded) (ExcludedModelPrefixes cfg) in
                if cleaned = [] then (Inl (ErrorText ''Copilot models endpoint returned no usable models''), m)
                else step (store_models E key fingerprint now token cleaned) (\<lambda>_. return (Inr (cleaned, token))) m) m))"

definition fetch_models ::
  "'w outside \<Rightarrow> lib \<Rightarrow> string \<Rightarrow> string \<Rightarrow> authStorage \<Rightarrow> string \<Rightarrow> string \<Rightarrow> time \<Rightarrow> copilotTokenEntry \<Rightarrow>
   'w machine \<Rightarrow> (upstreamModel list \<times> copilotTokenEntry) res \<times> 'w machine" where
  "fetch_models E L callbackID authID storage key fingerprint now token =
     and_then
       (with_refresh E L callbackID authID storage (ask_models E callbackID) StatusCode (\<lambda>_ m. m)
          ''discover Copilot models: '' ''discover Copilot models after token refresh: '' token)
       (read_models E key fingerprint now storage)"

definition usable_cache :: "modelCacheEntry option \<Rightarrow> string \<Rightarrow> copilotTokenEntry \<Rightarrow> time \<Rightarrow> upstreamModel list option" where
  "usable_cache cached fingerprint token now =
     (case cached of None \<Rightarrow> None
      | Some c \<Rightarrow>
          if CacheFingerprint c = fingerprint \<and> CacheAPIBaseURL c = APIBaseURL token \<and> CacheExpiresAt c > now
          then Some (cloneUpstreamModels (Models c)) else None)"

definition models ::
  "'w outside \<Rightarrow> lib \<Rightarrow> string \<Rightarrow> string \<Rightarrow> authStorage \<Rightarrow> bool \<Rightarrow> 'w machine \<Rightarrow>
   (upstreamModel list \<times> copilotTokenEntry) res \<times> 'w machine" where
  "models E L callbackID authID storage force =
     and_then (copilotToken E L callbackID authID storage) (\<lambda>token.
       let fingerprint = tokenFingerprint L (GitHubAccessToken storage); key = cache_key authID fingerprint in
       step (clock E) (\<lambda>now.
         step (if force then return None else locked E (\<lambda>s. (modelEntries s key, s))) (\<lambda>cached.
           case usable_cache cached fingerprint token now of
             Some ms \<Rightarrow> return (Inr (ms, token))
           | None \<Rightarrow> fetch_models E L callbackID authID storage key fingerprint now token)))"

definition find_model :: "upstreamModel list \<Rightarrow> string \<Rightarrow> upstreamModel option" where
  "find_model ms modelID = find (\<lambda>m. EqualFold (ModelID m) modelID) ms"

definition choose_endpoint :: "upstreamModel list \<Rightarrow> string \<Rightarrow> string \<Rightarrow> string res" where
  "choose_endpoint ms modelID sourceFormat =
     (case find_model ms modelID of
        Some m \<Rightarrow> selectEndpoint m sourceFormat
      | None \<Rightarrow>
          (case specialResponsesModel modelID of
             Some endpoint \<Rightarrow> Inr endpoint
           | None \<Rightarrow> Inl (statusError ''model_not_found''
                       ''Copilot model is not present in the authenticated model catalog'' 404)))"

definition endpointForModel ::
  "'w outside \<Rightarrow> lib \<Rightarrow> string \<Rightarrow> string \<Rightarrow> authStorage \<Rightarrow> string \<Rightarrow> string \<Rightarrow> 'w machine \<Rightarrow>
   (string \<times> copilotTokenEntry) res \<times> 'w machine" where
  "endpointForModel E L callbackID authID storage model sourceFormat m =
     (let modelID = TrimSpace model in
      if modelID = [] then (Inl (statusError ''invalid_request'' ''model is required'' 400), m)
      else (case models E L callbackID authID storage False m of
          (Inl e, m1) \<Rightarrow>
            (case specialResponsesModel modelID of
               Some endpoint \<Rightarrow>
                 and_then (copilotToken E L callbackID authID storage) (\<lambda>token. return (Inr (endpoint, token))) m1
             | None \<Rightarrow> (Inl e, m1))
        | (Inr (ms, token), m1) \<Rightarrow>
            (case choose_endpoint ms modelID sourceFormat of
               Inl e \<Rightarrow> (Inl e, m1) | Inr endpoint \<Rightarrow> (Inr (endpoint, token), m1))))"

subsection \<open>What the host is told\<close>

record thinkingSupport =
  DynamicAllowed :: bool
  Levels :: "string list"

record modelInfo =
  InfoID :: string
  InfoObject :: string
  OwnedBy :: string
  InfoType :: string
  DisplayName :: string
  InfoName :: string
  InfoVersion :: string
  Description :: string
  InputTokenLimit :: int
  OutputTokenLimit :: int
  SupportedGenerationMethods :: "string list"
  ContextLength :: int
  MaxCompletionTokens :: int
  SupportedParameters :: "string list"
  SupportedInputModalities :: "string list"
  SupportedOutputModalities :: "string list"
  Thinking :: "thinkingSupport option"

definition firstNonEmpty :: "string list \<Rightarrow> string" where
  "firstNonEmpty = firstNonEmptyString"

definition modelDescription :: "upstreamModel \<Rightarrow> string" where
  "modelDescription m =
     (case find (\<lambda>s. TrimSpace s \<noteq> []) (WarningMessages m @ InformationMessages m) of
        Some message \<Rightarrow> TrimSpace message
      | None \<Rightarrow>
          Join ([''GitHub Copilot subscription model''] @
                (let family = TrimSpace (Family (Capabilities m)) in if family \<noteq> [] then [''family '' @ family] else []) @
                (if SupportedEndpoints m \<noteq> [] then [''endpoints '' @ Join (SupportedEndpoints m) '', ''] else [])) ''; '')"

definition model_parameters :: "modelSupports \<Rightarrow> string list" where
  "model_parameters supp =
     (if Streaming supp then [''stream''] else []) @
     (if ToolCalls supp then [''tools'', ''tool_choice''] else []) @
     (if ParallelToolCalls supp then [''parallel_tool_calls''] else []) @
     (if ReasoningEffort supp \<noteq> [] then [''reasoning_effort''] else [])"

definition model_info :: "upstreamModel \<Rightarrow> modelInfo" where
  "model_info m =
     (let caps = Capabilities m; supp = Supports caps; lim = Limits caps
      in \<lparr> InfoID = ModelID m,
           InfoObject = firstNonEmpty [ModelObject m, ''model''],
           OwnedBy = (if Vendor m = [] then ''github-copilot'' else Vendor m),
           InfoType = firstNonEmpty [CapType caps, ''chat''],
           DisplayName = (if ModelName m = [] then ModelID m else ModelName m),
           InfoName = ModelID m, InfoVersion = Version m, Description = modelDescription m,
           InputTokenLimit = MaxPromptTokens lim, OutputTokenLimit = MaxOutputTokens lim,
           SupportedGenerationMethods = SupportedEndpoints m,
           ContextLength = (if MaxContextWindowTokens lim = 0 then wrap64 (MaxPromptTokens lim + MaxOutputTokens lim)
                            else MaxContextWindowTokens lim),
           MaxCompletionTokens = MaxOutputTokens lim,
           SupportedParameters = model_parameters supp,
           SupportedInputModalities = (if Vision supp then [''TEXT'', ''IMAGE''] else [''TEXT'']),
           SupportedOutputModalities = [''TEXT''],
           Thinking = (if AdaptiveThinking supp \<or> ReasoningEffort supp \<noteq> []
                       then Some \<lparr> DynamicAllowed = AdaptiveThinking supp, Levels = ReasoningEffort supp \<rparr>
                       else None) \<rparr>)"

definition modelInfos :: "upstreamModel list \<Rightarrow> modelInfo list" where
  "modelInfos ms = map model_info ms"

definition ModelsForAuth ::
  "'w outside \<Rightarrow> lib \<Rightarrow> string \<Rightarrow> string \<Rightarrow> string \<Rightarrow> 'w machine \<Rightarrow> (string \<times> modelInfo list) res \<times> 'w machine" where
  "ModelsForAuth E L callbackID authID storageJSON m =
     (case parseStorage storageJSON of
        Inl e \<Rightarrow> (Inl e, m)
      | Inr storage \<Rightarrow>
          and_then (models E L callbackID authID storage False)
            (\<lambda>(ms, token). return (Inr (providerID, modelInfos ms))) m)"

definition StaticModels :: "string \<times> modelInfo list" where
  "StaticModels = (providerID, [])"

subsection \<open>The cleaned catalogue\<close>

definition upstream_key :: "upstreamModel \<Rightarrow> string" where
  "upstream_key m = ToLower (TrimSpace (ModelID m))"

lemma key_clean_model [simp]: "model_key (clean_model m) = upstream_key m"
  by (simp add: model_key_def clean_model_def upstream_key_def Let_def)

lemma normalize_endpoints_set:
  "set (normalize_endpoints seen es) = {n. \<exists>e \<in> set es. endpoint_name e = Some n} - seen"
  by (induction seen es rule: normalize_endpoints.induct) (auto split: option.splits)

lemma normalize_endpoints_distinct: "distinct (normalize_endpoints seen es)"
  by (induction seen es rule: normalize_endpoints.induct)
    (auto simp: normalize_endpoints_set split: option.splits)

lemma endpoint_name_known:
  "endpoint_name e = Some n \<Longrightarrow> n \<in> {EndpointResponses, EndpointChatCompletions, EndpointMessages}"
  by (auto simp: endpoint_name_def Let_def split: if_splits)

lemma special_known: "specialResponsesModel m = Some n \<Longrightarrow> n = EndpointResponses"
  by (auto simp: specialResponsesModel_def Let_def split: if_splits)

text \<open>A model as the catalogue lists it.\<close>

definition listed :: "upstreamModel \<Rightarrow> bool" where
  "listed m \<longleftrightarrow> ModelID m \<noteq> [] \<and> TrimSpace (ModelID m) = ModelID m \<and> distinct (SupportedEndpoints m) \<and>
     set (SupportedEndpoints m) \<subseteq> {EndpointResponses, EndpointChatCompletions, EndpointMessages} \<and>
     (specialResponsesModel (ModelID m) = None \<or> EndpointResponses \<in> set (SupportedEndpoints m))"

lemma listed_clean_model: "TrimSpace (ModelID m) \<noteq> [] \<Longrightarrow> listed (clean_model m)"
  using normalize_endpoints_distinct [of "{}" "SupportedEndpoints m"]
  by (auto simp: listed_def clean_model_def Let_def normalizeEndpoints_def normalize_endpoints_set
      dest: endpoint_name_known special_known split: option.split)

lemma unique_models_listed: "list_all listed (unique_models seen ms)"
  by (induction seen ms rule: unique_models.induct) (simp_all add: Let_def listed_clean_model)

definition first_with_key :: "upstreamModel list \<Rightarrow> string \<Rightarrow> upstreamModel option" where
  "first_with_key ms k = find (\<lambda>m. TrimSpace (ModelID m) \<noteq> [] \<and> upstream_key m = k) ms"

definition by_key :: "upstreamModel list \<Rightarrow> (string \<times> upstreamModel) list" where
  "by_key ms = map (\<lambda>m. (model_key m, m)) ms"

lemma by_key_simps [simp]:
  "by_key [] = []" "by_key (m # ms) = (model_key m, m) # by_key ms" "map fst (by_key ms) = map model_key ms"
  by (simp_all add: by_key_def comp_def)

lemma unique_models_lookup:
  "map_of (by_key (unique_models seen ms)) k =
     (if k \<in> seen then None else map_option clean_model (first_with_key ms k))"
  by (induction seen ms rule: unique_models.induct) (auto simp: Let_def first_with_key_def upstream_key_def)

lemma unique_models_distinct: "distinct (map model_key (unique_models seen ms))"
proof (induction seen ms rule: unique_models.induct)
  case (2 seen m ms)
  have "upstream_key m \<notin> set (map model_key (unique_models (insert (upstream_key m) seen) ms))"
    using unique_models_lookup [of "insert (upstream_key m) seen" ms "upstream_key m"]
      map_of_eq_None_iff [of "by_key (unique_models (insert (upstream_key m) seen) ms)" "upstream_key m"]
    by (simp add: by_key_def image_image)
  with 2 show ?case by (simp add: Let_def upstream_key_def)
qed simp

lemma map_of_sort_key:
  assumes "distinct (map model_key xs)"
  shows "map_of (by_key (sort_key model_key xs)) = map_of (by_key xs)"
  using assms by (intro map_of_inject_set [THEN iffD2]) (simp_all add: by_key_def distinct_map comp_def)

text \<open>C28: the cleaned catalogue is sorted by its case-folded ids, which are distinct; its models have
  trimmed ids and known endpoints only; and looking up an id gives the first model of the answer
  with that id, cleaned.\<close>

theorem normalize_models_catalog:
  "let out = normalizeModels ms in
     sorted (map model_key out) \<and> distinct (map model_key out) \<and> list_all listed out \<and>
     (\<forall>k. map_of (by_key out) k = map_option clean_model (first_with_key ms k))"
proof -
  let ?u = "unique_models {} ms"
  have "distinct (map model_key (sort_key model_key ?u))"
    using unique_models_distinct [of "{}" ms] by (simp add: distinct_map)
  moreover have "list_all listed (sort_key model_key ?u)"
    using unique_models_listed [of "{}" ms] by (simp add: list_all_iff)
  ultimately show ?thesis
    by (simp add: normalizeModels_def Let_def map_of_sort_key unique_models_distinct unique_models_lookup)
qed

subsection \<open>The choice of an endpoint\<close>

text \<open>Whether the catalogue lists a model under one of the names of an endpoint.\<close>

definition offers :: "upstreamModel \<Rightarrow> string list \<Rightarrow> bool" where
  "offers m names \<longleftrightarrow> list_ex (\<lambda>e. ToLower (TrimSpace e) \<in> set names) (SupportedEndpoints m)"

lemma offers_endpoints:
  "EndpointResponses \<in> set (normalizeEndpoints (SupportedEndpoints m)) \<longleftrightarrow>
     offers m [''/responses'', ''responses'', ''openai-responses'']"
  "EndpointChatCompletions \<in> set (normalizeEndpoints (SupportedEndpoints m)) \<longleftrightarrow>
     offers m [''/chat/completions'', ''chat'', ''chat-completions'']"
  "EndpointMessages \<in> set (normalizeEndpoints (SupportedEndpoints m)) \<longleftrightarrow>
     offers m [''/v1/messages'', ''messages'', ''anthropic'']"
proof -
  have "endpoint_name e = Some EndpointResponses \<longleftrightarrow> ToLower (TrimSpace e) \<in> set [''/responses'', ''responses'', ''openai-responses'']"
    "endpoint_name e = Some EndpointChatCompletions \<longleftrightarrow> ToLower (TrimSpace e) \<in> set [''/chat/completions'', ''chat'', ''chat-completions'']"
    "endpoint_name e = Some EndpointMessages \<longleftrightarrow> ToLower (TrimSpace e) \<in> set [''/v1/messages'', ''messages'', ''anthropic'']" for e
    by (auto simp: endpoint_name_def Let_def EndpointResponses_def EndpointChatCompletions_def EndpointMessages_def)
  then show "EndpointResponses \<in> set (normalizeEndpoints (SupportedEndpoints m)) \<longleftrightarrow>
      offers m [''/responses'', ''responses'', ''openai-responses'']"
    "EndpointChatCompletions \<in> set (normalizeEndpoints (SupportedEndpoints m)) \<longleftrightarrow>
      offers m [''/chat/completions'', ''chat'', ''chat-completions'']"
    "EndpointMessages \<in> set (normalizeEndpoints (SupportedEndpoints m)) \<longleftrightarrow>
      offers m [''/v1/messages'', ''messages'', ''anthropic'']"
    by (simp_all only: offers_def list_ex_iff normalizeEndpoints_def normalize_endpoints_set mem_Collect_eq Diff_empty)
qed

text \<open>C3: which endpoint serves a model, for a client format. The two special models get \<open>/responses\<close>. For
  any other model it is the first the model offers of \<open>/responses\<close>, \<open>/chat/completions\<close> and
  \<open>/v1/messages\<close>, where a Chat Completions client prefers \<open>/chat/completions\<close> to \<open>/responses\<close>; the names of the
  catalogue are compared without case and white space. A model that offers none is an error with
  status 422.\<close>

theorem select_endpoint_correct:
  "selectEndpoint m fmt =
     (let responses = offers m [''/responses'', ''responses'', ''openai-responses''];
          chat = offers m [''/chat/completions'', ''chat'', ''chat-completions''];
          messages = offers m [''/v1/messages'', ''messages'', ''anthropic'']
      in if ToLower (TrimSpace (ModelID m)) \<in> {''gpt-5.6-sol'', ''gpt-5.6-terra''} then Inr ''/responses''
         else if fmt = ''openai'' \<and> chat then Inr ''/chat/completions''
         else if responses then Inr ''/responses''
         else if chat then Inr ''/chat/completions''
         else if messages then Inr ''/v1/messages''
         else Inl (StatusErr ''unsupported_model_endpoint'' ''Copilot model exposes no supported chat endpoint'' 422 False))"
proof (cases "specialResponsesModel (ModelID m)")
  case (Some n)
  then show ?thesis
    by (auto simp: selectEndpoint_def specialResponsesModel_def EndpointResponses_def Let_def split: if_splits)
next
  case None
  have special: "ToLower (TrimSpace (ModelID m)) \<notin> {''gpt-5.6-sol'', ''gpt-5.6-terra''}"
    using None by (auto simp: specialResponsesModel_def Let_def split: if_splits)
  let ?es = "set (normalizeEndpoints (SupportedEndpoints m))"
  have "selectEndpoint m fmt =
      (if fmt = ''openai'' \<and> EndpointChatCompletions \<in> ?es then Inr EndpointChatCompletions
       else if EndpointResponses \<in> ?es then Inr EndpointResponses
       else if EndpointChatCompletions \<in> ?es then Inr EndpointChatCompletions
       else if EndpointMessages \<in> ?es then Inr EndpointMessages
       else Inl (statusError ''unsupported_model_endpoint'' ''Copilot model exposes no supported chat endpoint'' 422))"
    using None by (simp add: selectEndpoint_def endpointPreference_def Let_def)
  then show ?thesis
    unfolding Let_def if_not_P [OF special] offers_endpoints
    by (simp add: statusError_def EndpointResponses_def EndpointChatCompletions_def EndpointMessages_def)
qed

end
