(* ===== verification/Executor.thy ===== *)
theory Executor
  imports Models Sse
begin

text \<open>
  Running a request: \<open>internal/provider/executor.go\<close>. The official translator is the parameter
  \<open>sdk\<close> of \<open>Routing\<close>. A loop that reads a stream until its end returns \<open>None\<close> when the stream never
  ends. \<open>ExecuteStream\<close> starts \<open>pumpStream\<close> in a goroutine of its own: the model returns the pump as a
  job next to the headers, and \<open>run_job\<close> is the goroutine.
\<close>

record executeRequest =
  ReqAuthID :: string
  ReqModel :: string
  ReqFormat :: string
  ReqSourceFormat :: string
  ReqPayload :: string
  ReqOriginalRequest :: string
  ReqStorageJSON :: string
  ReqStreamID :: string
  ReqHostCallbackID :: string

record executorResponse =
  ExecPayload :: string
  ExecHeaders :: header
  ExecMetadata :: "(string \<times> string) list"

record httpRequest =
  HTTPAuthID :: string
  HTTPMethod :: string
  HTTPURL :: string
  HTTPHeaders :: header
  HTTPBody :: string
  HTTPStorageJSON :: string
  HTTPHostCallbackID :: string

definition normalizeRequestFormat :: "string \<Rightarrow> string" where
  "normalizeRequestFormat fmt =
     (let f = ToLower (TrimSpace fmt) in
      if f = [] \<or> f = ''responses'' \<or> f = ''openai-response'' \<or> f = ''openai-responses'' then ''openai-response''
      else if f = ''openai'' \<or> f = ''openai-chat'' \<or> f = ''chat-completions'' then ''openai''
      else if f = ''claude'' \<or> f = ''anthropic'' then ''claude''
      else [])"

definition filterResponseHeaders :: "header \<Rightarrow> header" where
  "filterResponseHeaders h =
     filter (\<lambda>p. ToLower (fst p) \<in> set [''content-type'', ''cache-control'', ''retry-after'',
                                        ''x-github-request-id'', ''x-request-id'']) h"

text \<open>\<open>http.Header.Clone\<close> copies the values, which is the identity on values.\<close>

definition cloneHeader :: "header \<Rightarrow> header" where
  "cloneHeader h = (if h = [] then [] else h)"

subsection \<open>Calling a model endpoint\<close>

definition model_request :: "string \<Rightarrow> string \<Rightarrow> copilotTokenEntry \<Rightarrow> header \<Rightarrow> http_request" where
  "model_request endpoint body token headers =
     \<lparr> Method = ''POST'', URL = APIBaseURL token @ endpoint, Headers = headers, Body = body \<rparr>"

definition send_model ::
  "'w outside \<Rightarrow> string \<Rightarrow> string \<Rightarrow> string \<Rightarrow> bool \<Rightarrow> copilotTokenEntry \<Rightarrow> 'w machine \<Rightarrow> http_response res \<times> 'w machine" where
  "send_model E callbackID endpoint body streamed token =
     step (copilotHeaders E (Token token) streamed) (\<lambda>headers.
       host_do E callbackID (model_request endpoint body token headers))"

definition doModelRequest ::
  "'w outside \<Rightarrow> lib \<Rightarrow> string \<Rightarrow> string \<Rightarrow> authStorage \<Rightarrow> copilotTokenEntry \<Rightarrow> string \<Rightarrow> string \<Rightarrow> bool \<Rightarrow>
   'w machine \<Rightarrow> (http_response \<times> copilotTokenEntry) res \<times> 'w machine" where
  "doModelRequest E L callbackID authID storage token endpoint body streamed =
     and_then
       (with_refresh E L callbackID authID storage (send_model E callbackID endpoint body streamed) StatusCode
          (\<lambda>_ m. m) ''call Copilot model endpoint: '' ''call Copilot model endpoint after token refresh: '' token)
       (\<lambda>(resp, token). return
          (if \<not> ok_status (StatusCode resp)
           then Inl (upstreamStatusError (StatusCode resp)
                  (ErrorBody (RespBody resp) [Token token, GitHubAccessToken storage]))
           else Inr (resp, token)))"

definition open_model ::
  "'w outside \<Rightarrow> string \<Rightarrow> string \<Rightarrow> string \<Rightarrow> copilotTokenEntry \<Rightarrow> 'w machine \<Rightarrow> http_stream res \<times> 'w machine" where
  "open_model E callbackID endpoint body token =
     step (copilotHeaders E (Token token) True) (\<lambda>headers.
       host_open E callbackID (model_request endpoint body token headers))"

definition openModelStream ::
  "'w outside \<Rightarrow> lib \<Rightarrow> string \<Rightarrow> string \<Rightarrow> authStorage \<Rightarrow> copilotTokenEntry \<Rightarrow> string \<Rightarrow> string \<Rightarrow>
   'w machine \<Rightarrow> (http_stream \<times> copilotTokenEntry) res \<times> 'w machine" where
  "openModelStream E L callbackID authID storage token endpoint body =
     with_refresh E L callbackID authID storage (open_model E callbackID endpoint body) StreamStatus
       (\<lambda>refused. host_close E (StreamID refused))
       ''open Copilot model stream: '' ''open Copilot model stream after token refresh: '' token"

subsection \<open>Finished responses\<close>

text \<open>A translation error becomes a status error; a panic unwinds.\<close>

definition translation_error :: "lib \<Rightarrow> go_error \<Rightarrow> int \<Rightarrow> go_error" where
  "translation_error L e status =
     (case e of Panic msg \<Rightarrow> Panic msg | _ \<Rightarrow> statusError ''translation_error'' (ErrorString L e) status)"

definition unsupported_format :: "lib \<Rightarrow> executeRequest \<Rightarrow> go_error" where
  "unsupported_format L req =
     statusError ''unsupported_format''
       (''unsupported request format '' @ GoQuote L (firstNonEmpty [ReqSourceFormat req, ReqFormat req])) 422"

definition source_format :: "executeRequest \<Rightarrow> string" where
  "source_format req = normalizeRequestFormat (firstNonEmpty [ReqSourceFormat req, ReqFormat req])"

text \<open>The steps \<open>Execute\<close> and \<open>ExecuteStream\<close> have in common: format, credential, endpoint, request body.\<close>

definition prepare ::
  "'w outside \<Rightarrow> lib \<Rightarrow> 'x sdk \<Rightarrow> bool \<Rightarrow> executeRequest \<Rightarrow> 'w machine \<Rightarrow>
   (authStorage \<times> string \<times> copilotTokenEntry \<times> string) res \<times> 'w machine" where
  "prepare E L sdk streamed req m =
     (if source_format req = [] then (Inl (unsupported_format L req), m)
      else (case parseStorage (ReqStorageJSON req) of
          Inl e \<Rightarrow> (Inl e, m)
        | Inr storage \<Rightarrow>
            and_then (endpointForModel E L (ReqHostCallbackID req) (ReqAuthID req) storage (ReqModel req) (source_format req))
              (\<lambda>(endpoint, token). return
                 (case RequestForEndpointFrom sdk (source_format req) (ReqModel req) (ReqPayload req) streamed endpoint of
                    Inl e \<Rightarrow> Inl (translation_error L e 422)
                  | Inr body \<Rightarrow> Inr (storage, endpoint, token, body))) m))"

definition Execute ::
  "'w outside \<Rightarrow> lib \<Rightarrow> 'x sdk \<Rightarrow> executeRequest \<Rightarrow> 'w machine \<Rightarrow> executorResponse res \<times> 'w machine" where
  "Execute E L sdk req =
     and_then (prepare E L sdk False req) (\<lambda>(storage, endpoint, token, requestBody).
     and_then (doModelRequest E L (ReqHostCallbackID req) (ReqAuthID req) storage token endpoint requestBody False)
       (\<lambda>(resp, token). return
          (case ResponseFromEndpoint sdk endpoint (source_format req) (ReqModel req) (ReqOriginalRequest req)
                  requestBody (RespBody resp) of
             Inl e \<Rightarrow> Inl (translation_error L e 502)
           | Inr body \<Rightarrow> Inr \<lparr> ExecPayload = body, ExecHeaders = filterResponseHeaders (RespHeaders resp),
               ExecMetadata = [(''copilot_endpoint'', endpoint), (''token_expires_at'', FormatHTTP (ExpiresAt token))] \<rparr>)))"

subsection \<open>Streams\<close>

partial_function (option) collect_loop ::
  "'w outside \<Rightarrow> string \<Rightarrow> string \<Rightarrow> 'w machine \<Rightarrow> (string res \<times> 'w machine) option" where
  "collect_loop E sid body m =
     (case host_read E sid m of
        (Inl e, m1) \<Rightarrow> Some (Inl (Wrap ''read Copilot error stream: '' e), m1)
      | (Inr chunk, m1) \<Rightarrow>
          if ChunkError chunk \<noteq> []
          then Some (Inl (ErrorText (''read Copilot error stream: '' @ Text (ChunkError chunk) [])), m1)
          else if Done chunk then Some (Inr (body @ Payload chunk), m1)
          else collect_loop E sid (body @ Payload chunk) m1)"

definition collectStreamError :: "'w outside \<Rightarrow> http_stream \<Rightarrow> 'w machine \<Rightarrow> (string res \<times> 'w machine) option" where
  "collectStreamError E up m =
     map_option (\<lambda>(r, m1). (r, host_close E (StreamID up) m1)) (collect_loop E (StreamID up) [] m)"

text \<open>The translator of one frame, with the state it keeps between frames.\<close>

type_synonym 'x translator = "string \<Rightarrow> 'x any_state option \<Rightarrow> string list res \<times> 'x any_state option"

fun emit_outputs :: "'w outside \<Rightarrow> string \<Rightarrow> string list \<Rightarrow> 'w machine \<Rightarrow> go_error option \<times> 'w machine" where
  "emit_outputs E outputID [] m = (None, m)"
| "emit_outputs E outputID (p # ps) m =
     (if p = [] then emit_outputs E outputID ps m
      else (case host_emit E outputID p m of
              (Some e, m1) \<Rightarrow> (Some e, m1)
            | (None, m1) \<Rightarrow> emit_outputs E outputID ps m1))"

definition emit_frame ::
  "'w outside \<Rightarrow> 'x translator \<Rightarrow> string \<Rightarrow> string \<Rightarrow> 'x any_state \<Rightarrow> 'w machine \<Rightarrow>
   go_error option \<times> 'x any_state \<times> 'w machine" where
  "emit_frame E T outputID frame cell m =
     (case T frame (Some cell) of
        (r, st) \<Rightarrow>
          (let cell' = (case st of Some c \<Rightarrow> c | None \<Rightarrow> cell) in
           (case r of
              Inl e \<Rightarrow> (Some e, cell', m)
            | Inr frames \<Rightarrow> (case emit_outputs E outputID frames m of (err, m1) \<Rightarrow> (err, cell', m1)))))"

fun emit_frames ::
  "'w outside \<Rightarrow> 'x translator \<Rightarrow> string \<Rightarrow> string list \<Rightarrow> 'x any_state \<Rightarrow> 'w machine \<Rightarrow>
   go_error option \<times> 'x any_state \<times> 'w machine" where
  "emit_frames E T outputID [] cell m = (None, cell, m)"
| "emit_frames E T outputID (f # fs) cell m =
     (case emit_frame E T outputID f cell m of
        (Some e, cell1, m1) \<Rightarrow> (Some e, cell1, m1)
      | (None, cell1, m1) \<Rightarrow> emit_frames E T outputID fs cell1 m1)"

definition pump_end ::
  "'w outside \<Rightarrow> 'x translator \<Rightarrow> string \<Rightarrow> sse_decoder \<Rightarrow> 'x any_state \<Rightarrow> 'w machine \<Rightarrow> go_error option \<times> 'w machine" where
  "pump_end E T outputID d cell m =
     (let trailing = fst (Flush d) in
      if trailing = [] then (None, m)
      else (case emit_frame E T outputID trailing cell m of
              (Some e, _, m1) \<Rightarrow> (Some (Wrap ''translate final Copilot stream frame: '' e), m1)
            | (None, _, m1) \<Rightarrow> (None, m1)))"

partial_function (option) pump_loop ::
  "'w outside \<Rightarrow> 'x translator \<Rightarrow> string \<Rightarrow> string \<Rightarrow> sse_decoder \<Rightarrow> 'x any_state \<Rightarrow> 'w machine \<Rightarrow>
   (go_error option \<times> 'w machine) option" where
  "pump_loop E T sid outputID d cell m =
     (case host_read E sid m of
        (Inl e, m1) \<Rightarrow> Some (Some (Wrap ''read Copilot stream: '' e), m1)
      | (Inr chunk, m1) \<Rightarrow>
          if ChunkError chunk \<noteq> []
          then Some (Some (ErrorText (''Copilot stream error: '' @ Text (ChunkError chunk) [])), m1)
          else
            (case Feed d (Payload chunk) of (frames, d1) \<Rightarrow>
              (case emit_frames E T outputID frames cell m1 of
                 (Some e, cell1, m2) \<Rightarrow> Some (Some (Wrap ''translate Copilot stream: '' e), m2)
               | (None, cell1, m2) \<Rightarrow>
                   if Done chunk then Some (pump_end E T outputID d1 cell1 m2)
                   else pump_loop E T sid outputID d1 cell1 m2)))"

definition pumpStream ::
  "'w outside \<Rightarrow> lib \<Rightarrow> 'x translator \<Rightarrow> string \<Rightarrow> http_stream \<Rightarrow> 'w machine \<Rightarrow> 'w machine option" where
  "pumpStream E L T outputID up m =
     map_option (\<lambda>(terminalErr, m1).
         host_close_output E outputID
           (case terminalErr of None \<Rightarrow> [] | Some e \<Rightarrow> Text (ErrorString L e) [])
           (host_close E (StreamID up) m1))
       (pump_loop E T (StreamID up) outputID new_decoder NilAny m)"

record pump_job =
  JobStreamID :: string
  JobEndpoint :: string
  JobDestination :: string
  JobModel :: string
  JobOriginal :: string
  JobTranslated :: string
  JobUpstream :: http_stream

definition run_job ::
  "'w outside \<Rightarrow> lib \<Rightarrow> (string list \<Rightarrow> string list) \<Rightarrow> 'x sdk \<Rightarrow> pump_job \<Rightarrow> 'w machine \<Rightarrow> 'w machine option" where
  "run_job E L order sdk job =
     pumpStream E L
       (StreamFromEndpoint order sdk (JobEndpoint job) (JobDestination job) (JobModel job) (JobOriginal job) (JobTranslated job))
       (JobStreamID job) (JobUpstream job)"

definition stream_headers :: "header \<Rightarrow> header" where
  "stream_headers upstream =
     SetHeader ''Cache-Control'' ''no-cache'' (SetHeader ''Content-Type'' ''text/event-stream'' (filterResponseHeaders upstream))"

definition start_pump ::
  "'w outside \<Rightarrow> lib \<Rightarrow> executeRequest \<Rightarrow> authStorage \<Rightarrow> string \<Rightarrow> string \<Rightarrow> http_stream \<times> copilotTokenEntry \<Rightarrow>
   'w machine \<Rightarrow> ((header \<times> pump_job) res \<times> 'w machine) option" where
  "start_pump E L req storage endpoint requestBody opened m =
     (case opened of (up, token) \<Rightarrow>
        if \<not> ok_status (StreamStatus up) then
          map_option (\<lambda>(r, m1).
             (case r of
                Inl e \<Rightarrow> Inl e
              | Inr body \<Rightarrow> Inl (upstreamStatusError (StreamStatus up)
                  (ErrorBody body [Token token, GitHubAccessToken storage])), m1))
            (collectStreamError E up m)
        else Some (Inr (stream_headers (StreamHeaders up),
               \<lparr> JobStreamID = ReqStreamID req, JobEndpoint = endpoint, JobDestination = source_format req,
                 JobModel = ReqModel req, JobOriginal = ReqOriginalRequest req, JobTranslated = requestBody,
                 JobUpstream = up \<rparr>), m))"

definition ExecuteStream ::
  "'w outside \<Rightarrow> lib \<Rightarrow> 'x sdk \<Rightarrow> executeRequest \<Rightarrow> 'w machine \<Rightarrow> ((header \<times> pump_job) res \<times> 'w machine) option" where
  "ExecuteStream E L sdk req m =
     (if TrimSpace (ReqStreamID req) = []
      then Some (Inl (statusError ''invalid_request'' ''stream_id is required'' 400), m)
      else (case prepare E L sdk True req m of
          (Inl e, m1) \<Rightarrow> Some (Inl e, m1)
        | (Inr (storage, endpoint, token, requestBody), m1) \<Rightarrow>
            (case openModelStream E L (ReqHostCallbackID req) (ReqAuthID req) storage token endpoint requestBody m1 of
               (Inl e, m2) \<Rightarrow> Some (Inl e, m2)
             | (Inr opened, m2) \<Rightarrow> start_pump E L req storage endpoint requestBody opened m2)))"

subsection \<open>Raw HTTP\<close>

definition api_request :: "httpRequest \<Rightarrow> copilotTokenEntry \<Rightarrow> url \<Rightarrow> http_request" where
  "api_request req token target =
     \<lparr> Method = HTTPMethod req, URL = UrlString target,
       Headers = SetHeader ''X-GitHub-Api-Version'' copilotAPIVersion
         (SetHeader ''User-Agent'' copilotUserAgent
           (SetHeader ''Authorization'' (''Bearer '' @ Token token) (cloneHeader (HTTPHeaders req)))),
       Body = HTTPBody req \<rparr>"

definition same_origin :: "url \<Rightarrow> url \<Rightarrow> bool" where
  "same_origin target base \<longleftrightarrow> EqualFold (Scheme target) (Scheme base) \<and> EqualFold (Host target) (Host base)"

definition forward_http ::
  "'w outside \<Rightarrow> lib \<Rightarrow> httpRequest \<Rightarrow> copilotTokenEntry \<Rightarrow> 'w machine \<Rightarrow> http_response res \<times> 'w machine" where
  "forward_http E L req token m =
     (case UrlParse L (TrimSpace (HTTPURL req)) of
        None \<Rightarrow> (Inl (statusError ''invalid_request'' ''executor HTTP URL is invalid'' 400), m)
      | Some target \<Rightarrow>
          if Hostname target = [] then (Inl (statusError ''invalid_request'' ''executor HTTP URL is invalid'' 400), m)
          else (case UrlParse L (APIBaseURL token) of
              None \<Rightarrow> (Inl (Panic ''nil pointer dereference''), m)
            | Some base \<Rightarrow>
                if \<not> same_origin target base
                then (Inl (statusError ''forbidden_url''
                       ''executor HTTP URL is outside the authenticated Copilot API origin'' 403), m)
                else
                  and_then (host_do E (HTTPHostCallbackID req) (api_request req token target)) (\<lambda>resp.
                    return (Inr \<lparr> StatusCode = StatusCode resp,
                      RespHeaders = filterResponseHeaders (RespHeaders resp), RespBody = RespBody resp \<rparr>)) m))"

definition HTTP :: "'w outside \<Rightarrow> lib \<Rightarrow> httpRequest \<Rightarrow> 'w machine \<Rightarrow> http_response res \<times> 'w machine" where
  "HTTP E L req m =
     (case parseStorage (HTTPStorageJSON req) of
        Inl e \<Rightarrow> (Inl e, m)
      | Inr storage \<Rightarrow>
          and_then (copilotToken E L (HTTPHostCallbackID req) (HTTPAuthID req) storage) (forward_http E L req) m)"

subsection \<open>Which calls are made\<close>

text \<open>The calls of \<open>copilotToken\<close>: none, or one exchange.\<close>

definition exchange_calls :: "string \<Rightarrow> host_call list \<Rightarrow> bool" where
  "exchange_calls githubToken x \<longleftrightarrow> x = [] \<or> (\<exists>cfg. x = [CallDo (exchange_request cfg githubToken)])"

lemma copilotToken_calls:
  assumes "copilotToken E L cb authID storage m = (r, m')"
  shows "\<exists>x. exchange_calls (GitHubAccessToken storage) x \<and> calls m' = calls m @ x"
proof -
  define fp where "fp = tokenFingerprint L (GitHubAccessToken storage)"
  define key where "key = cache_key authID fp"
  obtain cfg m1 where 1: "ServiceConfig E m = (cfg, m1)" by fastforce
  obtain now m2 where 2: "clock E m1 = (now, m2)" by fastforce
  obtain entered m3 where 3: "locked E (token_enter key fp now (tokenExpiryBuffer cfg)) m2 = (entered, m3)" by fastforce
  have c: "calls m3 = calls m"
    using keep_calls(3) [OF 1] keep_calls(1) [OF 2] keep_calls(2) [OF 3] by simp
  note run = assms [unfolded copilotToken_def Let_def, folded fp_def, folded key_def]
  show ?thesis
  proof (cases entered)
    case (CacheHit e)
    with run 1 2 3 c show ?thesis by (simp add: step_def return_def exchange_calls_def)
  next
    case (JoinFlight f)
    with run 1 2 3 c show ?thesis
      by (auto simp: step_def await_flight_def exchange_calls_def split: prod.splits)
  next
    case (LeadFlight f)
    obtain q m4 where 4: "exchangeCopilotToken E L cb fp (GitHubAccessToken storage) m3 = (q, m4)" by fastforce
    with exchange_calls [of E L cb fp "GitHubAccessToken storage" m3]
    obtain cfg' where "calls m4 = calls m3 @ [CallDo (exchange_request cfg' (GitHubAccessToken storage))]" by auto
    moreover have "calls m' = calls m4"
      using run 1 2 3 4 LeadFlight by (auto simp: step_def dest: keep_calls)
    ultimately show ?thesis unfolding exchange_calls_def using c by auto
  qed
qed

lemma invalidateAuth_calls: "invalidateAuth E authID m = (u, m') \<Longrightarrow> calls m' = calls m"
  by (auto simp: invalidateAuth_def step_def Let_def dest!: keep_calls split: prod.splits)

text \<open>A sender makes one call; with a refresh there are at most two, the exchange between them.\<close>

definition sends :: "(copilotTokenEntry \<Rightarrow> 'w machine \<Rightarrow> 'r res \<times> 'w machine) \<Rightarrow> (copilotTokenEntry \<Rightarrow> host_call \<Rightarrow> bool) \<Rightarrow> bool" where
  "sends send Q \<longleftrightarrow> (\<forall>token m. \<exists>q. Q token q \<and> calls (snd (send token m)) = calls m @ [q])"

lemma sendsD: "sends send Q \<Longrightarrow> send token m = (r, m') \<Longrightarrow> \<exists>q. Q token q \<and> calls m' = calls m @ [q]"
  unfolding sends_def by (metis snd_conv)

lemma with_refresh_calls:
  assumes "with_refresh E L cb authID storage send status discard msg1 msg2 token m = (r, m')"
    and send: "sends send Q" and discard: "\<And>r m. \<exists>d. calls (discard r m) = calls m @ d \<and> length d \<le> n"
  shows "\<exists>q d x rest. calls m' = calls m @ q # d @ x @ rest \<and> Q token q \<and> length d \<le> n \<and>
      exchange_calls (GitHubAccessToken storage) x \<and> (rest = [] \<or> (\<exists>token' q'. rest = [q'] \<and> Q token' q')) \<and>
      (d @ x @ rest = [] \<or> (\<exists>refused m1. send token m = (Inr refused, m1) \<and> status refused = 401))"
proof -
  obtain f m1 where 1: "send token m = (f, m1)" by fastforce
  obtain q where q: "Q token q" "calls m1 = calls m @ [q]" using sendsD [OF send 1] by blast
  have none: ?thesis if "calls m' = calls m1"
    using that q by (intro exI [of _ q] exI [of _ "[]"]) (simp add: exchange_calls_def)
  show ?thesis
  proof (cases "\<exists>r0. f = Inr r0 \<and> status r0 = 401")
    case False
    with assms(1) 1 show ?thesis by (intro none) (auto simp: with_refresh_def step_def split: sum.splits if_splits)
  next
    case True
    then obtain r0 where r0: "f = Inr r0" "status r0 = 401" by blast
    obtain d where d: "calls (discard r0 m1) = calls m1 @ d" "length d \<le> n" using discard by blast
    define m2 where "m2 = snd (invalidateAuth E authID (discard r0 m1))"
    then have 2: "invalidateAuth E authID (discard r0 m1) = ((), m2)" by (simp add: prod_eq_iff)
    obtain t m3 where 3: "copilotToken E L cb authID storage m2 = (t, m3)" by fastforce
    obtain x where x: "exchange_calls (GitHubAccessToken storage) x" "calls m3 = calls m2 @ x"
      using copilotToken_calls [OF 3] by blast
    have c: "calls m3 = calls m @ q # d @ x"
      using x invalidateAuth_calls [OF 2] d q by simp
    have refused: "\<exists>refused m1. send token m = (Inr refused, m1) \<and> status refused = 401"
      using 1 r0 by blast
    have run: "(case t of Inl e \<Rightarrow> (Inl e, m3)
        | Inr token' \<Rightarrow> (case send token' m3 of (Inl e, m) \<Rightarrow> (Inl (Wrap msg2 e), m) | (Inr r', m) \<Rightarrow> (Inr (r', token'), m)))
        = (r, m')"
      using assms(1) r0 by (auto simp: with_refresh_def step_def and_then_def 1 2 3 split: sum.splits prod.splits)
    show ?thesis
    proof (cases t)
      case (Inl e)
      with run have "calls m' = calls m @ q # d @ x @ []" using c by simp
      with q(1) d(2) x(1) refused show ?thesis by blast
    next
      case (Inr token')
      obtain g m4 where 4: "send token' m3 = (g, m4)" by fastforce
      obtain q' where q': "Q token' q'" "calls m4 = calls m3 @ [q']" using sendsD [OF send 4] by blast
      have "m' = m4" using run Inr 4 by (cases g) auto
      with c q' have "calls m' = calls m @ q # d @ x @ [q']" by simp
      with q(1) q'(1) d(2) x(1) refused show ?thesis by blast
    qed
  qed
qed

lemma copilotHeaders_calls: "calls (snd (copilotHeaders E token streamed m)) = calls m"
  by (auto simp: copilotHeaders_def step_def randomIdentifier_def return_def dest: keep_calls(4) split: prod.split)

lemma send_model_sends:
  "sends (send_model E cb endpoint body streamed) (\<lambda>token q. \<exists>h. q = CallDo (model_request endpoint body token h))"
  unfolding sends_def
proof (intro allI)
  fix token :: copilotTokenEntry and m :: "'a machine"
  obtain h m1 where h: "copilotHeaders E (Token token) streamed m = (h, m1)" by fastforce
  with copilotHeaders_calls [of E "Token token" streamed m] have "calls m1 = calls m" by simp
  then show "\<exists>q. (\<exists>h. q = CallDo (model_request endpoint body token h)) \<and>
      calls (snd (send_model E cb endpoint body streamed token m)) = calls m @ [q]"
    by (auto simp: send_model_def step_def h)
qed

lemma model_request_calls:
  assumes "doModelRequest E L cb authID storage token endpoint body streamed m = (r, m')"
  shows "\<exists>h x rest. calls m' = calls m @ CallDo (model_request endpoint body token h) # x @ rest \<and>
      exchange_calls (GitHubAccessToken storage) x \<and>
      (rest = [] \<or> (\<exists>token' h'. rest = [CallDo (model_request endpoint body token' h')])) \<and>
      (x @ rest = [] \<or> (\<exists>refused m1. send_model E cb endpoint body streamed token m = (Inr refused, m1) \<and>
         StatusCode refused = 401)) \<and>
      (case r of Inl e \<Rightarrow> True | Inr (resp, token') \<Rightarrow> ok_status (StatusCode resp))"
proof -
  obtain a m1 where a: "with_refresh E L cb authID storage (send_model E cb endpoint body streamed) StatusCode
      (\<lambda>_ m. m) ''call Copilot model endpoint: '' ''call Copilot model endpoint after token refresh: '' token m = (a, m1)"
    by fastforce
  have "calls m' = calls m1" "case r of Inl e \<Rightarrow> True | Inr (resp, token') \<Rightarrow> ok_status (StatusCode resp)"
    using assms a by (auto simp: doModelRequest_def and_then_def return_def split: sum.splits prod.splits if_splits)
  moreover have "\<exists>d. calls m'' = calls m'' @ d \<and> length d \<le> 0" for m'' :: "'a machine" by simp
  from with_refresh_calls [OF a send_model_sends this]
  have "\<exists>h x rest. calls m1 = calls m @ CallDo (model_request endpoint body token h) # x @ rest \<and>
      exchange_calls (GitHubAccessToken storage) x \<and>
      (rest = [] \<or> (\<exists>token' h'. rest = [CallDo (model_request endpoint body token' h')])) \<and>
      (x @ rest = [] \<or> (\<exists>refused m1. send_model E cb endpoint body streamed token m = (Inr refused, m1) \<and>
         StatusCode refused = 401))"
    by (elim exE conjE) (simp, metis)
  ultimately show ?thesis by metis
qed

text \<open>C29: a model request is sent at most twice: the second time only after a refused first one, with
  nothing but at most one token exchange between them; and a response that is returned has a 2xx
  status.\<close>

theorem model_request_retried_once:
  "case doModelRequest E L cb authID storage token endpoint body streamed m of (r, m') \<Rightarrow>
     \<exists>h x rest. calls m' = calls m @ CallDo (model_request endpoint body token h) # x @ rest \<and>
       exchange_calls (GitHubAccessToken storage) x \<and>
       (rest = [] \<or> (\<exists>token' h'. rest = [CallDo (model_request endpoint body token' h')])) \<and>
      (x @ rest = [] \<or> (\<exists>refused m1. send_model E cb endpoint body streamed token m = (Inr refused, m1) \<and>
         StatusCode refused = 401)) \<and>
       (case r of Inl e \<Rightarrow> True | Inr (resp, token') \<Rightarrow> ok_status (StatusCode resp))"
  by (rule prod.case_eq_if [THEN iffD2]) (rule model_request_calls, simp)

text \<open>A request that succeeds: its result is the answer to its last call.\<close>

lemma with_refresh_ok:
  assumes "with_refresh E L cb authID storage send status discard msg1 msg2 token m = (Inr (r, token'), m')"
  shows "\<exists>m1. send token' m1 = (Inr r, m')"
  using assms
  by (auto simp: with_refresh_def step_def and_then_def split: sum.splits prod.splits if_splits)

lemma model_request_ok:
  assumes "doModelRequest E L cb authID storage token endpoint body streamed m = (Inr (resp, token'), m')"
  shows "ok_status (StatusCode resp) \<and>
    (\<exists>h m1. host_do E cb (model_request endpoint body token' h) m1 = (Inr resp, m'))"
proof -
  have ok: "ok_status (StatusCode resp)" and
    "with_refresh E L cb authID storage (send_model E cb endpoint body streamed) StatusCode
      (\<lambda>_ m. m) ''call Copilot model endpoint: '' ''call Copilot model endpoint after token refresh: '' token m
     = (Inr (resp, token'), m')"
    using assms by (auto simp: doModelRequest_def and_then_def return_def split: sum.splits prod.splits if_splits)
  from with_refresh_ok [OF this(2)]
  obtain m1 where "send_model E cb endpoint body streamed token' m1 = (Inr resp, m')" ..
  with ok show ?thesis by (auto simp: send_model_def step_def split: prod.splits)
qed

lemma prepare_ok:
  assumes "prepare E L sdk streamed req m = (Inr (storage, endpoint, token, body), m')"
  shows "source_format req \<noteq> [] \<and> parseStorage (ReqStorageJSON req) = Inr storage \<and>
    RequestForEndpointFrom sdk (source_format req) (ReqModel req) (ReqPayload req) streamed endpoint = Inr body"
  using assms by (auto simp: prepare_def and_then_def return_def split: sum.splits prod.splits if_splits)

text \<open>C38: a request that succeeds was relayed both ways. The upstream got the translation of the client's
  body, with the model and without streaming, at one of the three endpoints; it answered the last
  call with a 2xx status; and the client gets the translation of that answer and its safe headers.\<close>

theorem execute_relays:
  "case Execute E L sdk req m of (r, m') \<Rightarrow>
     (case r of
        Inl e \<Rightarrow> True
      | Inr resp \<Rightarrow>
          \<exists>endpoint token body h m1 answer.
            source_format req \<noteq> [] \<and>
            endpoint \<in> {EndpointResponses, EndpointChatCompletions, EndpointMessages} \<and>
            RequestForEndpointFrom sdk (source_format req) (ReqModel req) (ReqPayload req) False endpoint = Inr body \<and>
            (\<exists>obj. body = encode (JObj obj) \<and> fld obj ''model'' = JStr (ReqModel req) \<and> fld obj ''stream'' = JBool False) \<and>
            host_do E (ReqHostCallbackID req) (model_request endpoint body token h) m1 = (Inr answer, m') \<and>
            ok_status (StatusCode answer) \<and>
            ResponseFromEndpoint sdk endpoint (source_format req) (ReqModel req) (ReqOriginalRequest req) body (RespBody answer)
              = Inr (ExecPayload resp) \<and>
            ExecHeaders resp = filterResponseHeaders (RespHeaders answer))"
proof -
  obtain r m' where exec: "Execute E L sdk req m = (r, m')" by fastforce
  show ?thesis
  proof (cases r)
    case (Inr resp)
    then obtain storage endpoint token body m1 answer token' where
      prep: "prepare E L sdk False req m = (Inr (storage, endpoint, token, body), m1)" and
      sent: "doModelRequest E L (ReqHostCallbackID req) (ReqAuthID req) storage token endpoint body False m1
        = (Inr (answer, token'), m')" and
      answered: "ResponseFromEndpoint sdk endpoint (source_format req) (ReqModel req) (ReqOriginalRequest req) body (RespBody answer)
        = Inr (ExecPayload resp)" "ExecHeaders resp = filterResponseHeaders (RespHeaders answer)"
      using exec by (auto simp: Execute_def and_then_def return_def split: sum.splits prod.splits)
    note routed = prepare_ok [OF prep]
    then have "endpoint \<in> {EndpointResponses, EndpointChatCompletions, EndpointMessages}"
      by (auto simp: RequestForEndpointFrom_def endpointFormat_def split: sum.splits if_splits)
    moreover have "\<exists>obj. body = encode (JObj obj) \<and> fld obj ''model'' = JStr (ReqModel req) \<and> fld obj ''stream'' = JBool False"
      using routed_request_model [where sdk = sdk and source = "source_format req" and model = "ReqModel req"
          and body = "ReqPayload req" and stream_flag = False and endpoint = endpoint] routed
      by (simp del: encode.simps)
    ultimately show ?thesis
      unfolding exec Inr prod.case sum.case using routed model_request_ok [OF sent] answered by blast
  qed (simp add: exec)
qed

text \<open>What a raw call sends once it has a token.\<close>

lemma map_of_SetHeader: "map_of (SetHeader k v h) = (map_of h)(CanonicalHeaderKey k \<mapsto> [v])"
  by (rule ext) (simp add: SetHeader_def map_of_obj_put)

lemma canonical_names:
  "CanonicalHeaderKey ''Authorization'' = ''Authorization''" "CanonicalHeaderKey ''User-Agent'' = ''User-Agent''"
  "CanonicalHeaderKey ''X-GitHub-Api-Version'' = ''X-Github-Api-Version''"
  by code_simp+

lemma map_of_cloneHeader: "map_of (cloneHeader h) = map_of h"
  by (simp add: cloneHeader_def)

lemma api_request_sel:
  "Method (api_request req token target) = HTTPMethod req" "URL (api_request req token target) = UrlString target"
  "Body (api_request req token target) = HTTPBody req"
  "map_of (Headers (api_request req token target)) =
     (map_of (HTTPHeaders req))(''Authorization'' \<mapsto> [''Bearer '' @ Token token],
       ''User-Agent'' \<mapsto> [copilotUserAgent], ''X-Github-Api-Version'' \<mapsto> [copilotAPIVersion])"
  by (simp_all add: api_request_def map_of_SetHeader map_of_cloneHeader canonical_names)

lemma forward_http_calls:
  assumes "forward_http E L req token m = (r, m')"
  shows "case UrlParse L (TrimSpace (HTTPURL req)) of
      None \<Rightarrow> calls m' = calls m \<and> is_ok r = False
    | Some target \<Rightarrow>
        (case UrlParse L (APIBaseURL token) of
           None \<Rightarrow> calls m' = calls m \<and> is_ok r = False
         | Some base \<Rightarrow>
             if Hostname target \<noteq> [] \<and> same_origin target base
             then calls m' = calls m @ [CallDo (api_request req token target)]
             else calls m' = calls m \<and> is_ok r = False)"
  using assms
  by (auto simp: forward_http_def and_then_def return_def dest: add_calls split: option.splits if_splits prod.splits sum.splits)

text \<open>C6: the provider's raw HTTP call never leaves the origin of the API. With a credential that can
  be read it obtains a token, with at most one exchange. Then, when the client's URL can be parsed, has
  a host name, and agrees with the API base of that token in scheme and host (case does not matter),
  exactly one request is made: to that URL, with the client's method, body and headers, the token as its
  \<open>Authorization\<close> and the provider's user agent and API version. Otherwise the call fails and nothing is sent.\<close>

theorem http_stays_on_origin:
  "case HTTP E L req m of (r, m') \<Rightarrow>
     (case parseStorage (HTTPStorageJSON req) of
        Inl e \<Rightarrow> r = Inl e \<and> m' = m
      | Inr storage \<Rightarrow>
          (case copilotToken E L (HTTPHostCallbackID req) (HTTPAuthID req) storage m of (t, m1) \<Rightarrow>
             (\<exists>x. exchange_calls (GitHubAccessToken storage) x \<and> calls m1 = calls m @ x) \<and>
             (case t of
                Inl e \<Rightarrow> r = Inl e \<and> m' = m1
              | Inr token \<Rightarrow>
                  (case UrlParse L (TrimSpace (HTTPURL req)) of
                     None \<Rightarrow> calls m' = calls m1 \<and> is_ok r = False
                   | Some target \<Rightarrow>
                       (case UrlParse L (APIBaseURL token) of
                          None \<Rightarrow> calls m' = calls m1 \<and> is_ok r = False
                        | Some base \<Rightarrow>
                            if Hostname target \<noteq> [] \<and> EqualFold (Scheme target) (Scheme base) \<and>
                               EqualFold (Host target) (Host base)
                            then \<exists>q. calls m' = calls m1 @ [CallDo q] \<and> URL q = UrlString target \<and>
                              Method q = HTTPMethod req \<and> Body q = HTTPBody req \<and>
                              map_of (Headers q) = (map_of (HTTPHeaders req))
                                (''Authorization'' \<mapsto> [''Bearer '' @ Token token],
                                 ''User-Agent'' \<mapsto> [''GitHubCopilotChat/0.35.0''],
                                 ''X-Github-Api-Version'' \<mapsto> [''2025-04-01''])
                            else calls m' = calls m1 \<and> is_ok r = False)))))"
proof -
  obtain r m' where http: "HTTP E L req m = (r, m')" by fastforce
  show ?thesis
  proof (cases "parseStorage (HTTPStorageJSON req)")
    case (Inl e)
    with http show ?thesis by (simp add: HTTP_def)
  next
    case (Inr storage)
    obtain t m1 where t: "copilotToken E L (HTTPHostCallbackID req) (HTTPAuthID req) storage m = (t, m1)" by fastforce
    note spent = copilotToken_calls [OF t]
    show ?thesis
    proof (cases t)
      case (Inl e)
      with spent t \<open>parseStorage _ = _\<close> http show ?thesis by (simp add: HTTP_def and_then_def)
    next
      case (Inr token)
      with t \<open>parseStorage _ = _\<close> http have "forward_http E L req token m1 = (r, m')" by (simp add: HTTP_def and_then_def)
      from forward_http_calls [OF this] show ?thesis
        using http t Inr \<open>parseStorage _ = _\<close> spent
        by (auto simp: same_origin_def api_request_sel copilotUserAgent_def copilotAPIVersion_def split: option.splits if_splits)
    qed
  qed
qed

end
