(* ===== verification/Stream_Pump.thy ===== *)
theory Stream_Pump
  imports Executor
begin

text \<open>
  What the goroutine \<open>pumpStream\<close> of \<open>internal/provider/executor.go\<close> does as a whole: it reads the
  upstream stream to its end, cuts it into frames, translates them and emits the result; and it
  closes both streams exactly once, whatever happens.
\<close>

subsection \<open>Closing\<close>

definition pumping :: "string \<Rightarrow> string \<Rightarrow> host_call \<Rightarrow> bool" where
  "pumping sid outputID c \<longleftrightarrow> c = CallRead sid \<or> (\<exists>p. c = CallEmit outputID p)"

definition adds :: "(host_call \<Rightarrow> bool) \<Rightarrow> 'w machine \<Rightarrow> 'w machine \<Rightarrow> bool" where
  "adds P m m' \<longleftrightarrow> svc m' = svc m \<and> (\<exists>x. calls m' = calls m @ x \<and> list_all P x)"

lemma adds_refl [simp]: "adds P m m"
  by (simp add: adds_def)

lemma adds_trans: "adds P m m1 \<Longrightarrow> adds P m1 m2 \<Longrightarrow> adds P m m2"
  by (auto simp: adds_def)

lemma adds_read: "host_read E sid m = (r, m1) \<Longrightarrow> adds (pumping sid out) m m1"
  by (auto simp: adds_def pumping_def dest: add_calls keep_svc)

lemma adds_emit_outputs: "emit_outputs E out ps m = (r, m') \<Longrightarrow> adds (pumping sid out) m m'"
proof (induction E out ps m rule: emit_outputs.induct)
  case (2 E out p ps m)
  obtain e m1 where 1: "host_emit E out p m = (e, m1)" by fastforce
  then have "adds (pumping sid out) m m1" by (auto simp: adds_def pumping_def dest: add_calls keep_svc)
  with 2 1 show ?case by (auto split: if_splits option.splits intro: adds_trans)
qed simp

lemma adds_emit_frame: "emit_frame E T out f cell m = (r, c, m') \<Longrightarrow> adds (pumping sid out) m m'"
  by (auto simp: emit_frame_def Let_def split: prod.splits sum.splits dest: adds_emit_outputs)

lemma adds_emit_frames: "emit_frames E T out fs cell m = (r, c, m') \<Longrightarrow> adds (pumping sid out) m m'"
proof (induction E T out fs cell m rule: emit_frames.induct)
  case (2 E T out f fs cell m)
  obtain e c1 m1 where 1: "emit_frame E T out f cell m = (e, c1, m1)" by (metis prod_cases3)
  with 2 show ?case
    using adds_emit_frame [OF 1, of sid] by (auto split: option.splits intro: adds_trans)
qed simp

lemma adds_pump_end: "pump_end E T out d cell m = (r, m') \<Longrightarrow> adds (pumping sid out) m m'"
  by (auto simp: pump_end_def Let_def split: if_splits prod.splits option.splits dest: adds_emit_frame)

lemma adds_pump_loop:
  assumes "pump_loop E T sid out d cell m = Some y"
  shows "adds (pumping sid out) m (snd y)"
proof (rule pump_loop.raw_induct [where P = "\<lambda>E T sid out d cell m y. adds (pumping sid out) m (snd y)", OF _ assms],
    goal_cases step)
  case (step rec E T sid out d cell m y)
  obtain q m1 where read: "host_read E sid m = (q, m1)" by fastforce
  note head = adds_read [OF read, of out]
  show ?case
  proof (cases "\<exists>chunk. q = Inr chunk \<and> ChunkError chunk = []")
    case False
    with step(2) read head show ?thesis by (auto split: sum.splits if_splits)
  next
    case True
    then obtain chunk where chunk: "q = Inr chunk" "ChunkError chunk = []" by blast
    obtain frames d1 where feed: "Feed d (Payload chunk) = (frames, d1)" by fastforce
    obtain err c1 m2 where emit: "emit_frames E T out frames cell m1 = (err, c1, m2)" by (metis prod_cases3)
    from head adds_emit_frames [OF emit, of sid] have pre: "adds (pumping sid out) m m2" by (rule adds_trans)
    consider "snd y = m2" | "pump_end E T out d1 c1 m2 = y" | "rec E T sid out d1 c1 m2 = Some y"
      using step(2) read chunk feed emit by (auto split: option.splits if_splits)
    then have "adds (pumping sid out) m2 (snd y)"
      using step(1) by cases (auto intro: adds_pump_end prod.collapse [symmetric])
    with pre show ?thesis by (rule adds_trans)
  qed
qed

text \<open>C30: when the pump ends, it has only read and emitted, and then closed the upstream stream and the
  output, each exactly once and in this order.\<close>

theorem pump_closes_once:
  "case pumpStream E L T out up m of
     None \<Rightarrow> True
   | Some m' \<Rightarrow> \<exists>x msg. calls m' = calls m @ x @ [CallClose (StreamID up), CallCloseOutput out msg] \<and>
       list_all (pumping (StreamID up) out) x"
proof (cases "pump_loop E T (StreamID up) out new_decoder NilAny m")
  case (Some p)
  obtain r m1 where p: "p = (r, m1)" by fastforce
  obtain x where "calls m1 = calls m @ x" "list_all (pumping (StreamID up) out) x"
    using adds_pump_loop [OF Some] p by (auto simp: adds_def)
  then show ?thesis by (simp add: pumpStream_def Some p)
qed (simp add: pumpStream_def)

subsection \<open>What is emitted\<close>

text \<open>The specification: the frames are translated one after the other, empty results are dropped, the
  first error ends the translation.\<close>

fun translate_run :: "'x translator \<Rightarrow> string list \<Rightarrow> 'x any_state \<Rightarrow> string list \<times> go_error option \<times> 'x any_state" where
  "translate_run T [] cell = ([], None, cell)"
| "translate_run T (f # fs) cell =
     (case T f (Some cell) of
        (r, st) \<Rightarrow>
          (let cell' = (case st of Some c \<Rightarrow> c | None \<Rightarrow> cell) in
           case r of
             Inl e \<Rightarrow> ([], Some e, cell')
           | Inr out \<Rightarrow> (case translate_run T fs cell' of
               (outs, err, c) \<Rightarrow> (filter (\<lambda>p. p \<noteq> []) out @ outs, err, c))))"

lemma translate_run_append:
  "translate_run T (fs @ gs) cell =
     (case translate_run T fs cell of
        (outs, Some e, c) \<Rightarrow> (outs, Some e, c)
      | (outs, None, c) \<Rightarrow> (case translate_run T gs c of (outs', err, c') \<Rightarrow> (outs @ outs', err, c')))"
  by (induction fs arbitrary: cell) (auto simp: Let_def split: prod.split sum.split option.split)

text \<open>A host that takes what is emitted, and delivers the payloads chunk by chunk whatever is emitted
  in between; the last one ends the stream.\<close>

definition accepting :: "'w outside \<Rightarrow> string \<Rightarrow> bool" where
  "accepting E out \<longleftrightarrow> (\<forall>p w. fst (Emit E out p w) = None)"

definition emit_world :: "'w outside \<Rightarrow> string \<Rightarrow> string list \<Rightarrow> 'w \<Rightarrow> 'w" where
  "emit_world E out ps w = fold (\<lambda>p w. snd (Emit E out p w)) ps w"

fun delivers :: "'w outside \<Rightarrow> string \<Rightarrow> string \<Rightarrow> string list \<Rightarrow> 'w \<Rightarrow> bool" where
  "delivers E sid out [] w = True"
| "delivers E sid out (p # ps) w =
     (\<exists>w'. ReadStream E sid w = (Inr \<lparr> Payload = p, ChunkError = [], Done = (ps = []) \<rparr>, w') \<and>
           (\<forall>os. delivers E sid out ps (emit_world E out os w')))"

definition emitted :: "'w outside \<Rightarrow> string \<Rightarrow> string list \<Rightarrow> 'w machine \<Rightarrow> 'w machine" where
  "emitted E out ps m = m\<lparr>world := emit_world E out ps (world m), calls := calls m @ map (CallEmit out) ps\<rparr>"

lemma emitted_simps [simp]:
  "emitted E out [] m = m" "emitted E out qs (emitted E out ps m) = emitted E out (ps @ qs) m"
  by (simp_all add: emitted_def emit_world_def)

lemma host_emit_accepting:
  "accepting E out \<Longrightarrow> host_emit E out p m = (None, emitted E out [p] m)"
proof -
  assume "accepting E out"
  then have "Emit E out p (world m) = (None, snd (Emit E out p (world m)))"
    by (simp add: accepting_def prod_eq_iff)
  then show ?thesis
    by (cases "Emit E out p (world m)") (simp add: host_emit_def emitted_def emit_world_def)
qed

lemma emit_outputs_accepting:
  "accepting E out \<Longrightarrow> emit_outputs E out ps m = (None, emitted E out (filter (\<lambda>p. p \<noteq> []) ps) m)"
  by (induction ps arbitrary: m) (simp_all add: host_emit_accepting)

lemma emit_frame_accepting:
  assumes "accepting E out"
  shows "emit_frame E T out f cell m =
    (case translate_run T [f] cell of (outs, err, c) \<Rightarrow> (err, c, emitted E out outs m))"
  by (simp add: emit_frame_def emit_outputs_accepting [OF assms] Let_def split: prod.split sum.split)

lemma emit_frames_accepting:
  assumes "accepting E out"
  shows "emit_frames E T out fs cell m =
    (case translate_run T fs cell of (outs, err, c) \<Rightarrow> (err, c, emitted E out outs m))"
proof (induction fs arbitrary: cell m)
  case (Cons f fs)
  obtain o1 e1 c1 where 1: "translate_run T [f] cell = (o1, e1, c1)" by (metis prod_cases3)
  have "translate_run T (f # fs) cell = translate_run T ([f] @ fs) cell" by simp
  also have "\<dots> = (case e1 of Some e \<Rightarrow> (o1, e1, c1)
      | None \<Rightarrow> (case translate_run T fs c1 of (o2, e2, c2) \<Rightarrow> (o1 @ o2, e2, c2)))"
    unfolding translate_run_append 1 by (simp split: option.split)
  finally show ?case
    by (simp add: emit_frame_accepting [OF assms] 1 Cons.IH del: translate_run.simps(2)
        split: option.split prod.split)
qed simp

definition written :: "host_call list \<Rightarrow> host_call list" where
  "written cs = filter (\<lambda>c. \<forall>sid. c \<noteq> CallRead sid) cs"

lemma written_simps [simp]:
  "written (xs @ ys) = written xs @ written ys" "written (CallRead sid # xs) = written xs"
  "written (map (CallEmit out) ps) = map (CallEmit out) ps"
  "written [CallClose sid, CallCloseOutput out msg] = [CallClose sid, CallCloseOutput out msg]"
  by (simp_all add: written_def filter_id_conv)

lemma pump_loop_delivered:
  assumes "accepting E out" "payloads \<noteq> []" "delivers E sid out payloads (world m)"
  shows "\<exists>err m'. pump_loop E T sid out d cell m = Some (err, m') \<and>
    (case translate_run T (read_frames d payloads) cell of
       (outs, e, _) \<Rightarrow> (err = None) = (e = None) \<and> written (calls m') = written (calls m) @ map (CallEmit out) outs)"
  using assms(2,3)
proof (induction payloads arbitrary: d cell m)
  case (Cons p ps)
  obtain w' where w': "ReadStream E sid (world m) = (Inr \<lparr> Payload = p, ChunkError = [], Done = (ps = []) \<rparr>, w')"
    "\<And>os. delivers E sid out ps (emit_world E out os w')"
    using Cons.prems(2) by auto
  define m1 where "m1 = m\<lparr>world := w', calls := calls m @ [CallRead sid]\<rparr>"
  have read: "host_read E sid m = (Inr \<lparr> Payload = p, ChunkError = [], Done = (ps = []) \<rparr>, m1)"
    by (simp add: host_read_def w' m1_def)
  obtain frames d1 where feed: "Feed d p = (frames, d1)" by fastforce
  obtain outs err c1 where run: "translate_run T frames cell = (outs, err, c1)" by (metis prod_cases3)
  define m2 where "m2 = emitted E out outs m1"
  have emit: "emit_frames E T out frames cell m1 = (err, c1, m2)"
    by (simp add: emit_frames_accepting [OF assms(1)] run m2_def)
  have calls: "written (calls m2) = written (calls m) @ map (CallEmit out) outs"
    by (simp add: m2_def m1_def emitted_def)
  note loop = pump_loop.simps [of E T sid out d cell m]
  have frames: "read_frames d (p # ps) = frames @ read_frames d1 ps" by (simp add: feed)
  show ?case
  proof (cases err)
    case (Some e)
    then show ?thesis
      by (simp add: loop read feed emit calls frames translate_run_append run del: read_frames.simps)
  next
    case None
    show ?thesis
    proof (cases "ps = []")
      case True
      obtain t where t: "fst (Flush d1) = t" by blast
      obtain outs' err' c' where run': "translate_run T (if t = [] then [] else [t]) c1 = (outs', err', c')"
        by (metis prod_cases3)
      have "pump_end E T out d1 c1 m2 =
          (case err' of Some e \<Rightarrow> Some (Wrap ''translate final Copilot stream frame: '' e) | None \<Rightarrow> None,
           emitted E out outs' m2)"
        using run' by (cases "t = []")
          (auto simp: pump_end_def t emit_frame_accepting [OF assms(1)] simp del: translate_run.simps(2) split: option.split)
      moreover have "read_frames d1 ps = (if t = [] then [] else [t])"
        using True t by (simp add: Let_def split_beta)
      then have "translate_run T (read_frames d (p # ps)) cell = (outs @ outs', err', c')"
        unfolding frames translate_run_append run by (simp add: None run')
      moreover have "written (calls (emitted E out outs' m2)) = written (calls m) @ map (CallEmit out) (outs @ outs')"
        using calls by (simp add: emitted_def)
      ultimately show ?thesis
        using None True
        by (simp add: loop read feed emit del: read_frames.simps split: option.split)
    next
      case False
      have "delivers E sid out ps (world m2)"
        using w'(2) [of outs] by (simp add: m2_def m1_def emitted_def)
      from Cons.IH [OF False this, of d1 c1] obtain err' m' where
        rec: "pump_loop E T sid out d1 c1 m2 = Some (err', m')"
        and rest: "case translate_run T (read_frames d1 ps) c1 of (outs, e, _) \<Rightarrow>
          (err' = None) = (e = None) \<and> written (calls m') = written (calls m2) @ map (CallEmit out) outs"
        by (elim exE conjE) (rule that)
      then show ?thesis
        using None False calls
        by (auto simp: loop read feed emit frames translate_run_append run simp del: read_frames.simps
            split: prod.splits)
    qed
  qed
qed simp

text \<open>An error that ends the pump has a text, so the output is closed with a message.\<close>

definition told :: "lib \<Rightarrow> go_error option \<Rightarrow> bool" where
  "told L r \<longleftrightarrow> (case r of None \<Rightarrow> True | Some e \<Rightarrow> ErrorString L e \<noteq> [])"

lemma told_simps [simp]:
  "told L None" "c # s = u \<Longrightarrow> told L (Some (ErrorText u))" "told L (Some (Wrap (c # s) e))"
  by (auto simp: told_def)

lemma pump_end_told: "told L (fst (pump_end E T out d cell m))"
  by (auto simp: pump_end_def Let_def split: prod.split option.split)

lemma pump_loop_told:
  assumes "pump_loop E T sid out d cell m = Some y"
  shows "told L (fst y)"
proof (rule pump_loop.raw_induct [where P = "\<lambda>E T sid out d cell m y. told L (fst y)", OF _ assms], goal_cases step)
  case (step rec E T sid out d cell m y)
  show ?case
    using step(2) by (auto intro: step(1) pump_end_told split: prod.splits sum.splits if_splits option.splits)
qed

text \<open>The translator of a job, and what its goroutine does on such a host.\<close>

definition job_translator :: "(string list \<Rightarrow> string list) \<Rightarrow> 'x sdk \<Rightarrow> pump_job \<Rightarrow> 'x translator" where
  "job_translator order sdk job =
     StreamFromEndpoint order sdk (JobEndpoint job) (JobDestination job) (JobModel job) (JobOriginal job) (JobTranslated job)"

lemma run_job_delivered:
  assumes "accepting E (JobStreamID job)" "payloads \<noteq> []"
    and "delivers E (StreamID (JobUpstream job)) (JobStreamID job) payloads (world m)"
    and "translate_run (job_translator order sdk job) (read_frames new_decoder [concat payloads]) NilAny = (outs, e, c)"
  shows "\<exists>m' msg. run_job E L order sdk job m = Some m' \<and>
    written (calls m') = written (calls m) @ map (CallEmit (JobStreamID job)) outs @
      [CallClose (StreamID (JobUpstream job)), CallCloseOutput (JobStreamID job) msg] \<and>
    (msg = []) = (e = None)"
proof -
  let ?T = "job_translator order sdk job" and ?up = "StreamID (JobUpstream job)" and ?out = "JobStreamID job"
  have "read_frames new_decoder payloads = read_frames new_decoder [concat payloads]"
    by (rule read_frames_rechunk) simp
  then obtain err m1 where loop: "pump_loop E ?T ?up ?out new_decoder NilAny m = Some (err, m1)"
    and m1: "(err = None) = (e = None)" "written (calls m1) = written (calls m) @ map (CallEmit ?out) outs"
    using pump_loop_delivered [OF assms(1-3), of ?T new_decoder NilAny] assms(4) by auto
  have "(case err of None \<Rightarrow> [] | Some x \<Rightarrow> Text (ErrorString L x) []) = [] \<longleftrightarrow> e = None"
    using pump_loop_told [OF loop, of L] m1(1) by (auto simp: told_def Text_not_Nil split: option.splits)
  then show ?thesis
    using loop m1(2) by (simp add: run_job_def pumpStream_def job_translator_def)
qed

text \<open>C7: for a host that delivers a stream in any chunks and takes what is emitted, the goroutine ends,
  and what it writes depends on the bytes of the stream only: it emits the translation of the
  frames of the whole input, frame by frame up to the first error, then closes the upstream and
  the output; the output is closed with an empty message exactly when there was no error.\<close>

theorem pump_stream_output:
  assumes "accepting E (JobStreamID job)" "payloads \<noteq> []"
    and "delivers E (StreamID (JobUpstream job)) (JobStreamID job) payloads (world m)"
  shows "\<exists>m' msg. run_job E L order sdk job m = Some m' \<and>
    (case translate_run (job_translator order sdk job) (read_frames new_decoder [concat payloads]) NilAny of
       (outs, err, _) \<Rightarrow>
         written (calls m') = written (calls m) @ map (CallEmit (JobStreamID job)) outs @
           [CallClose (StreamID (JobUpstream job)), CallCloseOutput (JobStreamID job) msg] \<and>
         (msg = []) = (err = None))"
proof -
  obtain outs e c where "translate_run (job_translator order sdk job) (read_frames new_decoder [concat payloads]) NilAny = (outs, e, c)"
    by (metis prod_cases3)
  with run_job_delivered [OF assms this] show ?thesis by simp
qed

text \<open>A host whose world is the list of payloads still to come.\<close>

definition list_host :: "string list outside" where
  "list_host =
     \<lparr> DoHTTP = (\<lambda>cb req w. (Inl (ErrorText ''offline''), w)),
       OpenStream = (\<lambda>cb req w. (Inl (ErrorText ''offline''), w)),
       ReadStream = (\<lambda>sid w. case w of [] \<Rightarrow> (Inl (ErrorText ''closed''), [])
         | p # ps \<Rightarrow> (Inr \<lparr> Payload = p, ChunkError = [], Done = (ps = []) \<rparr>, ps)),
       CloseStream = (\<lambda>sid w. w), Emit = (\<lambda>sid p w. (None, w)), CloseOutput = (\<lambda>sid msg w. w),
       Now = (\<lambda>w. (0, w)), RandomHex = (\<lambda>n w. (Inr ''00'', w)),
       Others = (\<lambda>w s. (s, w)), AwaitFlight = (\<lambda>f w. (Inl (ErrorText ''cancelled''), w)) \<rparr>"

lemma list_host_delivers: "delivers list_host sid out ps ps"
proof (induction ps)
  case (Cons p ps)
  have "emit_world list_host out os w = w" for os w
    by (induction os) (simp_all add: emit_world_def list_host_def)
  with Cons show ?case by (simp add: list_host_def)
qed simp

definition sample_job :: pump_job where
  "sample_job = \<lparr> JobStreamID = ''out'', JobEndpoint = EndpointResponses, JobDestination = ''openai-response'',
     JobModel = ''m'', JobOriginal = ''{}'', JobTranslated = ''{}'',
     JobUpstream = \<lparr> StreamStatus = 200, StreamHeaders = [], StreamID = ''up'' \<rparr> \<rparr>"

theorem pump_stream_output_witness:
  "run_job list_host sample_lib rev empty_sdk sample_job \<lparr> svc = New, world = [''data: a'', ''b''], calls = [] \<rparr> \<noteq> None"
proof -
  have "accepting list_host (JobStreamID sample_job)"
    by (simp add: accepting_def list_host_def)
  moreover have "delivers list_host (StreamID (JobUpstream sample_job)) (JobStreamID sample_job) [''data: a'', ''b'']
      (world \<lparr> svc = New, world = [''data: a'', ''b''], calls = [] \<rparr>)"
    by (simp only: machine.simps list_host_delivers)
  ultimately obtain m' msg where
    "run_job list_host sample_lib rev empty_sdk sample_job \<lparr> svc = New, world = [''data: a'', ''b''], calls = [] \<rparr> = Some m'"
    using pump_stream_output [of list_host sample_job "[''data: a'', ''b'']"
        "\<lparr> svc = New, world = [''data: a'', ''b''], calls = [] \<rparr>" sample_lib rev empty_sdk]
    by (metis list.distinct(1))
  then show ?thesis by simp
qed

end
