(* ===== verification/OAuth.thy ===== *)
theory OAuth
  imports Models
begin

text \<open>
  The GitHub device login and the refresh of a credential: \<open>internal/provider/oauth.go\<close>. The parts
  of \<open>PollLogin\<close> under the mutex are \<open>poll_enter\<close> and \<open>poll_finish\<close>. The statuses of the plugin
  interface are the datatype \<open>login_status\<close>.
\<close>

definition deviceGrantType :: string where
  "deviceGrantType = ''urn:ietf:params:oauth:grant-type:device_code''"

record deviceCodeResponse =
  DevDeviceCode :: string
  DevUserCode :: string
  VerificationURI :: string
  VerificationURIComplete :: string
  DevExpiresIn :: int
  DevInterval :: int

record oauthTokenResponse =
  AccessToken :: string
  RefreshToken :: string
  OAuthTokenType :: string
  OAuthScope :: string
  ExpiresIn :: int
  RefreshTokenExpiresIn :: int
  OAuthError :: string
  ErrorDescription :: string
  OAuthInterval :: int

record githubUser =
  Login :: string
  UserID :: int

datatype login_status = LoginPending | LoginSuccess | LoginFailed

record pollDecision =
  Status :: login_status
  Message :: string
  NextInterval :: duration
  Terminal :: bool

definition device_fields :: "deviceCodeResponse fields" where
  "device_fields =
     [(''device_code'', at_field DevDeviceCode DevDeviceCode_update set_string),
      (''user_code'', at_field DevUserCode DevUserCode_update set_string),
      (''verification_uri'', at_field VerificationURI VerificationURI_update set_string),
      (''verification_uri_complete'', at_field VerificationURIComplete VerificationURIComplete_update set_string),
      (''expires_in'', at_field DevExpiresIn DevExpiresIn_update set_int64),
      (''interval'', at_field DevInterval DevInterval_update set_int64)]"

definition empty_device :: deviceCodeResponse where
  "empty_device = \<lparr> DevDeviceCode = [], DevUserCode = [], VerificationURI = [], VerificationURIComplete = [],
     DevExpiresIn = 0, DevInterval = 0 \<rparr>"

definition oauth_fields :: "oauthTokenResponse fields" where
  "oauth_fields =
     [(''access_token'', at_field AccessToken AccessToken_update set_string),
      (''refresh_token'', at_field RefreshToken RefreshToken_update set_string),
      (''token_type'', at_field OAuthTokenType OAuthTokenType_update set_string),
      (''scope'', at_field OAuthScope OAuthScope_update set_string),
      (''expires_in'', at_field ExpiresIn ExpiresIn_update set_int64),
      (''refresh_token_expires_in'', at_field RefreshTokenExpiresIn RefreshTokenExpiresIn_update set_int64),
      (''error'', at_field OAuthError OAuthError_update set_string),
      (''error_description'', at_field ErrorDescription ErrorDescription_update set_string),
      (''interval'', at_field OAuthInterval OAuthInterval_update set_int64)]"

definition empty_oauth :: oauthTokenResponse where
  "empty_oauth = \<lparr> AccessToken = [], RefreshToken = [], OAuthTokenType = [], OAuthScope = [], ExpiresIn = 0,
     RefreshTokenExpiresIn = 0, OAuthError = [], ErrorDescription = [], OAuthInterval = 0 \<rparr>"

definition user_fields :: "githubUser fields" where
  "user_fields = [(''login'', at_field Login Login_update set_string), (''id'', at_field UserID UserID_update set_int64)]"

subsection \<open>Credentials from the host\<close>

definition authData_now ::
  "'w outside \<Rightarrow> authStorage \<Rightarrow> string \<Rightarrow> string \<Rightarrow> metadata \<Rightarrow> attributes \<Rightarrow> 'w machine \<Rightarrow> authData \<times> 'w machine" where
  "authData_now E storage auth_id fileName metadata attributes =
     step (clock E) (\<lambda>now. return (make_authData now storage auth_id fileName [] [] False metadata attributes))"

definition is_copilot_type :: "string \<Rightarrow> bool" where
  "is_copilot_type raw =
     (case unmarshal [(''type'', set_string)] raw [] of
        None \<Rightarrow> False | Some t \<Rightarrow> EqualFold (TrimSpace t) providerID)"

text \<open>\<open>None\<close> is the response \<open>Handled: false\<close>.\<close>

definition ParseAuth ::
  "'w outside \<Rightarrow> string \<Rightarrow> string \<Rightarrow> string \<Rightarrow> 'w machine \<Rightarrow> authData option res \<times> 'w machine" where
  "ParseAuth E provider fileName rawJSON m =
     (if provider \<noteq> [] \<and> \<not> EqualFold provider providerID then (Inr None, m)
      else (case parseStorage rawJSON of
          Inl e \<Rightarrow> (if is_copilot_type rawJSON then Inl e else Inr None, m)
        | Inr storage \<Rightarrow>
            (let (metadata, attributes) =
               (case extractPriorityFromJSON rawJSON of
                  Some priority \<Rightarrow>
                    (mk_obj [(''type'', Json (JStr providerID)), (''github_login'', Json (JStr (GitHubLogin storage))),
                       (''priority'', GoInt priority)],
                     mk_obj [(''auth_kind'', ''oauth''), (''priority'', Itoa priority)])
                | None \<Rightarrow> ([], [(''auth_kind'', ''oauth'')]))
             in step (authData_now E storage fileName fileName metadata attributes) (\<lambda>d. return (Inr (Some d))) m)))"

subsection \<open>Starting a login\<close>

record loginStart =
  LoginURL :: string
  LoginState :: string
  LoginExpiresAt :: time
  LoginUserCode :: string
  LoginInterval :: int

definition form_headers :: header where
  "form_headers = mk_obj [(''Accept'', [''application/json'']),
     (''Content-Type'', [''application/x-www-form-urlencoded'']), (''User-Agent'', [userAgent])]"

definition form_request :: "lib \<Rightarrow> string \<Rightarrow> (string \<times> string) list \<Rightarrow> http_request" where
  "form_request L target form = \<lparr> Method = ''POST'', URL = target, Headers = form_headers, Body = EncodeForm L form \<rparr>"

definition device_code_request :: "lib \<Rightarrow> Config \<Rightarrow> http_request" where
  "device_code_request L cfg =
     form_request L (GitHubBaseURL cfg @ ''/login/device/code'')
       ([(''client_id'', GitHubClientID cfg)] @ (if GitHubScope cfg \<noteq> [] then [(''scope'', GitHubScope cfg)] else []))"

text \<open>\<open>int(d.Seconds())\<close> for a whole number of seconds.\<close>

definition int_seconds :: "duration \<Rightarrow> int" where
  "int_seconds d = (if 0 \<le> d then d div Second else - (- d div Second))"

definition clean_device :: "Config \<Rightarrow> deviceCodeResponse \<Rightarrow> deviceCodeResponse" where
  "clean_device cfg d =
     (let limit = int_seconds (oauthTimeout cfg);
          expires = (if DevExpiresIn d \<le> 0 then limit else DevExpiresIn d)
      in d\<lparr> DevDeviceCode := TrimSpace (DevDeviceCode d), DevUserCode := TrimSpace (DevUserCode d),
            VerificationURI := TrimSpace (VerificationURI d),
            VerificationURIComplete := TrimSpace (VerificationURIComplete d),
            DevExpiresIn := (if expires > limit then limit else expires),
            DevInterval := (if DevInterval d < 5 then 5 else DevInterval d) \<rparr>)"

definition login_url :: "lib \<Rightarrow> deviceCodeResponse \<Rightarrow> string res" where
  "login_url L d =
     (if VerificationURIComplete d \<noteq> [] then Inr (VerificationURIComplete d)
      else (case UrlParse L (VerificationURI d) of
          None \<Rightarrow> Inl (Wrap ''parse GitHub verification URL: '' JsonError)
        | Some parsed \<Rightarrow> Inr (SetQuery L parsed ''user_code'' (DevUserCode d))))"

definition new_session :: "Config \<Rightarrow> deviceCodeResponse \<Rightarrow> time \<Rightarrow> deviceSession" where
  "new_session cfg d now =
     \<lparr> DeviceCode = DevDeviceCode d, ClientID = GitHubClientID cfg, UserCode = DevUserCode d,
       SessionExpiresAt = Add now (Seconds (DevExpiresIn d)), Interval = Seconds (DevInterval d),
       NextPoll = now, Polling = False \<rparr>"

definition open_session ::
  "'w outside \<Rightarrow> lib \<Rightarrow> Config \<Rightarrow> deviceCodeResponse \<Rightarrow> 'w machine \<Rightarrow> loginStart res \<times> 'w machine" where
  "open_session E L cfg device m =
     (if DevDeviceCode device = [] \<or> DevUserCode device = [] \<or> VerificationURI device = []
      then (Inl (ErrorText ''GitHub device flow response is incomplete''), m)
      else (case randomIdentifier E 24 m of
          (Inl e, m1) \<Rightarrow> (Inl (Wrap ''generate OAuth state: '' e), m1)
        | (Inr state, m1) \<Rightarrow>
            step (clock E) (\<lambda>now.
              step (locked E (\<lambda>s. ((), s\<lparr>oauthSession := (oauthSession s)(state \<mapsto> new_session cfg device now)\<rparr>))) (\<lambda>_. return
                (case login_url L device of
                   Inl e \<Rightarrow> Inl e
                 | Inr loginURL \<Rightarrow>
                     Inr \<lparr> LoginURL = loginURL, LoginState = state,
                           LoginExpiresAt = SessionExpiresAt (new_session cfg device now),
                           LoginUserCode = DevUserCode device, LoginInterval = DevInterval device \<rparr>))) m1))"

definition StartLogin :: "'w outside \<Rightarrow> lib \<Rightarrow> string \<Rightarrow> 'w machine \<Rightarrow> loginStart res \<times> 'w machine" where
  "StartLogin E L callbackID =
     step (ServiceConfig E) (\<lambda>cfg m.
       if \<not> Enabled cfg then (Inl (statusError ''plugin_disabled'' ''Copilot plugin is disabled'' 503), m)
       else
         step (host_do E callbackID (device_code_request L cfg)) (\<lambda>r m.
           case r of
             Inl e \<Rightarrow> (Inl (Wrap ''start GitHub device flow: '' e), m)
           | Inr resp \<Rightarrow>
               if \<not> ok_status (StatusCode resp)
               then (Inl (upstreamStatusError (StatusCode resp) (ErrorBody (RespBody resp) [])), m)
               else (case unmarshal device_fields (RespBody resp) empty_device of
                   None \<Rightarrow> (Inl (Wrap ''decode GitHub device flow response: '' JsonError), m)
                 | Some device \<Rightarrow> open_session E L cfg (clean_device cfg device) m)) m)"

subsection \<open>Polling\<close>

datatype poll_entered = PollUnknown | PollExpired | PollWait | PollNow deviceSession

definition poll_enter :: "string \<Rightarrow> time \<Rightarrow> Service \<Rightarrow> poll_entered \<times> Service" where
  "poll_enter state now s =
     (case oauthSession s state of
        None \<Rightarrow> (PollUnknown, s)
      | Some session \<Rightarrow>
          if \<not> now < SessionExpiresAt session
          then (PollExpired, s\<lparr>oauthSession := (oauthSession s)(state := None)\<rparr>)
          else if Polling session \<or> now < NextPoll session then (PollWait, s)
          else (PollNow session, s\<lparr>oauthSession := (oauthSession s)(state \<mapsto> session\<lparr>Polling := True\<rparr>)\<rparr>))"

definition poll_finish :: "string \<Rightarrow> duration \<Rightarrow> bool \<Rightarrow> time \<Rightarrow> Service \<Rightarrow> Service" where
  "poll_finish state interval terminal now s =
     (case oauthSession s state of
        None \<Rightarrow> s
      | Some session \<Rightarrow>
          if terminal then s\<lparr>oauthSession := (oauthSession s)(state := None)\<rparr>
          else s\<lparr>oauthSession := (oauthSession s)(state \<mapsto>
                 session\<lparr>Polling := False, Interval := interval, NextPoll := Add now interval\<rparr>)\<rparr>)"

text \<open>The clock is read under the mutex, and only when a session stays.\<close>

definition finishPoll :: "'w outside \<Rightarrow> string \<Rightarrow> duration \<Rightarrow> bool \<Rightarrow> 'w machine \<Rightarrow> unit \<times> 'w machine" where
  "finishPoll E state interval terminal m =
     (let m1 = lock E m in
      if oauthSession (svc m1) state = None \<or> terminal
      then ((), m1\<lparr>svc := poll_finish state interval terminal 0 (svc m1)\<rparr>)
      else step (clock E) (\<lambda>now m2. ((), m2\<lparr>svc := poll_finish state interval False now (svc m2)\<rparr>)) m1)"

definition pending_decision :: "string \<Rightarrow> duration \<Rightarrow> pollDecision" where
  "pending_decision msg next = \<lparr> Status = LoginPending, Message = msg, NextInterval = next, Terminal = False \<rparr>"

definition failed_decision :: "string \<Rightarrow> bool \<Rightarrow> pollDecision" where
  "failed_decision detail terminal =
     \<lparr> Status = LoginFailed, Message = ''GitHub device flow failed: '' @ detail, NextInterval = 0, Terminal = terminal \<rparr>"

definition terminal_codes :: "string list" where
  "terminal_codes = [''expired_token'', ''incorrect_device_code'', ''access_denied'', ''device_flow_disabled'',
     ''incorrect_client_credentials'', ''unsupported_grant_type'']"

definition classifyDeviceToken :: "int \<Rightarrow> oauthTokenResponse \<Rightarrow> duration \<Rightarrow> pollDecision" where
  "classifyDeviceToken statusCode token currentInterval =
     (if TrimSpace (AccessToken token) \<noteq> [] \<and> ok_status statusCode
      then \<lparr> Status = LoginSuccess, Message = [], NextInterval = 0, Terminal = True \<rparr>
      else
        (let code = ToLower (TrimSpace (OAuthError token)); detail = TrimSpace (ErrorDescription token);
             spelled = ReplaceAll code ''_'' '' ''
         in if code = ''authorization_pending'' then pending_decision ''waiting for GitHub authorization'' currentInterval
            else if code = ''slow_down'' then
              (let next = wrap64 (currentInterval + 5 * Second)
               in pending_decision ''GitHub requested slower device polling''
                    (if OAuthInterval token > 0 \<and> Seconds (OAuthInterval token) > next
                     then Seconds (OAuthInterval token) else next))
            else if code \<in> set terminal_codes then failed_decision (if detail = [] then spelled else detail) True
            else failed_decision
                   (if detail \<noteq> [] then detail else if code \<noteq> [] then spelled
                    else ''unexpected HTTP '' @ Itoa statusCode)
                   (400 \<le> statusCode \<and> statusCode < 500)))"

definition user_request :: "Config \<Rightarrow> string \<Rightarrow> http_request" where
  "user_request cfg accessToken =
     \<lparr> Method = ''GET'', URL = GitHubAPIURL cfg @ ''/user'',
       Headers = mk_obj [(''Accept'', [''application/vnd.github+json'']),
         (''Authorization'', [''Bearer '' @ accessToken]), (''User-Agent'', [userAgent]),
         (''X-GitHub-Api-Version'', [''2022-11-28''])],
       Body = [] \<rparr>"

definition fetchGitHubUser :: "'w outside \<Rightarrow> string \<Rightarrow> string \<Rightarrow> 'w machine \<Rightarrow> githubUser res \<times> 'w machine" where
  "fetchGitHubUser E callbackID accessToken =
     step (ServiceConfig E) (\<lambda>cfg.
       step (host_do E callbackID (user_request cfg accessToken)) (\<lambda>r. return
         (case r of
            Inl e \<Rightarrow> Inl (Wrap ''fetch GitHub user: '' e)
          | Inr resp \<Rightarrow>
              if \<not> ok_status (StatusCode resp)
              then Inl (upstreamStatusError (StatusCode resp) (ErrorBody (RespBody resp) [accessToken]))
              else (case unmarshal user_fields (RespBody resp) \<lparr> Login = [], UserID = 0 \<rparr> of
                  None \<Rightarrow> Inl (Wrap ''decode GitHub user: '' JsonError)
                | Some user \<Rightarrow>
                    if TrimSpace (Login user) = [] then Inl (ErrorText ''GitHub user response has no login'')
                    else Inr (user\<lparr>Login := TrimSpace (Login user)\<rparr>)))))"

definition expiry_stamp :: "time \<Rightarrow> int \<Rightarrow> int \<Rightarrow> int" where
  "expiry_stamp now seconds old = (if seconds > 0 then UnixSeconds (Add now (Seconds seconds)) else old)"

definition login_storage :: "string \<Rightarrow> oauthTokenResponse \<Rightarrow> githubUser \<Rightarrow> time \<Rightarrow> authStorage" where
  "login_storage clientID token user createdAt =
     \<lparr> StorageType = providerID, GitHubAccessToken = TrimSpace (AccessToken token),
       GitHubRefreshToken = TrimSpace (RefreshToken token), TokenType = TrimSpace (OAuthTokenType token),
       Scope = TrimSpace (OAuthScope token), StorageExpiresAt = expiry_stamp createdAt (ExpiresIn token) 0,
       RefreshTokenExpiresAt = expiry_stamp createdAt (RefreshTokenExpiresIn token) 0,
       GitHubLogin = TrimSpace (Login user), GitHubUserID = UserID user, OAuthClientID = clientID,
       UpdatedAt = FormatRFC3339 createdAt \<rparr>"

record pollResponse =
  PollStatus :: login_status
  PollMessage :: string
  PollAuth :: "authData option"

definition poll_response :: "login_status \<Rightarrow> string \<Rightarrow> pollResponse" where
  "poll_response st msg = \<lparr> PollStatus = st, PollMessage = msg, PollAuth = None \<rparr>"

text \<open>After GitHub granted the token.\<close>

definition complete_login ::
  "'w outside \<Rightarrow> string \<Rightarrow> string \<Rightarrow> deviceSession \<Rightarrow> oauthTokenResponse \<Rightarrow> 'w machine \<Rightarrow> pollResponse res \<times> 'w machine" where
  "complete_login E callbackID state session token m =
     (case fetchGitHubUser E callbackID (AccessToken token) m of
        (Inl e, m1) \<Rightarrow> step (finishPoll E state (Interval session) True) (\<lambda>_. return (Inl e)) m1
      | (Inr user, m1) \<Rightarrow>
          step (clock E) (\<lambda>createdAt.
            step (authData_now E (login_storage (ClientID session) token user createdAt) [] [] [] []) (\<lambda>d.
              step (finishPoll E state (Interval session) True) (\<lambda>_. return
                (Inr \<lparr> PollStatus = LoginSuccess, PollMessage = ''GitHub Copilot authentication succeeded'',
                       PollAuth = Some d \<rparr>)))) m1)"

definition poll_request :: "lib \<Rightarrow> Config \<Rightarrow> deviceSession \<Rightarrow> http_request" where
  "poll_request L cfg session =
     form_request L (GitHubBaseURL cfg @ ''/login/oauth/access_token'')
       [(''client_id'', ClientID session), (''device_code'', DeviceCode session), (''grant_type'', deviceGrantType)]"

definition poll_answer ::
  "'w outside \<Rightarrow> string \<Rightarrow> string \<Rightarrow> deviceSession \<Rightarrow> http_response res \<Rightarrow> 'w machine \<Rightarrow> pollResponse res \<times> 'w machine" where
  "poll_answer E callbackID state session r m =
     (case r of
        Inl e \<Rightarrow> step (finishPoll E state (Interval session) False)
                  (\<lambda>_. return (Inl (Wrap ''poll GitHub device flow: '' e))) m
      | Inr resp \<Rightarrow>
          (case unmarshal oauth_fields (RespBody resp) empty_oauth of
             None \<Rightarrow> step (finishPoll E state (Interval session) False)
                       (\<lambda>_. return (Inl (Wrap ''decode GitHub device token response: '' JsonError))) m
           | Some token \<Rightarrow>
               (let decision = classifyDeviceToken (StatusCode resp) token (Interval session)
                in case Status decision of
                     LoginPending \<Rightarrow>
                       step (finishPoll E state (NextInterval decision) False)
                         (\<lambda>_. return (Inr (poll_response LoginPending (Message decision)))) m
                   | LoginFailed \<Rightarrow>
                       step (finishPoll E state (Interval session) (Terminal decision))
                         (\<lambda>_. return (Inr (poll_response LoginFailed (Message decision)))) m
                   | LoginSuccess \<Rightarrow> complete_login E callbackID state session token m)))"

definition PollLogin ::
  "'w outside \<Rightarrow> lib \<Rightarrow> string \<Rightarrow> string \<Rightarrow> 'w machine \<Rightarrow> pollResponse res \<times> 'w machine" where
  "PollLogin E L callbackID state0 =
     (let state = TrimSpace state0 in
      step (clock E) (\<lambda>now.
        step (locked E (poll_enter state now)) (\<lambda>entered.
          case entered of
            PollUnknown \<Rightarrow> return (Inr (poll_response LoginFailed ''unknown or expired GitHub device flow''))
          | PollExpired \<Rightarrow> return (Inr (poll_response LoginFailed ''GitHub device code expired''))
          | PollWait \<Rightarrow> return (Inr (poll_response LoginPending ''waiting for GitHub authorization''))
          | PollNow session \<Rightarrow>
              step (ServiceConfig E) (\<lambda>cfg.
                step (host_do E callbackID (poll_request L cfg session))
                  (poll_answer E callbackID state session)))))"

subsection \<open>Refreshing a credential\<close>

definition refresh_request :: "lib \<Rightarrow> Config \<Rightarrow> string \<Rightarrow> string \<Rightarrow> http_request" where
  "refresh_request L cfg clientID refreshToken =
     form_request L (GitHubBaseURL cfg @ ''/login/oauth/access_token'')
       [(''client_id'', clientID), (''grant_type'', ''refresh_token''), (''refresh_token'', refreshToken)]"

definition refreshed_storage :: "authStorage \<Rightarrow> oauthTokenResponse \<Rightarrow> time \<Rightarrow> authStorage" where
  "refreshed_storage s token now =
     s\<lparr> GitHubAccessToken := TrimSpace (AccessToken token),
        GitHubRefreshToken := (if TrimSpace (RefreshToken token) \<noteq> [] then TrimSpace (RefreshToken token) else GitHubRefreshToken s),
        TokenType := TrimSpace (OAuthTokenType token), Scope := TrimSpace (OAuthScope token),
        UpdatedAt := FormatRFC3339 now,
        StorageExpiresAt := expiry_stamp now (ExpiresIn token) (StorageExpiresAt s),
        RefreshTokenExpiresAt := expiry_stamp now (RefreshTokenExpiresIn token) (RefreshTokenExpiresAt s) \<rparr>"

definition refresh_answer ::
  "'w outside \<Rightarrow> string \<Rightarrow> metadata \<Rightarrow> attributes \<Rightarrow> authStorage \<Rightarrow> time \<Rightarrow> http_response res \<Rightarrow> 'w machine \<Rightarrow>
   authData res \<times> 'w machine" where
  "refresh_answer E authID metadata attributes storage now r m =
     (case r of
        Inl e \<Rightarrow> (Inl (Wrap ''refresh GitHub OAuth token: '' e), m)
      | Inr resp \<Rightarrow>
          (case unmarshal oauth_fields (RespBody resp) empty_oauth of
             None \<Rightarrow> (Inl (Wrap ''decode GitHub OAuth refresh response: '' JsonError), m)
           | Some token \<Rightarrow>
               if \<not> ok_status (StatusCode resp) \<or> TrimSpace (AccessToken token) = []
               then (Inl (upstreamStatusError (StatusCode resp)
                      (ErrorBody (RespBody resp) [GitHubAccessToken storage, GitHubRefreshToken storage])), m)
               else
                 step (invalidateAuth E authID) (\<lambda>_.
                   step (authData_now E (refreshed_storage storage token now) authID [] metadata attributes)
                     (\<lambda>d. return (Inr d))) m))"

definition RefreshAuth ::
  "'w outside \<Rightarrow> lib \<Rightarrow> string \<Rightarrow> string \<Rightarrow> string \<Rightarrow> metadata \<Rightarrow> attributes \<Rightarrow> 'w machine \<Rightarrow>
   authData res \<times> 'w machine" where
  "RefreshAuth E L callbackID authID storageJSON metadata attributes m =
     (case parseStorage storageJSON of
        Inl e \<Rightarrow> (Inl e, m)
      | Inr storage \<Rightarrow>
          step (clock E) (\<lambda>now m.
            if StorageExpiresAt storage = 0 \<or> Unix (StorageExpiresAt storage) > Add now (10 * Minute)
            then step (authData_now E storage authID [] metadata attributes) (\<lambda>d. return (Inr d)) m
            else if GitHubRefreshToken storage = []
            then (Inl (statusError ''auth_expired'' ''GitHub OAuth token expired and has no refresh token'' 401), m)
            else if RefreshTokenExpiresAt storage > 0 \<and> \<not> Unix (RefreshTokenExpiresAt storage) > now
            then (Inl (statusError ''auth_expired'' ''GitHub OAuth refresh token expired'' 401), m)
            else
              step (if OAuthClientID storage \<noteq> [] then return (OAuthClientID storage)
                    else step (ServiceConfig E) (\<lambda>cfg. return (GitHubClientID cfg))) (\<lambda>clientID.
                step (ServiceConfig E) (\<lambda>cfg.
                  step (host_do E callbackID (refresh_request L cfg clientID (GitHubRefreshToken storage)))
                    (refresh_answer E authID metadata attributes storage now))) m) m)"

subsection \<open>One poll at a time\<close>

text \<open>A login may not be polled while a poll is under way, nor when it does not exist.\<close>

definition poll_busy :: "Service \<Rightarrow> string \<Rightarrow> bool" where
  "poll_busy s state = (case oauthSession s state of None \<Rightarrow> True | Some session \<Rightarrow> Polling session)"

definition poll_starts :: "string \<Rightarrow> Service \<Rightarrow> Service \<Rightarrow> bool" where
  "poll_starts state s s' \<longleftrightarrow> (\<exists>now session. poll_enter state now s = (PollNow session, s'))"

definition poll_ends :: "string \<Rightarrow> Service \<Rightarrow> Service \<Rightarrow> bool" where
  "poll_ends state s s' \<longleftrightarrow> (\<exists>interval terminal now. s' = poll_finish state interval terminal now s)"

definition polls_kept :: "string set \<Rightarrow> Service \<Rightarrow> Service \<Rightarrow> bool" where
  "polls_kept owned s s' \<longleftrightarrow> (\<forall>state \<in> owned. poll_busy s state \<longrightarrow> poll_busy s' state)"

lemma poll_enter_cases:
  assumes "poll_enter state now s = (PollNow x, s')"
  shows "oauthSession s state = Some x \<and> \<not> Polling x \<and> NextPoll x \<le> now \<and> now < SessionExpiresAt x \<and>
    s' = s\<lparr>oauthSession := (oauthSession s)(state \<mapsto> x\<lparr>Polling := True\<rparr>)\<rparr>"
  using assms by (auto simp: poll_enter_def split: option.splits if_splits)

interpretation polls: single_owner poll_busy poll_starts poll_ends polls_kept
proof unfold_locales
  fix k k' s s' owned
  show "poll_starts k s s' \<Longrightarrow> \<not> poll_busy s k" "poll_starts k s s' \<Longrightarrow> poll_busy s' k"
    "poll_starts k s s' \<Longrightarrow> k' \<noteq> k \<Longrightarrow> poll_busy s k' \<Longrightarrow> poll_busy s' k'"
    by (auto simp: poll_starts_def poll_busy_def dest!: poll_enter_cases)
  show "poll_ends k s s' \<Longrightarrow> k' \<noteq> k \<Longrightarrow> poll_busy s k' \<Longrightarrow> poll_busy s' k'"
    by (auto simp: poll_ends_def poll_finish_def poll_busy_def split: option.splits if_splits)
  show "polls_kept owned s s' \<Longrightarrow> k \<in> owned \<Longrightarrow> poll_busy s k \<Longrightarrow> poll_busy s' k"
    by (simp add: polls_kept_def)
qed

text \<open>What else happens to the sessions is such a change: a new login under a state nobody polls, the
  end of an expired one, shutting down.\<close>

lemma other_operations_keep_polls:
  "state \<notin> owned \<Longrightarrow> polls_kept owned s (s\<lparr>oauthSession := (oauthSession s)(state \<mapsto> new_session cfg d now)\<rparr>)"
  "poll_enter state now s = (PollExpired, s') \<Longrightarrow> polls_kept owned s s'"
  "polls_kept owned s (s\<lparr>oauthSession := Map.empty\<rparr>)"
  by (auto simp: polls_kept_def poll_busy_def poll_enter_def split: option.splits if_splits)

text \<open>C31: however the handlers interleave, a login is polled by at most one of them at a time, and
  until that one has finished the login is marked as being polled or is gone.\<close>

theorem device_poll_exclusive:
  assumes "owners_reach poll_starts poll_ends polls_kept s own"
    and "own i = Some state" "own j = Some state"
  shows "i = j \<and> poll_busy s state"
  using polls.exclusive [OF assms] by blast

definition sample_session :: deviceSession where
  "sample_session = \<lparr> DeviceCode = ''d'', ClientID = ''c'', UserCode = ''u'', SessionExpiresAt = 100 * Second,
     Interval = 5 * Second, NextPoll = 0, Polling = False \<rparr>"

definition sample_service :: Service where
  "sample_service = New\<lparr>oauthSession := [''st'' \<mapsto> sample_session]\<rparr>"

lemma sample_poll: "poll_enter ''st'' 0 sample_service = (PollNow sample_session, snd (poll_enter ''st'' 0 sample_service))"
  by (simp add: poll_enter_def sample_service_def sample_session_def Second_def)

theorem device_poll_exclusive_witness: "poll_busy (snd (poll_enter ''st'' 0 sample_service)) ''st''"
proof -
  have "poll_starts ''st'' sample_service (snd (poll_enter ''st'' 0 sample_service))"
    unfolding poll_starts_def using sample_poll by blast
  then have "owners_reach poll_starts poll_ends polls_kept
      (snd (poll_enter ''st'' 0 sample_service)) (Map.empty(0 \<mapsto> ''st''))"
    by (intro reach_step [OF reach_start] enters) simp_all
  from device_poll_exclusive [OF this, of 0 "''st''" 0] show ?thesis by simp
qed

subsection \<open>The pace of polling\<close>

definition asked_to_slow_down :: "oauthTokenResponse \<Rightarrow> bool" where
  "asked_to_slow_down token \<longleftrightarrow> ToLower (TrimSpace (OAuthError token)) = ''slow_down''"

lemma classify_pending:
  assumes "Status (classifyDeviceToken status token cur) = LoginPending"
    and "0 \<le> cur" "cur \<le> max_int64 - 5 * Second"
  shows "cur + (if asked_to_slow_down token then 5 * Second else 0) \<le> NextInterval (classifyDeviceToken status token cur)"
    and "NextInterval (classifyDeviceToken status token cur) \<le> max_int64"
proof -
  have "wrap64 (cur + 5 * Second) = cur + 5 * Second"
    using assms(2,3) by (simp add: wrap64_id min_int64_def max_int64_def Second_def)
  moreover have "Seconds n \<le> max_int64" for n
    using wrap64_range by (simp add: Seconds_def)
  moreover have "cur + 5 * Second \<le> max_int64" using assms(3) by simp
  ultimately show "cur + (if asked_to_slow_down token then 5 * Second else 0) \<le> NextInterval (classifyDeviceToken status token cur)"
    "NextInterval (classifyDeviceToken status token cur) \<le> max_int64"
    using assms(1,2)
    by (auto simp: classifyDeviceToken_def Let_def pending_decision_def failed_decision_def asked_to_slow_down_def
        Second_def split: if_splits)
qed

text \<open>C32: after an answer that leaves the login pending, the next poll is at least one interval later,
  and five seconds more when GitHub asked to slow down.\<close>

theorem device_poll_backs_off:
  assumes "Status decision = LoginPending" "decision = classifyDeviceToken status token (Interval session)"
    and "0 \<le> Interval session" "Interval session \<le> max_int64 - 5 * Second" "sane_time now"
    and "poll_enter state later (poll_finish state (NextInterval decision) False now s) = (PollNow x, s')"
  shows "now + Interval session + (if asked_to_slow_down token then 5 * Second else 0) \<le> later"
proof -
  have next_ge: "Interval session + (if asked_to_slow_down token then 5 * Second else 0) \<le> NextInterval decision"
    and next_le: "NextInterval decision \<le> max_int64"
    using classify_pending [of status token "Interval session"] assms(1-4) by simp_all
  have "0 \<le> NextInterval decision" using next_ge assms(3) by (simp add: Second_def split: if_splits)
  then have "Add now (NextInterval decision) = now + NextInterval decision"
    using Add_exact [OF assms(5), of "NextInterval decision"] next_le by (simp add: min_int64_def)
  moreover have "NextPoll x = Add now (NextInterval decision)" "NextPoll x \<le> later"
    using poll_enter_cases [OF assms(6)] by (auto simp: poll_finish_def split: option.splits)
  ultimately show ?thesis using next_ge by simp
qed

definition slow_down_answer :: oauthTokenResponse where
  "slow_down_answer = empty_oauth\<lparr>OAuthError := ''slow_down''\<rparr>"

definition after_slow_down :: Service where
  "after_slow_down =
     poll_finish ''st'' (NextInterval (classifyDeviceToken 200 slow_down_answer (Interval sample_session))) False 0 sample_service"

theorem device_poll_backs_off_witness:
  "\<exists>x s'. poll_enter ''st'' (10 * Second) after_slow_down = (PollNow x, s') \<and>
     0 + Interval sample_session + 5 * Second \<le> 10 * Second"
proof -
  let ?d = "classifyDeviceToken 200 slow_down_answer (Interval sample_session)"
  have d: "Status ?d = LoginPending" "NextInterval ?d = 10 * Second" by code_simp+
  have slow: "asked_to_slow_down slow_down_answer" by code_simp
  have "\<exists>x s'. poll_enter ''st'' (10 * Second) after_slow_down = (PollNow x, s')"
    unfolding after_slow_down_def d(2)
    by (simp add: poll_enter_def poll_finish_def sample_service_def sample_session_def Second_def Add_def)
  then obtain x s' where x: "poll_enter ''st'' (10 * Second) after_slow_down = (PollNow x, s')" by blast
  from device_poll_backs_off [OF d(1) refl _ _ _ x [unfolded after_slow_down_def]] slow x show ?thesis
    by (simp add: sample_session_def Second_def max_int64_def sane_time_def)
qed

text \<open>An interval beyond 292 years wraps: the login then asks for polls without a pause.\<close>

lemma login_interval_wraps:
  "Interval (new_session cfg (clean_device cfg' (d\<lparr>DevInterval := 9223372037\<rparr>)) now) < 0"
  by (simp add: new_session_def clean_device_def Let_def Seconds_def wrap64_def)

end
