(* ===== verification/Token_Count.thy ===== *)
theory Token_Count
  imports Executor
begin

text \<open>
  Estimating the tokens of a Claude request: \<open>internal/provider/token_count.go\<close>. The JSON library
  gjson and the tokenizer are third-party code and are parameters: \<open>'g\<close> is a gjson value. The
  recursion over nested content has a fuel, and \<open>None\<close> is running out of it; a value inside another
  is shorter, so the length of the value is enough (\<open>token_segments_total\<close>).
\<close>

record 'g gjson =
  ValidBytes :: "string \<Rightarrow> bool"
  ParseBytes :: "string \<Rightarrow> 'g"
  Get :: "'g \<Rightarrow> string \<Rightarrow> 'g"
  Exists :: "'g \<Rightarrow> bool"
  IsString :: "'g \<Rightarrow> bool"
  IsArray :: "'g \<Rightarrow> bool"
  IsObject :: "'g \<Rightarrow> bool"
  StringOf :: "'g \<Rightarrow> string"
  Raw :: "'g \<Rightarrow> string"
  Elements :: "'g \<Rightarrow> 'g list"

text \<open>\<open>json.Compact\<close>: white space outside strings is dropped; an error for invalid JSON.\<close>

fun compact_text :: "bool \<Rightarrow> string \<Rightarrow> string" where
  "compact_text quoted [] = []"
| "compact_text quoted (c # s) =
     (if quoted then
        (if c = CHR 0x5C then (case s of [] \<Rightarrow> [c] | d # r \<Rightarrow> c # d # compact_text True r)
         else c # compact_text (c \<noteq> CHR 0x22) s)
      else if json_space c then compact_text False s
      else c # compact_text (c = CHR 0x22) s)"

definition Compact :: "string \<Rightarrow> string option" where
  "Compact raw = (if Valid raw then Some (compact_text False raw) else None)"

definition token_string :: "string \<Rightarrow> string list" where
  "token_string v = (if TrimSpace v \<noteq> [] then [TrimSpace v] else [])"

definition token_json :: "'g gjson \<Rightarrow> 'g \<Rightarrow> string list" where
  "token_json J v =
     (if \<not> Exists J v then []
      else if IsString J v then token_string (StringOf J v)
      else (let raw = TrimSpace (Raw J v) in
            if raw = [] then []
            else (case Compact raw of Some c \<Rightarrow> token_string c | None \<Rightarrow> token_string raw)))"

definition token_field :: "'g gjson \<Rightarrow> 'g \<Rightarrow> string \<Rightarrow> string list" where
  "token_field J v k = token_string (StringOf J (Get J v k))"

definition system_part :: "'g gjson \<Rightarrow> 'g \<Rightarrow> string list" where
  "system_part J part =
     (if IsString J part then token_string (StringOf J part)
      else if StringOf J (Get J part ''type'') = ''text'' then token_field J part ''text''
      else [])"

definition system_segments :: "'g gjson \<Rightarrow> 'g \<Rightarrow> string list" where
  "system_segments J system =
     (if IsString J system then token_string (StringOf J system)
      else if \<not> IsArray J system then []
      else concat (map (system_part J) (Elements J system)))"

text \<open>What a part of each kind contributes by itself, and the nested values that follow.\<close>

definition result_kinds :: "string list" where
  "result_kinds = [''tool_result'', ''mcp_tool_result'', ''web_search_tool_result'', ''web_fetch_tool_result'',
     ''code_execution_tool_result'', ''bash_code_execution_tool_result'', ''text_editor_code_execution_tool_result'']"

definition code_kinds :: "string list" where
  "code_kinds = [''code_execution_result'', ''bash_code_execution_result'', ''text_editor_code_execution_result'']"

definition content_segments :: "'g gjson \<Rightarrow> 'g \<Rightarrow> string list \<times> 'g list" where
  "content_segments J c =
     (let kind = StringOf J (Get J c ''type''); fields = (\<lambda>ks. concat (map (token_field J c) ks)) in
      if kind = ''text'' then (fields [''text''], [])
      else if kind = ''thinking'' then (fields [''thinking''], [])
      else if kind = ''document'' then
        (let source = Get J c ''source'' in
         if StringOf J (Get J source ''type'') = ''text''
         then (fields [''title'', ''context''] @ token_field J source ''data'' @ token_field J source ''content'', [])
         else ([], []))
      else if kind \<in> set [''tool_use'', ''server_tool_use'', ''mcp_tool_use''] then
        (fields [''id'', ''name''] @ token_json J (Get J c ''input''), [])
      else if kind \<in> set result_kinds then (fields [''tool_use_id'', ''tool_call_id''], [Get J c ''content''])
      else if kind = ''web_search_result'' \<or> kind = ''search_result'' then
        (fields [''source'', ''title'', ''url'', ''page_age''], [Get J c ''content''])
      else if kind = ''web_fetch_result'' then (fields [''url'', ''retrieved_at''], [Get J c ''content''])
      else if kind \<in> set code_kinds then
        (fields [''stdout'', ''stderr'', ''return_code''], [Get J c ''content'', Get J c ''output''])
      else if kind = ''tool_reference'' then (fields [''tool_name''], [])
      else if kind \<in> set [''image'', ''input_audio'', ''audio'', ''video'', ''redacted_thinking''] then ([], [])
      else if kind = [] then (token_json J c, [])
      else (fields [''text''], []))"

fun concat_some :: "'a list option list \<Rightarrow> 'a list option" where
  "concat_some [] = Some []"
| "concat_some (None # r) = None"
| "concat_some (Some x # r) = map_option ((@) x) (concat_some r)"

fun collect_content :: "nat \<Rightarrow> 'g gjson \<Rightarrow> 'g \<Rightarrow> string list option" where
  "collect_content 0 J c = None"
| "collect_content (Suc n) J c =
     (if \<not> Exists J c then Some []
      else if IsString J c then Some (token_string (StringOf J c))
      else if IsArray J c then concat_some (map (collect_content n J) (Elements J c))
      else if \<not> IsObject J c then Some []
      else (case content_segments J c of (own, nested) \<Rightarrow>
              map_option ((@) own) (concat_some (map (collect_content n J) nested))))"

definition message_segments :: "nat \<Rightarrow> 'g gjson \<Rightarrow> 'g \<Rightarrow> string list option" where
  "message_segments n J messages =
     (if \<not> IsArray J messages then Some []
      else concat_some (map (\<lambda>message. map_option ((@) (token_field J message ''role''))
             (collect_content n J (Get J message ''content''))) (Elements J messages)))"

definition tool_segments :: "'g gjson \<Rightarrow> 'g \<Rightarrow> string list" where
  "tool_segments J tools =
     (if \<not> IsArray J tools then []
      else concat (map (\<lambda>tool. concat (map (token_field J tool) [''type'', ''name'', ''description'']) @
             token_json J (Get J tool ''input_schema'')) (Elements J tools)))"

definition tool_choice_segments :: "'g gjson \<Rightarrow> 'g \<Rightarrow> string list" where
  "tool_choice_segments J choice =
     (if \<not> Exists J choice then []
      else if IsString J choice then token_string (StringOf J choice)
      else token_field J choice ''type'' @ token_field J choice ''name'')"

definition token_segments :: "nat \<Rightarrow> 'g gjson \<Rightarrow> string \<Rightarrow> string list option" where
  "token_segments n J payload =
     (let root = ParseBytes J payload in
      map_option (\<lambda>ms. system_segments J (Get J root ''system'') @ ms @ tool_segments J (Get J root ''tools'') @
          tool_choice_segments J (Get J root ''tool_choice''))
        (message_segments n J (Get J root ''messages'')))"

text \<open>The codec is the result of the one-time initialisation.\<close>

definition countClaudeInputTokens ::
  "nat \<Rightarrow> 'g gjson \<Rightarrow> (string \<Rightarrow> int res) res \<Rightarrow> string \<Rightarrow> int res option" where
  "countClaudeInputTokens n J codec payload =
     (case codec of
        Inl e \<Rightarrow> Some (Inl (Wrap ''initialize O200kBase tokenizer: '' e))
      | Inr count \<Rightarrow>
          if TrimSpace payload = [] then Some (Inr 0)
          else if \<not> ValidBytes J payload then Some (Inl (ErrorText ''invalid Claude request JSON''))
          else map_option (\<lambda>segments.
              if segments = [] then Inr 0
              else (case count (Join segments [CHR 0x0A]) of
                  Inl e \<Rightarrow> Inl (Wrap ''count Claude input tokens: '' e)
                | Inr k \<Rightarrow> Inr k))
            (token_segments n J payload))"

definition CountTokens ::
  "nat \<Rightarrow> 'g gjson \<Rightarrow> (string \<Rightarrow> int res) res \<Rightarrow> lib \<Rightarrow> executeRequest \<Rightarrow> executorResponse res option" where
  "CountTokens n J codec L req =
     (let payload = (if TrimSpace (ReqOriginalRequest req) = [] then ReqPayload req else ReqOriginalRequest req) in
      if source_format req \<noteq> ''claude''
      then Some (Inl (statusError ''unsupported_format''
             (''token counting is unsupported for request format '' @
              GoQuote L (firstNonEmpty [ReqSourceFormat req, ReqFormat req])) 422))
      else map_option (\<lambda>r.
          case r of
            Inl e \<Rightarrow> Inl (statusError ''invalid_request'' (ErrorString L e) 400)
          | Inr count \<Rightarrow>
              Inr \<lparr> ExecPayload = encode (JObj [(''input_tokens'', JNum (Itoa count))]),
                    ExecHeaders = [(''Content-Type'', [''application/json''])], ExecMetadata = [] \<rparr>)
        (countClaudeInputTokens n J codec payload))"


section \<open>The recursion ends\<close>

text \<open>
  What a segment is: trimmed text with something in it. The functions that collect segments produce
  nothing else.
\<close>

definition segments_ok :: "string list \<Rightarrow> bool" where
  "segments_ok ss \<longleftrightarrow> (\<forall>s \<in> set ss. s \<noteq> [] \<and> TrimSpace s = s)"

named_theorems segs

lemma segments_ok_Nil [segs, simp]: "segments_ok []"
  by (simp add: segments_ok_def)

lemma segments_ok_append [segs, simp]: "segments_ok (xs @ ys) \<longleftrightarrow> segments_ok xs \<and> segments_ok ys"
  by (auto simp: segments_ok_def)

lemma segments_ok_concat [segs]: "(\<And>x. x \<in> set xs \<Longrightarrow> segments_ok x) \<Longrightarrow> segments_ok (concat xs)"
  by (auto simp: segments_ok_def)

lemma segments_ok_token_string [segs, simp]: "segments_ok (token_string v)"
  by (simp add: segments_ok_def token_string_def)

lemma segments_ok_token_field [segs, simp]: "segments_ok (token_field J v k)"
  by (simp add: token_field_def)

lemma segments_ok_token_json [segs, simp]: "segments_ok (token_json J v)"
  by (simp add: token_json_def Let_def split: option.split)

lemma segments_ok_system [segs]: "segments_ok (system_segments J v)"
  by (auto simp: system_segments_def system_part_def intro!: segments_ok_concat)

lemma segments_ok_tools [segs]: "segments_ok (tool_segments J v)"
  by (auto simp: tool_segments_def intro!: segments_ok_concat)

lemma segments_ok_choice [segs]: "segments_ok (tool_choice_segments J v)"
  by (simp add: tool_choice_segments_def)

lemma segments_ok_content [segs]: "segments_ok (fst (content_segments J c))"
  by (auto simp: content_segments_def Let_def intro!: segments_ok_concat)

lemma content_nested: "e \<in> set (snd (content_segments J c)) \<Longrightarrow> e = Get J c ''content'' \<or> e = Get J c ''output''"
  by (auto simp: content_segments_def Let_def split: if_splits)

lemma concat_some_total:
  "(\<And>x. x \<in> set xs \<Longrightarrow> \<exists>y. x = Some y \<and> segments_ok y) \<Longrightarrow> \<exists>ys. concat_some xs = Some ys \<and> segments_ok ys"
proof (induction xs rule: concat_some.induct)
  case (3 x r)
  from 3 obtain ys where "concat_some r = Some ys" "segments_ok ys" by auto
  with 3(2) [of "Some x"] show ?case by simp
next
  case (2 r)
  from 2 [of None] show ?case by simp
qed simp

text \<open>
  The documented behaviour of the JSON library the recursion rests on: \<open>Raw\<close> is the text of a value,
  the text of a field or element that exists is a proper part of the text of the value around it,
  the text of a parsed payload is part of the payload, and a value that does not exist has no text.
\<close>

definition raw_nested :: "'g gjson \<Rightarrow> bool" where
  "raw_nested J \<longleftrightarrow>
     (\<forall>v. \<forall>k \<in> {''content'', ''output'', ''messages''}.
        Exists J (Get J v k) \<longrightarrow> length (Raw J (Get J v k)) < length (Raw J v)) \<and>
     (\<forall>v. IsArray J v \<longrightarrow> (\<forall>e \<in> set (Elements J v). length (Raw J e) < length (Raw J v))) \<and>
     (\<forall>p. length (Raw J (ParseBytes J p)) \<le> length p) \<and>
     (\<forall>v. \<not> Exists J v \<longrightarrow> Raw J v = [])"

lemma raw_nested_get:
  "raw_nested J \<Longrightarrow> k \<in> {''content'', ''output'', ''messages''} \<Longrightarrow> Exists J (Get J v k) \<Longrightarrow>
     length (Raw J (Get J v k)) < length (Raw J v)"
  unfolding raw_nested_def by blast

lemma raw_nested_elements:
  "raw_nested J \<Longrightarrow> IsArray J v \<Longrightarrow> e \<in> set (Elements J v) \<Longrightarrow> length (Raw J e) < length (Raw J v)"
  unfolding raw_nested_def by blast

lemma collect_content_total:
  assumes "raw_nested J"
  shows "0 < n \<Longrightarrow> Exists J c \<longrightarrow> Suc (length (Raw J c)) < n \<Longrightarrow>
           \<exists>ss. collect_content n J c = Some ss \<and> segments_ok ss"
proof (induction n arbitrary: c)
  case (Suc n)
  have rec: "\<exists>ss. concat_some (map (collect_content n J) es) = Some ss \<and> segments_ok ss"
    if "Exists J c" "\<And>e. e \<in> set es \<Longrightarrow> Exists J e \<Longrightarrow> length (Raw J e) < length (Raw J c)" for es
    using that Suc by (intro concat_some_total) fastforce
  show ?case
  proof (cases "Exists J c \<and> \<not> IsString J c \<and> \<not> IsArray J c \<and> IsObject J c")
    case True
    obtain own nested where cs: "content_segments J c = (own, nested)" by fastforce
    have "length (Raw J e) < length (Raw J c)" if "e \<in> set nested" "Exists J e" for e
      using content_nested [of e J c] that cs raw_nested_get [OF assms, of _ c] by auto
    then obtain ss where "concat_some (map (collect_content n J) nested) = Some ss" "segments_ok ss"
      using rec [of nested] True by auto
    with True cs segments_ok_content [of J c] show ?thesis by simp
  next
    case False
    then show ?thesis using rec [of "Elements J c"] raw_nested_elements [OF assms, of c] by auto
  qed
qed simp

lemma message_segments_total:
  assumes "raw_nested J" "Suc (length (Raw J v)) < n"
  shows "\<exists>ss. message_segments n J v = Some ss \<and> segments_ok ss"
proof (cases "IsArray J v")
  case True
  have "\<exists>ss. map_option ((@) (token_field J m ''role'')) (collect_content n J (Get J m ''content'')) = Some ss \<and>
          segments_ok ss" if "m \<in> set (Elements J v)" for m
  proof -
    have "Exists J (Get J m ''content'') \<longrightarrow> Suc (length (Raw J (Get J m ''content''))) < n"
      using raw_nested_get [OF assms(1), of "''content''" m] raw_nested_elements [OF assms(1) True that] assms(2)
      by auto
    then show ?thesis using collect_content_total [OF assms(1), of n] assms(2) by fastforce
  qed
  with True show ?thesis unfolding message_segments_def by (auto intro!: concat_some_total)
qed (simp add: message_segments_def)


lemma messages_length:
  assumes "raw_nested J"
  shows "length (Raw J (Get J (ParseBytes J p) ''messages'')) \<le> length p"
proof -
  have root: "length (Raw J (ParseBytes J p)) \<le> length p" and
    none: "\<not> Exists J (Get J (ParseBytes J p) ''messages'') \<Longrightarrow> Raw J (Get J (ParseBytes J p) ''messages'') = []"
    using assms unfolding raw_nested_def by blast+
  show ?thesis
    using root none raw_nested_get [OF assms, of "''messages''" "ParseBytes J p"]
    by (cases "Exists J (Get J (ParseBytes J p) ''messages'')") auto
qed

lemma token_segments_ok:
  assumes "raw_nested J" "Suc (length payload) < n"
  shows "\<exists>ss. token_segments n J payload = Some ss \<and> segments_ok ss"
proof -
  obtain ms where "message_segments n J (Get J (ParseBytes J payload) ''messages'') = Some ms" "segments_ok ms"
    using message_segments_total [OF assms(1)] messages_length [OF assms(1), of payload] assms(2)
    by (meson Suc_le_mono le_less_trans)
  then show ?thesis by (simp add: token_segments_def Let_def segs)
qed

lemma count_total:
  assumes "raw_nested J" "Suc (length payload) < n"
  shows "\<exists>r. countClaudeInputTokens n J codec payload = Some r"
  using token_segments_ok [OF assms] by (auto simp: countClaudeInputTokens_def split: sum.split)

text \<open>C33: \<open>token_segments_total\<close>. Counting the tokens of a request always returns: with a fuel two
  above the length of the payload the recursion over nested content ends, every segment it collects
  is trimmed and not empty, and the answer is 0 for a payload with nothing to count, an error for a
  payload that is not JSON, and otherwise the tokenizer's count (or its error) for the segments
  joined by line feeds.\<close>

theorem token_segments_total:
  assumes "raw_nested J" "Suc (length payload) < n"
  shows "\<exists>ss. token_segments n J payload = Some ss \<and> (\<forall>s \<in> set ss. s \<noteq> [] \<and> TrimSpace s = s) \<and>
           countClaudeInputTokens n J (Inr count) payload =
             Some (if TrimSpace payload = [] then Inr 0
                   else if \<not> ValidBytes J payload then Inl (ErrorText ''invalid Claude request JSON'')
                   else if ss = [] then Inr 0
                   else (case count (Join ss [CHR 0x0A]) of
                           Inl e \<Rightarrow> Inl (Wrap ''count Claude input tokens: '' e) | Inr k \<Rightarrow> Inr k))"
proof -
  obtain ss where "token_segments n J payload = Some ss" "segments_ok ss"
    using token_segments_ok [OF assms] by blast
  then show ?thesis by (intro exI [of _ ss]) (simp add: countClaudeInputTokens_def segments_ok_def)
qed

text \<open>A JSON library that knows the parts of one request with one user message.\<close>

definition one_message :: "string gjson" where
  "one_message =
     (let m = ''{\"content\":\" hi \"}''; ms = ''['' @ m @ '']''; p = ''{\"messages\":'' @ ms @ ''}'' in
      \<lparr> ValidBytes = (\<lambda>q. q = p), ParseBytes = (\<lambda>q. if q = p then p else []),
        Get = (\<lambda>v k. if v = p \<and> k = ''messages'' then ms
                      else if v = m \<and> k = ''content'' then ''\" hi \"'' else []),
        Exists = (\<lambda>v. v \<noteq> []), IsString = (\<lambda>v. v = ''\" hi \"''), IsArray = (\<lambda>v. v = ms),
        IsObject = (\<lambda>v. v = m \<or> v = p), StringOf = (\<lambda>v. if v = ''\" hi \"'' then '' hi '' else []),
        Raw = (\<lambda>v. v), Elements = (\<lambda>v. if v = ms then [m] else []) \<rparr>)"

lemma raw_nested_one_message: "raw_nested one_message"
  by (auto simp: raw_nested_def one_message_def Let_def)

lemma one_message_tokens:
  "token_segments 50 one_message ''{\"messages\":[{\"content\":\" hi \"}]}'' = Some [''hi'']"
  by code_simp

theorem token_segments_total_witness:
  "countClaudeInputTokens 50 one_message (Inr (\<lambda>s. Inr (int (length s)))) ''{\"messages\":[{\"content\":\" hi \"}]}''
     = Some (Inr 2)"
proof -
  have "ValidBytes one_message ''{\"messages\":[{\"content\":\" hi \"}]}''"
    "TrimSpace ''{\"messages\":[{\"content\":\" hi \"}]}'' \<noteq> []" "Join [''hi''] [CHR 0x0A] = ''hi''"
    by code_simp+
  then show ?thesis
    using token_segments_total [OF raw_nested_one_message, of "''{\"messages\":[{\"content\":\" hi \"}]}''" 50
        "\<lambda>s. Inr (int (length s))"] one_message_tokens
    by simp
qed

end
