(* ===== verification/Outgoing.thy ===== *)
theory Outgoing
  imports OAuth Stream_Pump
begin

text \<open>
  Where the provider sends its requests. A small calculus over the handlers (\<open>keeps\<close>) and the
  locale \<open>service_contract\<close>: what the handlers need to know of an invariant of the service, of the
  token entries it holds and of the calls it allows. In the locale every handler of the service is
  shown to keep the invariant and to make allowed calls only. The interpretation \<open>origins\<close> takes
  as invariant that the configuration is an accepted one and every token entry was issued by GitHub,
  as allowed calls the GitHub calls of such a configuration and the API calls with the token of such
  an entry, to the API base it was issued with.
\<close>

subsection \<open>Keeping an invariant\<close>

definition keeps :: "('s \<Rightarrow> bool) \<Rightarrow> ('s \<Rightarrow> 'a \<times> 's) \<Rightarrow> ('a \<Rightarrow> bool) \<Rightarrow> bool" where
  "keeps I f Q \<longleftrightarrow> (\<forall>s. I s \<longrightarrow> I (snd (f s)) \<and> Q (fst (f s)))"

definition ok_post :: "('a \<Rightarrow> bool) \<Rightarrow> 'a res \<Rightarrow> bool" where
  "ok_post Q r = (case r of Inl _ \<Rightarrow> True | Inr x \<Rightarrow> Q x)"

definition anything :: "'a \<Rightarrow> bool" where
  "anything x = True"

lemma anything [simp, intro!]: "anything x"
  by (simp add: anything_def)

lemma ok_post_simps [simp]: "ok_post Q (Inl e)" "ok_post Q (Inr x) = Q x"
  by (simp_all add: ok_post_def)

lemma keepsD: "keeps I f Q \<Longrightarrow> I s \<Longrightarrow> f s = (x, s') \<Longrightarrow> I s' \<and> Q x"
  by (auto simp: keeps_def)

lemma keepsI: "(\<And>s x s'. I s \<Longrightarrow> f s = (x, s') \<Longrightarrow> I s' \<and> Q x) \<Longrightarrow> keeps I f Q"
  by (metis keeps_def prod.collapse)

lemma keeps_weaken: "keeps I f Q \<Longrightarrow> (\<And>x. Q x \<Longrightarrow> R x) \<Longrightarrow> keeps I f R"
  by (auto simp: keeps_def)

lemma keeps_return [intro]: "Q x \<Longrightarrow> keeps I (return x) Q"
  by (simp add: keeps_def return_def)

lemma keeps_pair [intro]: "Q x \<Longrightarrow> keeps I (\<lambda>m. (x, m)) Q"
  by (simp add: keeps_def)

lemma keeps_step: "keeps I f Q \<Longrightarrow> (\<And>x. Q x \<Longrightarrow> keeps I (g x) R) \<Longrightarrow> keeps I (step f g) R"
  by (fastforce simp: keeps_def step_def split: prod.split)

lemma keeps_and_then:
  "keeps I f (ok_post Q) \<Longrightarrow> (\<And>x. Q x \<Longrightarrow> keeps I (g x) (ok_post R)) \<Longrightarrow> keeps I (and_then f g) (ok_post R)"
  by (fastforce simp: keeps_def and_then_def split: prod.split sum.split)

text \<open>The rules by the shape of a handler; a machine may be bound outside the case distinction.\<close>

lemma keeps_sum:
  "(\<And>e. r = Inl e \<Longrightarrow> keeps I (f e) Q) \<Longrightarrow> (\<And>x. r = Inr x \<Longrightarrow> keeps I (g x) Q) \<Longrightarrow>
     keeps I (\<lambda>m. case r of Inl e \<Rightarrow> f e m | Inr x \<Rightarrow> g x m) Q"
  by (cases r) simp_all

lemma keeps_option:
  "(r = None \<Longrightarrow> keeps I f Q) \<Longrightarrow> (\<And>x. r = Some x \<Longrightarrow> keeps I (g x) Q) \<Longrightarrow>
     keeps I (\<lambda>m. case r of None \<Rightarrow> f m | Some x \<Rightarrow> g x m) Q"
  by (cases r) simp_all

lemma keeps_if:
  "(b \<Longrightarrow> keeps I f Q) \<Longrightarrow> (\<not> b \<Longrightarrow> keeps I g Q) \<Longrightarrow> keeps I (\<lambda>m. if b then f m else g m) Q"
  by (cases b) simp_all

lemma keeps_prod: "(\<And>x y. p = (x, y) \<Longrightarrow> keeps I (f x y) Q) \<Longrightarrow> keeps I (\<lambda>m. case p of (x, y) \<Rightarrow> f x y m) Q"
  by (cases p) simp

lemma keeps_let: "keeps I (\<lambda>m. f x m) Q \<Longrightarrow> keeps I (\<lambda>m. let y = x in f y m) Q"
  by simp

text \<open>A handler that goes on with the result of another by a case distinction.\<close>

lemma keeps_run:
  "keeps I f (ok_post P) \<Longrightarrow> (\<And>e. keeps I (g e) Q) \<Longrightarrow> (\<And>x. P x \<Longrightarrow> keeps I (h x) Q) \<Longrightarrow>
     keeps I (\<lambda>m. case f m of (Inl e, m1) \<Rightarrow> g e m1 | (Inr x, m1) \<Rightarrow> h x m1) Q"
  by (fastforce simp: keeps_def ok_post_def split: prod.split sum.split)

lemma keeps_after: "(\<And>m. I m \<Longrightarrow> I (h m)) \<Longrightarrow> keeps I f Q \<Longrightarrow> keeps I (\<lambda>m. f (h m)) Q"
  by (simp add: keeps_def)

lemmas keeps_rules = keeps_sum keeps_option keeps_if keeps_prod keeps_let keeps_return keeps_pair

text \<open>A handler that may run for ever, or run out of fuel.\<close>

definition keeps_if_ends :: "('s \<Rightarrow> bool) \<Rightarrow> ('s \<Rightarrow> ('a \<times> 's) option) \<Rightarrow> ('a \<Rightarrow> bool) \<Rightarrow> bool" where
  "keeps_if_ends I f Q \<longleftrightarrow> (\<forall>s. I s \<longrightarrow> (case f s of None \<Rightarrow> True | Some (x, s') \<Rightarrow> I s' \<and> Q x))"

lemma ends_Some: "keeps I f Q \<Longrightarrow> keeps_if_ends I (\<lambda>m. Some (f m)) Q"
  by (simp add: keeps_def keeps_if_ends_def case_prod_unfold)

lemma ends_pair: "Q x \<Longrightarrow> keeps_if_ends I (\<lambda>m. Some (x, m)) Q"
  by (simp add: keeps_if_ends_def)

lemma ends_if:
  "(b \<Longrightarrow> keeps_if_ends I f Q) \<Longrightarrow> (\<not> b \<Longrightarrow> keeps_if_ends I g Q) \<Longrightarrow> keeps_if_ends I (\<lambda>m. if b then f m else g m) Q"
  by (cases b) simp_all

lemma ends_run:
  "keeps I f (ok_post P) \<Longrightarrow> (\<And>e. keeps_if_ends I (g e) Q) \<Longrightarrow> (\<And>x. P x \<Longrightarrow> keeps_if_ends I (h x) Q) \<Longrightarrow>
     keeps_if_ends I (\<lambda>m. case f m of (Inl e, m1) \<Rightarrow> g e m1 | (Inr x, m1) \<Rightarrow> h x m1) Q"
  unfolding keeps_def keeps_if_ends_def ok_post_def by (simp add: case_prod_unfold split: sum.splits)

lemma ends_map:
  "keeps_if_ends I f Q \<Longrightarrow> (\<And>x. Q x \<Longrightarrow> R (g x)) \<Longrightarrow> (\<And>x m. I m \<Longrightarrow> I (h x m)) \<Longrightarrow>
     keeps_if_ends I (\<lambda>m. map_option (\<lambda>(x, m1). (g x, h x m1)) (f m)) R"
  unfolding keeps_if_ends_def by (auto split: option.splits)

subsection \<open>The contract\<close>

text \<open>The calls a handler has made are part of the machine; the invariant is on both.\<close>

definition upheld :: "(Service \<Rightarrow> bool) \<Rightarrow> (host_call \<Rightarrow> bool) \<Rightarrow> 'w machine \<Rightarrow> bool" where
  "upheld good call_ok m \<longleftrightarrow> good (svc m) \<and> list_all call_ok (calls m)"

text \<open>The other goroutines keep the invariant, and a flight that is joined gives a good entry.\<close>

definition heeds :: "(Service \<Rightarrow> bool) \<Rightarrow> (copilotTokenEntry \<Rightarrow> bool) \<Rightarrow> 'w outside \<Rightarrow> bool" where
  "heeds good entry_ok E \<longleftrightarrow>
     (\<forall>w s. good s \<longrightarrow> good (fst (Others E w s))) \<and> (\<forall>f w. ok_post entry_ok (fst (AwaitFlight E f w)))"

text \<open>The URLs under GitHub, and those under the API base of a token; the latter with a raw call may
  also be any of the same scheme and host.\<close>

definition github_urls :: "Config \<Rightarrow> string set" where
  "github_urls c = {GitHubBaseURL c @ ''/login/device/code'', GitHubBaseURL c @ ''/login/oauth/access_token'',
     GitHubAPIURL c @ ''/copilot_internal/v2/token'', GitHubAPIURL c @ ''/user''}"

definition copilot_urls :: "copilotTokenEntry \<Rightarrow> string set" where
  "copilot_urls e = {APIBaseURL e @ ''/models'', APIBaseURL e @ ''/responses'', APIBaseURL e @ ''/chat/completions'',
     APIBaseURL e @ ''/v1/messages''}"

locale service_contract =
  fixes E :: "'w outside"
    and L :: lib
    and good :: "Service \<Rightarrow> bool"
    and cfg_ok :: "Config \<Rightarrow> bool"
    and entry_ok :: "copilotTokenEntry \<Rightarrow> bool"
    and call_ok :: "host_call \<Rightarrow> bool"
  assumes good_config: "good s \<Longrightarrow> cfg_ok (config s)"
    and good_entry: "good s \<Longrightarrow> tokenEntries s k = Some e \<Longrightarrow> entry_ok e"
    and set_config: "good s \<Longrightarrow> cfg_ok c \<Longrightarrow> good (s\<lparr>config := c\<rparr>)"
    and set_entry: "good s \<Longrightarrow> entry_ok e \<Longrightarrow> good (s\<lparr>tokenEntries := (tokenEntries s)(k \<mapsto> e)\<rparr>)"
    and drop_entry: "good s \<Longrightarrow> good (s\<lparr>tokenEntries := (tokenEntries s)(k := None)\<rparr>)"
    and clear_entries: "good s \<Longrightarrow> good (s\<lparr>tokenEntries := Map.empty\<rparr>)"
    and set_flights: "good s \<Longrightarrow> good (s\<lparr>tokenInflight := fs, nextFlight := n\<rparr>)"
    and set_models: "good s \<Longrightarrow> good (s\<lparr>modelEntries := ms\<rparr>)"
    and set_sessions: "good s \<Longrightarrow> good (s\<lparr>oauthSession := os\<rparr>)"
    and exchanged: "cfg_ok c \<Longrightarrow> DoHTTP E cb (exchange_request c tok) w = (Inr answer, w') \<Longrightarrow>
      read_token E L c fp tok answer m = (Inr e, m') \<Longrightarrow> entry_ok e"
    and call_github: "cfg_ok c \<Longrightarrow> URL r \<in> github_urls c \<Longrightarrow> call_ok (CallDo r)"
    and call_copilot: "entry_ok e \<Longrightarrow> map_of (Headers r) ''Authorization'' = Some [''Bearer '' @ Token e] \<Longrightarrow>
      URL r \<in> copilot_urls e \<Longrightarrow> call_ok (CallDo r) \<and> call_ok (CallOpen r)"
    and call_origin: "entry_ok e \<Longrightarrow> map_of (Headers r) ''Authorization'' = Some [''Bearer '' @ Token e] \<Longrightarrow>
      UrlParse L (APIBaseURL e) = Some base \<Longrightarrow> UrlParse L raw = Some target \<Longrightarrow>
      EqualFold (Scheme target) (Scheme base) \<Longrightarrow> EqualFold (Host target) (Host base) \<Longrightarrow>
      URL r = UrlString target \<Longrightarrow> call_ok (CallDo r)"
    and call_stream: "call_ok (CallRead sid)" "call_ok (CallClose sid)" "call_ok (CallEmit sid p)"
      "call_ok (CallCloseOutput sid p)"
begin

abbreviation "I \<equiv> upheld good call_ok"

lemma lock_I: "heeds good entry_ok E \<Longrightarrow> I m \<Longrightarrow> I (lock E m)"
  unfolding heeds_def upheld_def lock_def by (simp add: case_prod_unfold)

lemma keeps_locked:
  assumes "heeds good entry_ok E" "\<And>s. good s \<Longrightarrow> good (snd (f s)) \<and> Q (fst (f s))"
  shows "keeps I (locked E f) Q"
proof (rule keepsI)
  fix s :: "'w machine" and x s'
  assume "I s" "locked E f s = (x, s')"
  with lock_I [OF assms(1), of s] assms(2) [of "svc (lock E s)"]
  show "I s' \<and> Q x" by (auto simp: locked_def Let_def upheld_def split: prod.splits)
qed

lemma keeps_clock: "keeps I (clock E) anything"
  by (simp add: keeps_def clock_def upheld_def split: prod.split)

lemma keeps_random: "keeps I (random_hex E n) anything"
  by (simp add: keeps_def random_hex_def upheld_def split: prod.split)

lemma keeps_do: "call_ok (CallDo r) \<Longrightarrow> keeps I (host_do E cb r) anything"
  by (simp add: keeps_def host_do_def upheld_def split: prod.split)

lemma keeps_do_answer:
  "call_ok (CallDo r) \<Longrightarrow> keeps I (host_do E cb r) (ok_post (\<lambda>answer. \<exists>w w'. DoHTTP E cb r w = (Inr answer, w')))"
  by (auto simp: keeps_def host_do_def upheld_def ok_post_def split: prod.split sum.split)

lemma keeps_open: "call_ok (CallOpen r) \<Longrightarrow> keeps I (host_open E cb r) anything"
  by (simp add: keeps_def host_open_def upheld_def split: prod.split)

lemma keeps_read: "keeps I (host_read E sid) anything"
  by (simp add: keeps_def host_read_def upheld_def call_stream split: prod.split)

lemma keeps_emit: "keeps I (host_emit E sid p) anything"
  by (simp add: keeps_def host_emit_def upheld_def call_stream split: prod.split)

lemma close_I: "I m \<Longrightarrow> I (host_close E sid m)"
  by (simp add: host_close_def upheld_def call_stream)

lemma close_output_I: "I m \<Longrightarrow> I (host_close_output E sid p m)"
  by (simp add: host_close_output_def upheld_def call_stream)

lemma keeps_config: "heeds good entry_ok E \<Longrightarrow> keeps I (ServiceConfig E) cfg_ok"
  unfolding ServiceConfig_def by (rule keeps_locked) (simp_all add: good_config)

text \<open>The Copilot token.\<close>

lemma keeps_exchange:
  assumes E: "heeds good entry_ok E"
  shows "keeps I (exchangeCopilotToken E L cb fp tok) (ok_post entry_ok)"
  unfolding exchangeCopilotToken_def
proof (rule keeps_step [OF keeps_config [OF E]])
  fix cfg assume cfg: "cfg_ok cfg"
  have read: "keeps I (read_token E L cfg fp tok answer) (ok_post entry_ok)"
    if answer: "DoHTTP E cb (exchange_request cfg tok) w = (Inr answer, w')" for answer w w'
  proof (rule keepsI)
    fix m :: "'w machine" and r m'
    assume "I m" and r: "read_token E L cfg fp tok answer m = (r, m')"
    then have "svc m' = svc m"
      by (auto simp: read_token_def step_def clock_def Let_def split: if_splits option.splits prod.splits sum.splits)
    with read_token_sound [OF r] \<open>I m\<close> exchanged [OF cfg answer, of fp m] r
    show "I m' \<and> ok_post entry_ok r" by (auto simp: upheld_def ok_post_def split: sum.splits)
  qed
  have "call_ok (CallDo (exchange_request cfg tok))"
    by (rule call_github [OF cfg]) (simp add: exchange_request_def github_urls_def)
  from keeps_do_answer [OF this]
  show "keeps I (step (host_do E cb (exchange_request cfg tok)) (\<lambda>r m.
         case r of
           Inl e \<Rightarrow> (Inl (Wrap ''exchange GitHub OAuth token for Copilot token: '' e), m)
         | Inr resp \<Rightarrow> read_token E L cfg fp tok resp m)) (ok_post entry_ok)"
    by (rule keeps_step) (intro keeps_rules, simp, auto intro: read)
qed

lemma keeps_copilotToken:
  assumes E: "heeds good entry_ok E"
  shows "keeps I (copilotToken E L cb authID storage) (ok_post entry_ok)"
proof -
  define fp where "fp = tokenFingerprint L (GitHubAccessToken storage)"
  define key where "key = cache_key authID fp"
  let ?hit = "\<lambda>x. case x of CacheHit e \<Rightarrow> entry_ok e | _ \<Rightarrow> True"
  have enter: "keeps I (locked E (token_enter key fp now buffer)) ?hit" for now buffer
    by (rule keeps_locked [OF E])
      (auto simp: token_enter_def good_entry set_flights split: option.splits if_splits)
  have await: "keeps I (await_flight E f) (ok_post entry_ok)" for f
    using E by (auto simp: keeps_def await_flight_def upheld_def heeds_def case_prod_unfold)
  have leave: "keeps I (locked E (\<lambda>s. (r, token_leave key r s))) (ok_post entry_ok)" if "ok_post entry_ok r" for r
  proof (rule keeps_locked [OF E])
    fix s assume s: "good s"
    have "good (s\<lparr>tokenInflight := fs\<rparr>)" if "good s" for fs s
      using set_flights [OF that, where fs = fs and n = "nextFlight s"] by simp
    from this [of s] this [of "s\<lparr>tokenEntries := (tokenEntries s)(key \<mapsto> e)\<rparr>" for e] s that set_entry [OF s]
    show "good (snd (r, token_leave key r s)) \<and> ok_post entry_ok (fst (r, token_leave key r s))"
      by (cases r) (auto simp: token_leave_def)
  qed
  have goes: "keeps I (case x of CacheHit e \<Rightarrow> return (Inr e) | JoinFlight f \<Rightarrow> await_flight E f
      | LeadFlight f \<Rightarrow> step (exchangeCopilotToken E L cb fp (GitHubAccessToken storage))
          (\<lambda>r. locked E (\<lambda>s. (r, token_leave key r s)))) (ok_post entry_ok)" if "?hit x" for x
    using that by (cases x) (auto intro: await keeps_step [OF keeps_exchange [OF E] leave] keeps_return)
  show ?thesis
    unfolding copilotToken_def Let_def fp_def [symmetric] key_def [symmetric]
    by (rule keeps_step [OF keeps_config [OF E]], rule keeps_step [OF keeps_clock],
        rule keeps_step [OF enter], rule goes)
qed

lemma keeps_invalidate:
  assumes E: "heeds good entry_ok E"
  shows "keeps I (invalidateAuth E authID) anything"
  unfolding invalidateAuth_def Let_def
  by (rule keeps_step [where Q = anything]; rule keeps_locked [OF E]) (auto simp: drop_entry set_models)

text \<open>Calls with a token, repeated once.\<close>

lemma keeps_with_refresh:
  assumes E: "heeds good entry_ok E" and tok: "entry_ok token"
    and send: "\<And>t. entry_ok t \<Longrightarrow> keeps I (send t) anything" and discard: "\<And>r m. I m \<Longrightarrow> I (discard r m)"
  shows "keeps I (with_refresh E L cb authID storage send status discard msg1 msg2 token) (ok_post (\<lambda>(r, t). entry_ok t))"
proof -
  have again: "keeps I (step (send t) (\<lambda>second m. case second of Inl e \<Rightarrow> (Inl (Wrap msg2 e), m)
      | Inr r' \<Rightarrow> (Inr (r', t), m))) (ok_post (\<lambda>(r, t). entry_ok t))" if "entry_ok t" for t
    using that by (intro keeps_step [OF send] keeps_rules) auto
  have retry: "keeps I (\<lambda>m. step (invalidateAuth E authID) (\<lambda>_. and_then (copilotToken E L cb authID storage)
      (\<lambda>t. step (send t) (\<lambda>second m. case second of Inl e \<Rightarrow> (Inl (Wrap msg2 e), m)
      | Inr r' \<Rightarrow> (Inr (r', t), m)))) (discard r m)) (ok_post (\<lambda>(r, t). entry_ok t))" for r
    by (rule keeps_after [where h = "discard r"], rule discard, assumption, rule keeps_step [OF keeps_invalidate [OF E]],
        rule keeps_and_then [OF keeps_copilotToken [OF E] again])
  show ?thesis
    unfolding with_refresh_def
    by (rule keeps_step [OF send [OF tok]]) (intro keeps_rules retry; simp add: tok)
qed

text \<open>The headers of an API call carry the token.\<close>

lemma copilotHeaders_token: "map_of (fst (copilotHeaders E token streamed m)) ''Authorization'' = Some [''Bearer '' @ token]"
proof -
  have "CanonicalHeaderKey ''Accept'' \<noteq> ''Authorization''" "CanonicalHeaderKey ''Authorization'' = ''Authorization''"
    "CanonicalHeaderKey ''Content-Type'' \<noteq> ''Authorization''" "CanonicalHeaderKey ''Copilot-Integration-Id'' \<noteq> ''Authorization''"
    "CanonicalHeaderKey ''Editor-Plugin-Version'' \<noteq> ''Authorization''" "CanonicalHeaderKey ''Editor-Version'' \<noteq> ''Authorization''"
    "CanonicalHeaderKey ''OpenAI-Intent'' \<noteq> ''Authorization''" "CanonicalHeaderKey ''User-Agent'' \<noteq> ''Authorization''"
    "CanonicalHeaderKey ''X-Agent-Task-Id'' \<noteq> ''Authorization''" "CanonicalHeaderKey ''X-GitHub-Api-Version'' \<noteq> ''Authorization''"
    "CanonicalHeaderKey ''X-Initiator'' \<noteq> ''Authorization''" "CanonicalHeaderKey ''X-Interaction-Type'' \<noteq> ''Authorization''"
    "CanonicalHeaderKey ''X-Request-Id'' \<noteq> ''Authorization''"
    by code_simp+
  then show ?thesis
    by (simp add: copilotHeaders_def step_def return_def header_list_def map_of_SetHeader eq_commute [of "''Authorization''"] split: prod.split)
qed

lemma keeps_headers:
  "keeps I (copilotHeaders E token streamed) (\<lambda>h. map_of h ''Authorization'' = Some [''Bearer '' @ token])"
proof (rule keepsI)
  fix m :: "'w machine" and h m'
  assume m: "I m" and h: "copilotHeaders E token streamed m = (h, m')"
  have "keeps I (copilotHeaders E token streamed) anything"
    unfolding copilotHeaders_def randomIdentifier_def
    by (rule keeps_step [OF keeps_random]) (intro keeps_rules, simp)
  with m h copilotHeaders_token [of token streamed m]
  show "I m' \<and> map_of h ''Authorization'' = Some [''Bearer '' @ token]" by (auto dest: keepsD)
qed

lemma keeps_ask_models: "entry_ok t \<Longrightarrow> keeps I (ask_models E cb t) anything"
  unfolding ask_models_def
  by (rule keeps_step [OF keeps_headers], rule keeps_do)
    (use call_copilot [of t] in \<open>simp add: model_list_request_def copilot_urls_def\<close>)

abbreviation "endpoints \<equiv> {EndpointResponses, EndpointChatCompletions, EndpointMessages}"

lemma model_request_url: "endpoint \<in> endpoints \<Longrightarrow> URL (model_request endpoint body t h) \<in> copilot_urls t"
  by (auto simp: model_request_def copilot_urls_def EndpointResponses_def EndpointChatCompletions_def EndpointMessages_def)

lemma keeps_send_model:
  "endpoint \<in> endpoints \<Longrightarrow> entry_ok t \<Longrightarrow> keeps I (send_model E cb endpoint body streamed t) anything"
  unfolding send_model_def
  by (rule keeps_step [OF keeps_headers], rule keeps_do)
    (use call_copilot [of t] model_request_url in \<open>simp add: model_request_def\<close>)

lemma keeps_open_model:
  "endpoint \<in> endpoints \<Longrightarrow> entry_ok t \<Longrightarrow> keeps I (open_model E cb endpoint body t) anything"
  unfolding open_model_def
  by (rule keeps_step [OF keeps_headers], rule keeps_open)
    (use call_copilot [of t] model_request_url in \<open>simp add: model_request_def\<close>)

lemma keeps_models:
  assumes E: "heeds good entry_ok E"
  shows "keeps I (models E L cb authID storage force) (ok_post (\<lambda>(ms, t). entry_ok t))"
proof -
  let ?Q = "ok_post (\<lambda>(ms, t). entry_ok t)"
  have store: "keeps I (store_models E key fp now t cleaned) anything" for key fp now t cleaned
    unfolding store_models_def
    by (rule keeps_step [OF keeps_config [OF E]], rule keeps_locked [OF E]) (simp add: set_models)
  have read: "keeps I (read_models E key fp now storage (resp, t)) ?Q" if t: "entry_ok t" for key fp now resp t
    unfolding read_models_def prod.case
    by (intro keeps_rules keeps_step [OF keeps_config [OF E]] keeps_step [OF store]) (simp_all add: t)
  have fetch: "keeps I (fetch_models E L cb authID storage key fp now t) ?Q" if t: "entry_ok t" for key fp now t
    unfolding fetch_models_def
    by (rule keeps_and_then [OF keeps_with_refresh [OF E t keeps_ask_models]]) (auto simp: read)
  have look: "keeps I (if force then return None else locked E (\<lambda>s. (modelEntries s key, s))) anything" for key
    by (auto intro!: keeps_return keeps_locked [OF E])
  show ?thesis
    unfolding models_def Let_def
    by (rule keeps_and_then [OF keeps_copilotToken [OF E]], rule keeps_step [OF keeps_clock],
        rule keeps_step [OF look]) (auto split: option.split intro!: keeps_return fetch)
qed

lemma keeps_endpoint:
  assumes E: "heeds good entry_ok E"
  shows "keeps I (endpointForModel E L cb authID storage model fmt) (ok_post (\<lambda>(endpoint, t). entry_ok t))"
proof -
  let ?Q = "ok_post (\<lambda>(endpoint, t). entry_ok t)"
  have special: "keeps I (and_then (copilotToken E L cb authID storage) (\<lambda>t. return (Inr (endpoint, t)))) ?Q"
    for endpoint :: string
    by (rule keeps_and_then [OF keeps_copilotToken [OF E]]) (simp add: keeps_return)
  show ?thesis
    unfolding endpointForModel_def Let_def
    by (intro keeps_rules keeps_run [OF keeps_models [OF E]] special) auto
qed

lemma keeps_models_for_auth:
  assumes E: "heeds good entry_ok E"
  shows "keeps I (ModelsForAuth E L cb authID raw) anything"
  unfolding ModelsForAuth_def
  by (intro keeps_rules keeps_and_then [OF keeps_models [OF E], where R = anything, THEN keeps_weaken])
    (auto intro: keeps_return)

text \<open>Requests to a model.\<close>

lemma keeps_doModelRequest:
  assumes E: "heeds good entry_ok E" and t: "endpoint \<in> endpoints" "entry_ok t"
  shows "keeps I (doModelRequest E L cb authID storage t endpoint body streamed) (ok_post (\<lambda>(resp, t). entry_ok t))"
  unfolding doModelRequest_def
  by (rule keeps_and_then [OF keeps_with_refresh [OF E t(2) keeps_send_model [OF t(1)]]]) (auto intro!: keeps_return)

lemma keeps_openModelStream:
  assumes E: "heeds good entry_ok E" and t: "endpoint \<in> endpoints" "entry_ok t"
  shows "keeps I (openModelStream E L cb authID storage t endpoint body) (ok_post (\<lambda>(up, t). entry_ok t))"
  unfolding openModelStream_def
  by (rule keeps_with_refresh [OF E t(2) keeps_open_model [OF t(1)]]) (simp_all add: close_I)

lemma routed_endpoint:
  "RequestForEndpointFrom sdk source model body streamed endpoint = Inr translated \<Longrightarrow> endpoint \<in> endpoints"
  by (auto simp: RequestForEndpointFrom_def endpointFormat_def split: sum.splits if_splits)

lemma keeps_prepare:
  assumes E: "heeds good entry_ok E"
  shows "keeps I (prepare E L sdk streamed req) (ok_post (\<lambda>(storage, endpoint, t, body). endpoint \<in> endpoints \<and> entry_ok t))"
  unfolding prepare_def
  by (intro keeps_rules keeps_and_then [OF keeps_endpoint [OF E]])
    (auto intro!: keeps_return simp: ok_post_def dest: routed_endpoint split: sum.split)

lemma keeps_Execute:
  assumes E: "heeds good entry_ok E"
  shows "keeps I (Execute E L sdk req) anything"
proof (rule keeps_weaken [where Q = "ok_post anything"])
  show "keeps I (Execute E L sdk req) (ok_post anything)"
    unfolding Execute_def
    by (rule keeps_and_then [OF keeps_prepare [OF E]])
      (auto simp del: insert_iff intro!: keeps_and_then [OF keeps_doModelRequest [OF E]] keeps_return simp: ok_post_def split: sum.split)
qed simp

text \<open>Reading a stream to its end.\<close>

lemma collect_loop_I:
  assumes "collect_loop E sid body m = Some y" "I m"
  shows "I (snd y)"
proof -
  have "E' = E \<longrightarrow> I m \<longrightarrow> I (snd y)" if "collect_loop E' sid body m = Some y" for E'
  proof (rule collect_loop.raw_induct [where P = "\<lambda>E' sid body m y. E' = E \<longrightarrow> I m \<longrightarrow> I (snd y)", OF _ that], goal_cases step)
    case (step rec E' sid body m y)
    show ?case
    proof (intro impI)
      assume E': "E' = E" and "I m"
      obtain q m1 where read: "host_read E sid m = (q, m1)" by fastforce
      then have "I m1" using keepsD [OF keeps_read \<open>I m\<close> read] by blast
      with step read E' show "I (snd y)"
        by (cases q) (auto split: if_splits)
    qed
  qed
  with assms show ?thesis by blast
qed

lemma ends_collect: "keeps_if_ends I (collectStreamError E up) anything"
  unfolding collectStreamError_def
  by (rule ends_map [where Q = anything])
    (auto simp: keeps_if_ends_def close_I split: option.split dest: collect_loop_I)

lemma adds_I: "adds P m m' \<Longrightarrow> (\<And>c. P c \<Longrightarrow> call_ok c) \<Longrightarrow> I m \<Longrightarrow> I m'"
  by (auto simp: adds_def upheld_def list_all_iff)

lemma run_job_I:
  assumes "run_job E L order sdk job m = Some m'" "I m"
  shows "I m'"
proof -
  obtain a b where loop: "pump_loop E (StreamFromEndpoint order sdk (JobEndpoint job) (JobDestination job) (JobModel job)
      (JobOriginal job) (JobTranslated job)) (StreamID (JobUpstream job)) (JobStreamID job) new_decoder NilAny m = Some (a, b)"
    and m': "m' = host_close_output E (JobStreamID job) (case a of None \<Rightarrow> [] | Some e \<Rightarrow> Text (ErrorString L e) [])
      (host_close E (StreamID (JobUpstream job)) b)"
    using assms(1) by (auto simp: run_job_def pumpStream_def)
  have "adds (pumping (StreamID (JobUpstream job)) (JobStreamID job)) m b"
    using adds_pump_loop [OF loop] by simp
  then have "I b"
    by (rule adds_I [OF _ _ assms(2)]) (auto simp: pumping_def call_stream)
  with m' show ?thesis by (simp add: close_I close_output_I)
qed

lemma ends_ExecuteStream:
  assumes E: "heeds good entry_ok E"
  shows "keeps_if_ends I (ExecuteStream E L sdk req) anything"
proof -
  have pump: "keeps_if_ends I (start_pump E L req storage endpoint body opened) anything" for storage endpoint body opened
    unfolding start_pump_def
    by (cases opened) (auto intro!: ends_if ends_pair ends_map [OF ends_collect])
  show ?thesis
    unfolding ExecuteStream_def
    by (intro ends_if ends_pair ends_run [OF keeps_prepare [OF E]])
      (auto intro!: ends_pair ends_run [OF keeps_openModelStream [OF E]] pump)
qed

text \<open>The raw call.\<close>

lemma keeps_HTTP:
  assumes E: "heeds good entry_ok E"
  shows "keeps I (HTTP E L req) anything"
proof (rule keeps_weaken [where Q = "ok_post anything"])
  have forward: "keeps I (forward_http E L req t) (ok_post anything)" if t: "entry_ok t" for t
    unfolding forward_http_def
    by (intro keeps_rules keeps_and_then [where Q = anything] keeps_do [THEN keeps_weaken])
      (auto simp: ok_post_def same_origin_def api_request_sel intro: call_origin [OF t] split: sum.split)
  show "keeps I (HTTP E L req) (ok_post anything)"
    unfolding HTTP_def
    by (intro keeps_rules keeps_and_then [OF keeps_copilotToken [OF E] forward]) auto
qed simp

text \<open>Logging in and refreshing.\<close>

lemma form_ok: "cfg_ok cfg \<Longrightarrow> url \<in> github_urls cfg \<Longrightarrow> call_ok (CallDo (form_request L url form))"
  by (rule call_github) (simp_all add: form_request_def)

lemma keeps_StartLogin:
  assumes E: "heeds good entry_ok E"
  shows "keeps I (StartLogin E L cb) anything"
proof -
  have "keeps I (open_session E L cfg device) anything" for cfg device
  proof -
    have "keeps I (step (clock E) (\<lambda>now. step
        (locked E (\<lambda>s. ((), s\<lparr>oauthSession := (oauthSession s)(state \<mapsto> new_session cfg device now)\<rparr>))) (\<lambda>_. return (r now)))) anything"
      for state and r :: "time \<Rightarrow> loginStart res"
      by (rule keeps_step [OF keeps_clock], rule keeps_step [where Q = anything], rule keeps_locked [OF E])
        (auto simp: set_sessions intro: keeps_return)
    then show ?thesis
      unfolding open_session_def randomIdentifier_def
      by (intro keeps_rules keeps_run [OF keeps_random [THEN keeps_weaken, where R = "ok_post anything"]])
        (simp_all add: ok_post_def split: sum.split)
  qed
  moreover have "call_ok (CallDo (device_code_request L cfg))" if "cfg_ok cfg" for cfg
    using form_ok [OF that] by (simp add: device_code_request_def github_urls_def)
  ultimately show ?thesis
    unfolding StartLogin_def
    by (intro keeps_step [OF keeps_config [OF E]] keeps_rules keeps_step [OF keeps_do]) simp_all
qed

lemma keeps_finishPoll:
  assumes E: "heeds good entry_ok E"
  shows "keeps I (finishPoll E state interval terminal) anything"
proof (rule keepsI)
  fix m :: "'w machine" and x m'
  assume "I m" and run: "finishPoll E state interval terminal m = (x, m')"
  then have lock: "I (lock E m)" using lock_I [OF E] by blast
  have fin: "good (poll_finish state interval b now s)" if "good s" for b now s
    using that by (simp add: poll_finish_def set_sessions split: option.split)
  have "upheld good call_ok (m2\<lparr>svc := poll_finish state interval b now (svc m2)\<rparr>)" if "I m2" for m2 :: "'w machine" and b now
    using that fin by (simp add: upheld_def)
  with lock run show "I m' \<and> anything x"
    using keepsD [OF keeps_clock lock]
    by (auto simp: finishPoll_def Let_def step_def split: if_splits prod.splits)
qed

lemma keeps_authData: "keeps I (authData_now E storage i f meta attrs) anything"
  unfolding authData_now_def by (rule keeps_step [OF keeps_clock]) (simp add: keeps_return)

lemma keeps_fetch_user:
  assumes E: "heeds good entry_ok E"
  shows "keeps I (fetchGitHubUser E cb tok) (ok_post anything)"
  unfolding fetchGitHubUser_def
proof (rule keeps_step [OF keeps_config [OF E]])
  fix cfg assume "cfg_ok cfg"
  then have "call_ok (CallDo (user_request cfg tok))"
    by (rule call_github) (simp add: user_request_def github_urls_def)
  then show "keeps I (step (host_do E cb (user_request cfg tok)) (\<lambda>r. return (f r))) (ok_post anything)" for f :: "_ \<Rightarrow> 'r res"
    by (intro keeps_step [OF keeps_do] keeps_return) (simp_all add: ok_post_def split: sum.split)
qed

lemma keeps_PollLogin:
  assumes E: "heeds good entry_ok E"
  shows "keeps I (PollLogin E L cb state0) anything"
proof -
  note finish = keeps_step [OF keeps_finishPoll [OF E] keeps_return]
  have status: "keeps I (\<lambda>m. case st of LoginPending \<Rightarrow> f m | LoginSuccess \<Rightarrow> g m | LoginFailed \<Rightarrow> h m) anything"
    if "keeps I f anything" "keeps I g anything" "keeps I h anything" for st and f g h :: "'w machine \<Rightarrow> pollResponse res \<times> 'w machine"
    using that by (cases st) simp_all
  have complete: "keeps I (complete_login E cb state session token) anything" for state session token
    unfolding complete_login_def
    by (intro keeps_run [OF keeps_fetch_user [OF E]] finish keeps_step [OF keeps_clock] keeps_step [OF keeps_authData]) simp_all
  have answer: "keeps I (poll_answer E cb state session r) anything" for state session r
    unfolding poll_answer_def Let_def
    by (intro keeps_rules status finish complete) simp_all
  have enter: "keeps I (locked E (poll_enter state now)) anything" for state now
    by (rule keeps_locked [OF E]) (auto simp: poll_enter_def set_sessions split: option.split)
  have req: "call_ok (CallDo (poll_request L cfg session))" if "cfg_ok cfg" for cfg session
    using form_ok [OF that] by (simp add: poll_request_def github_urls_def)
  show ?thesis
    unfolding PollLogin_def Let_def
    by (rule keeps_step [OF keeps_clock], rule keeps_step [OF enter])
      (auto split: poll_entered.split intro!: keeps_return keeps_step [OF keeps_config [OF E]] keeps_step [OF keeps_do [OF req]] answer)
qed

lemma keeps_RefreshAuth:
  assumes E: "heeds good entry_ok E"
  shows "keeps I (RefreshAuth E L cb authID raw meta attrs) anything"
proof -
  note data = keeps_step [OF keeps_authData keeps_return]
  have answer: "keeps I (refresh_answer E authID meta attrs storage now r) anything" for storage now r
    unfolding refresh_answer_def
    by (intro keeps_rules keeps_step [OF keeps_invalidate [OF E]] data) simp_all
  have req: "call_ok (CallDo (refresh_request L cfg c tok))" if "cfg_ok cfg" for cfg c tok
    using form_ok [OF that] by (simp add: refresh_request_def github_urls_def)
  have client: "keeps I (if c then return d else step (ServiceConfig E) (\<lambda>cfg. return (GitHubClientID cfg))) anything" for c d
    by (auto intro!: keeps_return keeps_step [OF keeps_config [OF E]])
  show ?thesis
    unfolding RefreshAuth_def
    by (intro keeps_rules keeps_step [OF keeps_clock] data keeps_step [OF client] keeps_step [OF keeps_config [OF E]]
        keeps_step [OF keeps_do [OF req]] answer) simp_all
qed

lemma keeps_ParseAuth: "keeps I (ParseAuth E provider file raw) anything"
  unfolding ParseAuth_def Let_def
  by (intro keeps_rules keeps_step [OF keeps_authData]) simp_all

text \<open>Configuration and shutdown.\<close>

lemma keeps_Configure:
  assumes E: "heeds good entry_ok E" and parsed: "\<And>cfg. ParseConfig L yaml order raw = Inr cfg \<Longrightarrow> cfg_ok cfg"
  shows "keeps I (Configure L yaml order E raw) anything"
  unfolding Configure_def
  by (intro keeps_rules) (auto intro!: keeps_step [where Q = anything] keeps_locked [OF E] simp: set_config set_models dest: parsed)

lemma keeps_Shutdown:
  assumes E: "heeds good entry_ok E"
  shows "keeps I (Shutdown E) anything"
  unfolding Shutdown_def
  by (rule keeps_step [where Q = anything], rule keeps_locked [OF E], simp add: set_sessions,
      rule keeps_step [where Q = anything]; rule keeps_locked [OF E]) (simp_all add: clear_entries set_models)

end

subsection \<open>The origins of requests\<close>

text \<open>The configurations are those \<open>acc\<close> accepts; their base URLs are safe, with plain HTTP only if \<open>b\<close>.\<close>

definition safe_config :: "lib \<Rightarrow> bool \<Rightarrow> (Config \<Rightarrow> bool) \<Rightarrow> Config \<Rightarrow> bool" where
  "safe_config L b acc c \<longleftrightarrow> acc c \<and> (AllowInsecureBaseURLs c \<longrightarrow> b) \<and>
     safe_base L b (GitHubBaseURL c) \<and> safe_base L b (GitHubAPIURL c) \<and> safe_base L b (CopilotAPIURL c)"

text \<open>An entry GitHub issued: the host answered an exchange request, which goes to the GitHub API of an
  accepted configuration; the token is the one of that answer, and the API base is that of the same
  answer or, without one, that of the same configuration.\<close>

definition issued :: "'w outside \<Rightarrow> (Config \<Rightarrow> bool) \<Rightarrow> copilotTokenEntry \<Rightarrow> bool" where
  "issued E acc e \<longleftrightarrow>
     (\<exists>cfg cb githubToken w answer w' decoded.
        acc cfg \<and> DoHTTP E cb (exchange_request cfg githubToken) w = (Inr answer, w') \<and> ok_status (StatusCode answer) \<and>
        unmarshal token_response_fields (RespBody answer) empty_token_response = Some decoded \<and>
        Token e = TrimSpace (ResponseToken decoded) \<and> Token e \<noteq> [] \<and>
        APIBaseURL e = (if clean_url (text_at (Endpoints decoded) ''api'') = [] then CopilotAPIURL cfg
                        else clean_url (text_at (Endpoints decoded) ''api'')))"

definition safe_entry :: "'w outside \<Rightarrow> lib \<Rightarrow> bool \<Rightarrow> (Config \<Rightarrow> bool) \<Rightarrow> copilotTokenEntry \<Rightarrow> bool" where
  "safe_entry E L b acc e \<longleftrightarrow> issued E acc e \<and> safe_base L b (APIBaseURL e)"

definition safe_service :: "'w outside \<Rightarrow> lib \<Rightarrow> bool \<Rightarrow> (Config \<Rightarrow> bool) \<Rightarrow> Service \<Rightarrow> bool" where
  "safe_service E L b acc s \<longleftrightarrow>
     safe_config L b acc (config s) \<and> (\<forall>k e. tokenEntries s k = Some e \<longrightarrow> safe_entry E L b acc e)"

text \<open>A call to GitHub has one of four URLs, under the base URLs of an accepted configuration.\<close>

definition github_call :: "lib \<Rightarrow> bool \<Rightarrow> (Config \<Rightarrow> bool) \<Rightarrow> http_request \<Rightarrow> bool" where
  "github_call L b acc r \<longleftrightarrow>
     (\<exists>cfg. acc cfg \<and> safe_base L b (GitHubBaseURL cfg) \<and> safe_base L b (GitHubAPIURL cfg) \<and> URL r \<in> github_urls cfg)"

text \<open>A call to the API carries the token of an entry. Its URL is one of four under the API base of that
  same entry, or that of a URL the library parsed and that has scheme and host of this base.\<close>

definition copilot_call :: "'w outside \<Rightarrow> lib \<Rightarrow> bool \<Rightarrow> (Config \<Rightarrow> bool) \<Rightarrow> http_request \<Rightarrow> bool" where
  "copilot_call E L b acc r \<longleftrightarrow>
     (\<exists>e. issued E acc e \<and> safe_base L b (APIBaseURL e) \<and>
        map_of (Headers r) ''Authorization'' = Some [''Bearer '' @ Token e] \<and>
        (URL r \<in> copilot_urls e \<or>
         (\<exists>raw target base. UrlParse L raw = Some target \<and> UrlParse L (APIBaseURL e) = Some base \<and>
            EqualFold (Scheme target) (Scheme base) \<and> EqualFold (Host target) (Host base) \<and>
            URL r = UrlString target)))"

definition safe_call :: "'w outside \<Rightarrow> lib \<Rightarrow> bool \<Rightarrow> (Config \<Rightarrow> bool) \<Rightarrow> host_call \<Rightarrow> bool" where
  "safe_call E L b acc c =
     (case c of
        CallDo r \<Rightarrow> github_call L b acc r \<or> copilot_call E L b acc r
      | CallOpen r \<Rightarrow> copilot_call E L b acc r
      | _ \<Rightarrow> True)"

lemma safe_base_mono: "safe_base L a u \<Longrightarrow> (a \<longrightarrow> b) \<Longrightarrow> safe_base L b u"
  by (auto simp: safe_base_def)

lemma sound_config_safe: "sound_config L c \<Longrightarrow> acc c \<Longrightarrow> (AllowInsecureBaseURLs c \<longrightarrow> b) \<Longrightarrow> safe_config L b acc c"
  by (auto simp: sound_config_def safe_config_def elim: safe_base_mono)

lemma safe_call_simps [simp]:
  "safe_call E L b acc (CallDo r) = (github_call L b acc r \<or> copilot_call E L b acc r)"
  "safe_call E L b acc (CallOpen r) = copilot_call E L b acc r"
  "safe_call E L b acc (CallRead sid)" "safe_call E L b acc (CallClose sid)" "safe_call E L b acc (CallEmit sid p)"
  "safe_call E L b acc (CallCloseOutput sid p)"
  by (simp_all add: safe_call_def)

lemma copilotAPIBase_source:
  "copilotAPIBase L endpoints cfg = Inr base \<Longrightarrow>
     base = (if clean_url (text_at endpoints ''api'') = [] then CopilotAPIURL cfg else clean_url (text_at endpoints ''api''))"
  by (auto simp: copilotAPIBase_def Let_def split: option.splits if_splits)

lemma read_token_issued:
  assumes cfg: "safe_config L b acc cfg" and answer: "DoHTTP E cb (exchange_request cfg tok) w = (Inr answer, w')"
    and read: "read_token E L cfg fp tok answer m = (Inr e, m')"
  shows "safe_entry E L b acc e"
proof -
  obtain decoded where d: "ok_status (StatusCode answer)"
    "unmarshal token_response_fields (RespBody answer) empty_token_response = Some decoded"
    "Token e = TrimSpace (ResponseToken decoded)" "Token e \<noteq> []" "copilotAPIBase L (Endpoints decoded) cfg = Inr (APIBaseURL e)"
    using read by (auto simp: read_token_def step_def Let_def split: if_splits option.splits prod.splits sum.splits)
  have "safe_base L b (APIBaseURL e)"
    using copilotAPIBase_safe [OF d(5)] cfg by (auto simp: safe_config_def elim: safe_base_mono)
  with d(1-4) copilotAPIBase_source [OF d(5)] cfg answer show ?thesis
    unfolding safe_entry_def issued_def safe_config_def by blast
qed

interpretation origins: service_contract E L "safe_service E L b acc" "safe_config L b acc" "safe_entry E L b acc"
    "safe_call E L b acc"
  for E L b acc
proof (unfold_locales, goal_cases)
  case (10 c cb tok w answer w' fp m e m')
  then show ?case by (rule read_token_issued)
next
  case (11 c r)
  then show ?case by (auto simp: safe_config_def github_call_def)
next
  case (12 e r)
  then show ?case by (auto simp: safe_entry_def copilot_call_def)
next
  case (13 e r base raw target)
  then show ?case by (auto simp: safe_entry_def copilot_call_def)
qed (auto simp: safe_service_def)

end
