(* ===== verification/Go_Base64.thy ===== *)
theory Go_Base64
  imports Go_Struct
begin

text \<open>
  The package encoding/base64 (\<open>StdEncoding\<close>), which encoding/json uses for values of type
  \<open>[]byte\<close>, and header maps as JSON.
\<close>

definition b64_char :: "nat \<Rightarrow> char" where
  "b64_char n =
     (if n < 26 then char_of (65 + n)
      else if n < 52 then char_of (71 + n)
      else if n < 62 then char_of (n - 4)
      else if n = 62 then CHR ''+'' else CHR ''/'')"

definition b64_val :: "char \<Rightarrow> nat option" where
  "b64_val c =
     (let n = byte c in
      if 65 \<le> n \<and> n \<le> 90 then Some (n - 65)
      else if 97 \<le> n \<and> n \<le> 122 then Some (n - 71)
      else if 48 \<le> n \<and> n \<le> 57 then Some (n + 4)
      else if c = CHR ''+'' then Some 62
      else if c = CHR ''/'' then Some 63 else None)"

fun b64_encode :: "string \<Rightarrow> string" where
  "b64_encode [] = []"
| "b64_encode [a] = [b64_char (byte a div 4), b64_char (byte a mod 4 * 16), CHR ''='', CHR ''='']"
| "b64_encode [a, b] =
     [b64_char (byte a div 4), b64_char (byte a mod 4 * 16 + byte b div 16), b64_char (byte b mod 16 * 4), CHR ''='']"
| "b64_encode (a # b # c # r) =
     b64_char (byte a div 4) # b64_char (byte a mod 4 * 16 + byte b div 16) #
     b64_char (byte b mod 16 * 4 + byte c div 64) # b64_char (byte c mod 64) # b64_encode r"

text \<open>Padding ends the input, the bits it leaves over are ignored, and line breaks are skipped.\<close>

fun b64_quanta :: "string \<Rightarrow> string option" where
  "b64_quanta [] = Some []"
| "b64_quanta (a # b # c # d # r) =
     (case (b64_val a, b64_val b, b64_val c, b64_val d) of
        (Some x, Some y, Some z, Some w) \<Rightarrow>
          map_option (\<lambda>t. char_of (x * 4 + y div 16) # char_of (y mod 16 * 16 + z div 4) # char_of (z mod 4 * 64 + w) # t)
            (b64_quanta r)
      | (Some x, Some y, Some z, None) \<Rightarrow>
          if d = CHR ''='' \<and> r = [] then Some [char_of (x * 4 + y div 16), char_of (y mod 16 * 16 + z div 4)] else None
      | (Some x, Some y, None, None) \<Rightarrow>
          if c = CHR ''='' \<and> d = CHR ''='' \<and> r = [] then Some [char_of (x * 4 + y div 16)] else None
      | _ \<Rightarrow> None)"
| "b64_quanta _ = None"

definition b64_decode :: "string \<Rightarrow> string option" where
  "b64_decode s = b64_quanta (filter (\<lambda>c. c \<noteq> CHR 0x0A \<and> c \<noteq> CHR 0x0D) s)"

lemma b64_val_char [simp]: "n < 64 \<Longrightarrow> b64_val (b64_char n) = Some n"
proof -
  assume n: "n < 64"
  consider "n < 26" | "26 \<le> n" "n < 52" | "52 \<le> n" "n < 62" | "n = 62" | "n = 63" using n by linarith
  then show ?thesis by cases (auto simp: b64_char_def b64_val_def byte_def Let_def)
qed

lemma byte_b64_char: "n < 64 \<Longrightarrow> 43 \<le> byte (b64_char n)"
  by (auto simp: b64_char_def byte_def)

lemma b64_char_visible [simp]: "n < 64 \<Longrightarrow> b64_char n \<noteq> CHR 0x0A \<and> b64_char n \<noteq> CHR 0x0D"
  using byte_b64_char [of n] by (auto simp: byte_def)

lemma b64_val_pad [simp]: "b64_val (CHR ''='') = None"
  by (simp add: b64_val_def byte_def)

text \<open>The four sextets of three bytes and back.\<close>

lemma sextets:
  fixes a b c :: nat
  assumes "a < 256" "b < 256" "c < 256"
  shows "a div 4 < 64" "a mod 4 * 16 + b div 16 < 64" "b mod 16 * 4 + c div 64 < 64" "c mod 64 < 64"
    "a div 4 * 4 + (a mod 4 * 16 + b div 16) div 16 = a"
    "(a mod 4 * 16 + b div 16) mod 16 * 16 + (b mod 16 * 4 + c div 64) div 4 = b"
    "(b mod 16 * 4 + c div 64) mod 4 * 64 + c mod 64 = c"
proof -
  have small: "a div 4 < 64" "b div 16 < 16" "c div 64 < 4" using assms by simp_all
  have four: "(x * 4 + u) div 4 = x" "(x * 4 + u) mod 4 = u" if "u < 4" for x u :: nat using that by simp_all
  have sixteen: "(x * 16 + u) div 16 = x" "(x * 16 + u) mod 16 = u" if "u < 16" for x u :: nat using that by simp_all
  have mods: "a mod 4 < 4" "b mod 16 < 16" by simp_all
  show "a div 4 < 64" "c mod 64 < 64" using small by simp_all
  show "a mod 4 * 16 + b div 16 < 64" "b mod 16 * 4 + c div 64 < 64" using small mods by linarith+
  show "a div 4 * 4 + (a mod 4 * 16 + b div 16) div 16 = a"
    "(a mod 4 * 16 + b div 16) mod 16 * 16 + (b mod 16 * 4 + c div 64) div 4 = b"
    "(b mod 16 * 4 + c div 64) mod 4 * 64 + c mod 64 = c"
    using small by (simp_all only: four sixteen div_mult_mod_eq)
qed

lemma b64_quanta_encode: "b64_quanta (b64_encode s) = Some s"
proof (induction s rule: b64_encode.induct)
  case (2 a)
  show ?case using sextets [OF byte_lt [of a], of 0 0] by simp
next
  case (3 a b)
  show ?case using sextets [OF byte_lt [of a] byte_lt [of b], of 0] by simp
next
  case (4 a b c r)
  then show ?case using sextets [OF byte_lt [of a] byte_lt [of b] byte_lt [of c]] by simp
qed simp

lemma b64_encode_visible: "filter (\<lambda>c. c \<noteq> CHR 0x0A \<and> c \<noteq> CHR 0x0D) (b64_encode s) = b64_encode s"
proof (induction s rule: b64_encode.induct)
  case (2 a)
  show ?case using sextets [OF byte_lt [of a], of 0 0] by simp
next
  case (3 a b)
  show ?case using sextets [OF byte_lt [of a] byte_lt [of b], of 0] by simp
next
  case (4 a b c r)
  then show ?case using sextets [OF byte_lt [of a] byte_lt [of b] byte_lt [of c]] by simp
qed simp

theorem b64_decode_encode [simp]: "b64_decode (b64_encode s) = Some s"
  by (simp add: b64_decode_def b64_encode_visible b64_quanta_encode)

text \<open>The encoding is ASCII text.\<close>

lemma byte_pad: "byte (CHR ''='') < 128"
  by (simp add: byte_def)

lemma byte_b64_char_upper: "n < 64 \<Longrightarrow> byte (b64_char n) < 128"
  by (auto simp: b64_char_def byte_def)

lemma valid_utf8_ascii: "list_all (\<lambda>c. byte c < 128) s \<Longrightarrow> valid_utf8 s"
  by (induction s) (simp_all add: valid_utf8.simps [of "_ # _"] valid_utf8.simps [of "[]"] rune_len_ascii)

lemma b64_encode_utf8: "valid_utf8 (b64_encode s)"
proof (rule valid_utf8_ascii, induction s rule: b64_encode.induct)
  case (2 a)
  show ?case using sextets [OF byte_lt [of a], of 0 0] by (simp add: byte_b64_char_upper byte_pad)
next
  case (3 a b)
  show ?case using sextets [OF byte_lt [of a] byte_lt [of b], of 0] by (simp add: byte_b64_char_upper byte_pad)
next
  case (4 a b c r)
  then show ?case using sextets [OF byte_lt [of a] byte_lt [of b] byte_lt [of c]] by (simp add: byte_b64_char_upper)
qed simp

subsection \<open>Bytes and headers in JSON\<close>

definition set_uint8 :: "json \<Rightarrow> nat \<Rightarrow> nat option" where
  "set_uint8 v old =
     (case v of
        JNull \<Rightarrow> Some old
      | JNum n \<Rightarrow>
          (case ParseInt n of (i, ok) \<Rightarrow>
             if ok \<and> \<not> HasPrefix n ''-'' \<and> i \<le> 255 then Some (nat i) else None)
      | _ \<Rightarrow> None)"

text \<open>A value of type \<open>[]byte\<close> is a string in base64; an array of numbers is accepted too.\<close>

definition set_bytes :: "json \<Rightarrow> string \<Rightarrow> string option" where
  "set_bytes v old =
     (case v of
        JNull \<Rightarrow> Some []
      | JStr s \<Rightarrow> b64_decode s
      | JArr vs \<Rightarrow> map_option (map char_of) (set_elems set_uint8 0 vs (map byte old))
      | _ \<Rightarrow> None)"

text \<open>\<open>map[string][]string\<close>; the values of a name may be null, which is the empty list here.\<close>

fun set_header_members :: "obj \<Rightarrow> (string \<times> string list) list \<Rightarrow> (string \<times> string list) list option" where
  "set_header_members [] h = Some h"
| "set_header_members ((k, v) # r) h =
     (case set_list set_string [] v [] of None \<Rightarrow> None | Some vs \<Rightarrow> set_header_members r (obj_put k vs h))"

fun set_header :: "json \<Rightarrow> (string \<times> string list) list \<Rightarrow> (string \<times> string list) list option" where
  "set_header (JObj ms) old = set_header_members ms old"
| "set_header JNull old = Some []"
| "set_header _ old = None"

text \<open>The members the encoder writes; those marked \<open>omitempty\<close> are left out when empty.\<close>

definition bytes_field :: "string \<Rightarrow> string \<Rightarrow> obj" where
  "bytes_field k b = (if b = [] then [] else [(k, JStr (b64_encode b))])"

definition header_field :: "string \<Rightarrow> (string \<times> string list) list \<Rightarrow> obj" where
  "header_field k h = (if h = [] then [] else [(k, JObj (map (\<lambda>(n, vs). (n, JArr (map JStr vs))) h))])"

lemma set_bytes_encode [simp]: "set_bytes (JStr (b64_encode b)) old = Some b"
  by (simp add: set_bytes_def)

lemma set_elems_strings: "set_elems set_string [] (map JStr vs) [] = Some vs"
  by (induction vs) simp_all

lemma set_header_encode:
  assumes "sorted_obj h"
  shows "set_header (JObj (map (\<lambda>(n, vs). (n, JArr (map JStr vs))) h)) [] = Some h"
proof -
  have "set_header_members (map (\<lambda>(n, vs). (n, JArr (map JStr vs))) h) g = Some (fold (\<lambda>(n, vs). obj_put n vs) h g)" for g
    by (induction h arbitrary: g) (auto simp: set_elems_strings)
  then show ?thesis using mk_obj_sorted [OF assms] by (simp add: mk_obj_def)
qed

end
