(* ===== verification/Host_Calls.thy ===== *)
theory Host_Calls
  imports Storage Go_Base64
begin

text \<open>
  The host behind the transport interface: \<open>cmd/cliproxyapi-copilot/host.go\<close> and \<open>callHost\<close> of
  \<open>main.go\<close>. A call hands a method name and a JSON payload to a C function of the host, a parameter
  (\<open>CallC\<close>), and gets a return code and the bytes of a response (none is the empty string). The
  method names, and how the envelope of \<open>sdk/pluginabi\<close> is read, belong to that package and are
  parameters too. Copying between Go and C memory is the identity on bytes.
\<close>

record envelope =
  EnvOK :: bool
  EnvError :: "string option"
  EnvResult :: string

record 'w abi =
  CallC :: "string \<Rightarrow> string \<Rightarrow> 'w \<Rightarrow> (int \<times> string) \<times> 'w"
  ReadEnvelope :: "string \<Rightarrow> envelope option"
  MethodHostHTTPDo :: string
  MethodHostHTTPDoStream :: string
  MethodHostHTTPStreamRead :: string
  MethodHostHTTPStreamClose :: string
  MethodHostStreamEmit :: string
  MethodHostStreamClose :: string

subsection \<open>The payloads\<close>

record hostHTTPRequest =
  HostReqCallbackID :: string
  HostReqMethod :: string
  HostReqURL :: string
  HostReqHeaders :: header
  HostReqBody :: string

record hostHTTPResponse =
  HostRespStatus :: int
  HostRespHeaders :: header
  HostRespBody :: string

record hostHTTPStreamResponse =
  HostStreamStatus :: int
  HostStreamHeaders :: header
  HostStreamID :: string

record hostHTTPStreamReadResponse =
  ReadPayload :: string
  ReadError :: string
  ReadDone :: bool

record hostStreamEmitRequest =
  EmitStreamID :: string
  EmitPayload :: string

record hostStreamCloseRequest =
  CloseStreamID :: string
  CloseError :: string

definition http_request_members :: "hostHTTPRequest \<Rightarrow> obj" where
  "http_request_members r =
     text_field ''host_callback_id'' (HostReqCallbackID r) @
     [(''method'', JStr (HostReqMethod r)), (''url'', JStr (HostReqURL r))] @
     header_field ''headers'' (HostReqHeaders r) @ bytes_field ''body'' (HostReqBody r)"

definition stream_read_members :: "string \<Rightarrow> obj" where
  "stream_read_members streamID = [(''stream_id'', JStr streamID)]"

definition emit_members :: "hostStreamEmitRequest \<Rightarrow> obj" where
  "emit_members r = [(''stream_id'', JStr (EmitStreamID r))] @ bytes_field ''payload'' (EmitPayload r)"

definition close_members :: "hostStreamCloseRequest \<Rightarrow> obj" where
  "close_members r = [(''stream_id'', JStr (CloseStreamID r))] @ text_field ''error'' (CloseError r)"

text \<open>The fields as \<open>json.Unmarshal\<close> fills them.\<close>

definition http_request_fields :: "hostHTTPRequest fields" where
  "http_request_fields =
     [(''host_callback_id'', at_field HostReqCallbackID HostReqCallbackID_update set_string),
      (''method'', at_field HostReqMethod HostReqMethod_update set_string),
      (''url'', at_field HostReqURL HostReqURL_update set_string),
      (''headers'', at_field HostReqHeaders HostReqHeaders_update set_header),
      (''body'', at_field HostReqBody HostReqBody_update set_bytes)]"

definition emit_fields :: "hostStreamEmitRequest fields" where
  "emit_fields =
     [(''stream_id'', at_field EmitStreamID EmitStreamID_update set_string),
      (''payload'', at_field EmitPayload EmitPayload_update set_bytes)]"

definition http_response_fields :: "hostHTTPResponse fields" where
  "http_response_fields =
     [(''statuscode'', at_field HostRespStatus HostRespStatus_update set_int64),
      (''headers'', at_field HostRespHeaders HostRespHeaders_update set_header),
      (''body'', at_field HostRespBody HostRespBody_update set_bytes)]"

definition stream_response_fields :: "hostHTTPStreamResponse fields" where
  "stream_response_fields =
     [(''status_code'', at_field HostStreamStatus HostStreamStatus_update set_int64),
      (''headers'', at_field HostStreamHeaders HostStreamHeaders_update set_header),
      (''stream_id'', at_field HostStreamID HostStreamID_update set_string)]"

definition read_response_fields :: "hostHTTPStreamReadResponse fields" where
  "read_response_fields =
     [(''payload'', at_field ReadPayload ReadPayload_update set_bytes),
      (''error'', at_field ReadError ReadError_update set_string),
      (''done'', at_field ReadDone ReadDone_update set_bool)]"

subsection \<open>The calls\<close>

definition read_answer :: "'w abi \<Rightarrow> string \<Rightarrow> int \<Rightarrow> string \<Rightarrow> string res" where
  "read_answer A method rc raw =
     (if raw = [] then Inl (ErrorText (''host callback '' @ method @ '' returned '' @ Itoa rc @ '' without a response''))
      else (case ReadEnvelope A raw of
          None \<Rightarrow> Inl (Wrap (''decode host callback '' @ method @ '': '') JsonError)
        | Some env \<Rightarrow>
            if \<not> EnvOK env then
              (case EnvError env of
                 None \<Rightarrow> Inl (ErrorText (''host callback '' @ method @ '' failed''))
               | Some msg \<Rightarrow> Inl (ErrorText (if TrimSpace msg = [] then ''host callback failed'' else TrimSpace msg)))
            else if rc \<noteq> 0 then Inl (ErrorText (''host callback '' @ method @ '' returned '' @ Itoa rc))
            else Inr (EnvResult env)))"

definition callHost :: "'w abi \<Rightarrow> string \<Rightarrow> obj \<Rightarrow> 'w \<Rightarrow> string res \<times> 'w" where
  "callHost A method members w =
     (case CallC A method (encode (JObj members)) w of ((rc, raw), w') \<Rightarrow> (read_answer A method rc raw, w'))"

definition host_request :: "string \<Rightarrow> http_request \<Rightarrow> hostHTTPRequest" where
  "host_request callbackID req =
     \<lparr> HostReqCallbackID = callbackID, HostReqMethod = Method req, HostReqURL = URL req,
       HostReqHeaders = Headers req, HostReqBody = Body req \<rparr>"

definition hostDo :: "'w abi \<Rightarrow> string \<Rightarrow> http_request \<Rightarrow> 'w \<Rightarrow> http_response res \<times> 'w" where
  "hostDo A callbackID req =
     and_then (callHost A (MethodHostHTTPDo A) (http_request_members (host_request callbackID req))) (\<lambda>raw. return
       (case unmarshal http_response_fields raw \<lparr> HostRespStatus = 0, HostRespHeaders = [], HostRespBody = [] \<rparr> of
          None \<Rightarrow> Inl (Wrap ''decode host HTTP response: '' JsonError)
        | Some resp \<Rightarrow> Inr \<lparr> StatusCode = HostRespStatus resp, RespHeaders = HostRespHeaders resp, RespBody = HostRespBody resp \<rparr>))"

definition hostOpenStream :: "'w abi \<Rightarrow> string \<Rightarrow> http_request \<Rightarrow> 'w \<Rightarrow> http_stream res \<times> 'w" where
  "hostOpenStream A callbackID req =
     and_then (callHost A (MethodHostHTTPDoStream A) (http_request_members (host_request callbackID req))) (\<lambda>raw. return
       (case unmarshal stream_response_fields raw \<lparr> HostStreamStatus = 0, HostStreamHeaders = [], HostStreamID = [] \<rparr> of
          None \<Rightarrow> Inl (Wrap ''decode host HTTP stream response: '' JsonError)
        | Some resp \<Rightarrow>
            if TrimSpace (HostStreamID resp) = [] then Inl (ErrorText ''host HTTP stream response has no stream_id'')
            else Inr \<lparr> StreamStatus = HostStreamStatus resp, StreamHeaders = HostStreamHeaders resp, StreamID = HostStreamID resp \<rparr>))"

definition hostReadStream :: "'w abi \<Rightarrow> string \<Rightarrow> 'w \<Rightarrow> stream_chunk res \<times> 'w" where
  "hostReadStream A streamID =
     and_then (callHost A (MethodHostHTTPStreamRead A) (stream_read_members streamID)) (\<lambda>raw. return
       (case unmarshal read_response_fields raw \<lparr> ReadPayload = [], ReadError = [], ReadDone = False \<rparr> of
          None \<Rightarrow> Inl (Wrap ''decode host HTTP stream chunk: '' JsonError)
        | Some resp \<Rightarrow> Inr \<lparr> Payload = ReadPayload resp, ChunkError = ReadError resp, Done = ReadDone resp \<rparr>))"

definition only_error :: "'a res \<times> 'w \<Rightarrow> go_error option \<times> 'w" where
  "only_error p = (case p of (r, w) \<Rightarrow> ((case r of Inl e \<Rightarrow> Some e | Inr x \<Rightarrow> None), w))"

definition hostCloseStream :: "'w abi \<Rightarrow> string \<Rightarrow> 'w \<Rightarrow> go_error option \<times> 'w" where
  "hostCloseStream A streamID w =
     only_error (callHost A (MethodHostHTTPStreamClose A) (stream_read_members streamID) w)"

definition hostEmit :: "'w abi \<Rightarrow> string \<Rightarrow> string \<Rightarrow> 'w \<Rightarrow> go_error option \<times> 'w" where
  "hostEmit A streamID payload w =
     only_error (callHost A (MethodHostStreamEmit A) (emit_members \<lparr> EmitStreamID = streamID, EmitPayload = payload \<rparr>) w)"

definition hostCloseOutput :: "'w abi \<Rightarrow> string \<Rightarrow> string \<Rightarrow> 'w \<Rightarrow> 'w" where
  "hostCloseOutput A streamID message w =
     snd (callHost A (MethodHostStreamClose A) (close_members \<lparr> CloseStreamID = streamID, CloseError = message \<rparr>) w)"

text \<open>The transport of the plugin: a host whose calls go through the C function. The callers drop
  the error of closing a stream. The clock and the random source are not the host's.\<close>

definition hostTransport :: "'w abi \<Rightarrow> 'w outside \<Rightarrow> 'w outside" where
  "hostTransport A E =
     E\<lparr> DoHTTP := hostDo A, OpenStream := hostOpenStream A, ReadStream := hostReadStream A,
        CloseStream := (\<lambda>sid w. snd (hostCloseStream A sid w)), Emit := hostEmit A, CloseOutput := hostCloseOutput A \<rparr>"

subsection \<open>What the host gets\<close>

lemma set_members_bytes:
  "map_of fs (fold_name k) = Some (at_field get upd set_bytes) \<Longrightarrow> (b = [] \<Longrightarrow> upd (\<lambda>_. b) x = x) \<Longrightarrow>
   set_members fs (bytes_field k b) x = Some (upd (\<lambda>_. b) x)"
  by (auto simp: bytes_field_def at_field_def)

lemma set_members_header:
  "map_of fs (fold_name k) = Some (at_field get upd set_header) \<Longrightarrow> get x = [] \<Longrightarrow> sorted_obj h \<Longrightarrow>
   (h = [] \<Longrightarrow> upd (\<lambda>_. h) x = x) \<Longrightarrow> set_members fs (header_field k h) x = Some (upd (\<lambda>_. h) x)"
  by (auto simp: header_field_def at_field_def set_header_encode simp del: set_header.simps)

text \<open>Headers that can be written: sorted names, and text in UTF-8.\<close>

definition wf_header :: "header \<Rightarrow> bool" where
  "wf_header h \<longleftrightarrow> sorted_obj h \<and> list_all (\<lambda>(k, vs). valid_utf8 k \<and> list_all valid_utf8 vs) h"

definition wf_host_request :: "hostHTTPRequest \<Rightarrow> bool" where
  "wf_host_request r \<longleftrightarrow> valid_utf8 (HostReqCallbackID r) \<and> valid_utf8 (HostReqMethod r) \<and>
     valid_utf8 (HostReqURL r) \<and> wf_header (HostReqHeaders r)"

lemma plain_append: "plain_json (JObj (a @ b)) \<longleftrightarrow> plain_json (JObj a) \<and> plain_json (JObj b)"
  by simp

lemma names_utf8: "list_all name_char k \<Longrightarrow> valid_utf8 k"
  by (rule valid_utf8_names)

lemma plain_text_field: "list_all name_char k \<Longrightarrow> valid_utf8 v \<Longrightarrow> plain_json (JObj (text_field k v))"
  by (simp add: text_field_def valid_utf8_names)

lemma plain_bytes_field: "list_all name_char k \<Longrightarrow> plain_json (JObj (bytes_field k v))"
  by (simp add: bytes_field_def valid_utf8_names b64_encode_utf8)

lemma plain_header_field: "list_all name_char k \<Longrightarrow> wf_header h \<Longrightarrow> plain_json (JObj (header_field k h))"
  by (auto simp: header_field_def valid_utf8_names wf_header_def list_all_iff)

lemma jdepth_strings: "jdepth (JArr (map JStr vs)) \<le> 1"
  using jdepth_bound [of "map jdepth (map JStr vs)" 0 0] by auto

lemma jdepth_header: "jdepth (JObj (map (\<lambda>(n, vs). (n, JArr (map JStr vs))) h)) \<le> 2"
proof -
  have "list_all (\<lambda>(k, v). jdepth v \<le> 1) (map (\<lambda>(n, vs). (n, JArr (map JStr vs))) h)"
    using jdepth_strings by (auto simp: list_all_iff simp del: jdepth.simps)
  from jdepth_members [OF this] show ?thesis by (simp add: numeral_2_eq_2)
qed

lemma read_host_object:
  assumes "plain_json (JObj m)" "list_all (\<lambda>(k, v). jdepth v \<le> 2) m"
  shows "read_ordered (encode (JObj m)) = Some (JObj m)"
  using read_ordered_encode [OF assms(1)] jdepth_members [OF assms(2)] by simp

lemma host_folds:
  "fold_name ''host_callback_id'' = ''host_callback_id''" "fold_name ''method'' = ''method''"
  "fold_name ''url'' = ''url''" "fold_name ''headers'' = ''headers''" "fold_name ''body'' = ''body''"
  "fold_name ''stream_id'' = ''stream_id''" "fold_name ''payload'' = ''payload''" "fold_name ''error'' = ''error''"
  by code_simp+

lemma names_simple:
  "list_all name_char ''host_callback_id''" "list_all name_char ''method''" "list_all name_char ''url''"
  "list_all name_char ''headers''" "list_all name_char ''body''" "list_all name_char ''stream_id''"
  "list_all name_char ''payload''" "list_all name_char ''error''"
  by code_simp+

definition empty_host_request :: hostHTTPRequest where
  "empty_host_request =
     \<lparr> HostReqCallbackID = [], HostReqMethod = [], HostReqURL = [], HostReqHeaders = [], HostReqBody = [] \<rparr>"

lemma http_request_at:
  "map_of http_request_fields ''host_callback_id'' = Some (at_field HostReqCallbackID HostReqCallbackID_update set_string)"
  "map_of http_request_fields ''method'' = Some (at_field HostReqMethod HostReqMethod_update set_string)"
  "map_of http_request_fields ''url'' = Some (at_field HostReqURL HostReqURL_update set_string)"
  "map_of http_request_fields ''headers'' = Some (at_field HostReqHeaders HostReqHeaders_update set_header)"
  "map_of http_request_fields ''body'' = Some (at_field HostReqBody HostReqBody_update set_bytes)"
  "map_of emit_fields ''stream_id'' = Some (at_field EmitStreamID EmitStreamID_update set_string)"
  "map_of emit_fields ''payload'' = Some (at_field EmitPayload EmitPayload_update set_bytes)"
  by (simp_all add: http_request_fields_def emit_fields_def)

lemma http_request_read:
  assumes "wf_host_request r"
  shows "unmarshal http_request_fields (encode (JObj (http_request_members r))) empty_host_request = Some r"
proof -
  have "plain_json (JObj (http_request_members r))"
    using assms plain_text_field plain_header_field plain_bytes_field names_simple
    unfolding http_request_members_def plain_append wf_host_request_def
    by (simp add: valid_utf8_names)
  moreover have "list_all (\<lambda>(k, v). jdepth v \<le> 2) (http_request_members r)"
    using jdepth_header
    by (auto simp: http_request_members_def text_field_def header_field_def bytes_field_def simp del: jdepth.simps(2))
  ultimately have "read_ordered (encode (JObj (http_request_members r))) = Some (JObj (http_request_members r))"
    by (rule read_host_object)
  moreover have "set_members http_request_fields (http_request_members r) empty_host_request = Some r"
    using assms unfolding http_request_members_def wf_host_request_def wf_header_def
    by (simp add: set_members_append set_members_text set_members_string set_members_header set_members_bytes
        host_folds http_request_at empty_host_request_def del: fold_name.simps set_members.simps(2))
  ultimately show ?thesis by (simp add: unmarshal_def)
qed

text \<open>C34: a request arrives at the host as it was made, with its headers and every byte of its body,
  and \<open>Do\<close> makes exactly one call of the host function.\<close>

theorem host_request_round_trip:
  assumes "wf_host_request (host_request callbackID req)"
  shows "\<exists>payload. unmarshal http_request_fields payload empty_host_request = Some (host_request callbackID req) \<and>
    (\<forall>w. snd (hostDo A callbackID req w) = snd (CallC A (MethodHostHTTPDo A) payload w))"
proof (intro exI conjI allI)
  let ?payload = "encode (JObj (http_request_members (host_request callbackID req)))"
  show "unmarshal http_request_fields ?payload empty_host_request = Some (host_request callbackID req)"
    by (rule http_request_read [OF assms])
  show "snd (hostDo A callbackID req w) = snd (CallC A (MethodHostHTTPDo A) ?payload w)" for w
    by (auto simp: hostDo_def and_then_def callHost_def return_def split: prod.split sum.split)
qed

text \<open>A host that answers nothing, and a request with a header and a body that is not text.\<close>

definition silent_abi :: "unit abi" where
  "silent_abi = \<lparr> CallC = (\<lambda>method payload w. ((1, []), w)), ReadEnvelope = (\<lambda>raw. None),
     MethodHostHTTPDo = ''do'', MethodHostHTTPDoStream = ''do_stream'', MethodHostHTTPStreamRead = ''read'',
     MethodHostHTTPStreamClose = ''close'', MethodHostStreamEmit = ''emit'', MethodHostStreamClose = ''close_output'' \<rparr>"

definition sample_post :: http_request where
  "sample_post = \<lparr> Method = ''POST'', URL = ''https://h/p'', Headers = [(''Accept'', [''a'', ''b''])], Body = [CHR 0xFF, CHR 0x00] \<rparr>"

theorem host_request_round_trip_witness:
  "\<exists>payload. unmarshal http_request_fields payload empty_host_request = Some (host_request ''cb'' sample_post) \<and>
    (\<forall>w. snd (hostDo silent_abi ''cb'' sample_post w) = snd (CallC silent_abi (MethodHostHTTPDo silent_abi) payload w))"
proof (rule host_request_round_trip)
  show "wf_host_request (host_request ''cb'' sample_post)" by code_simp
qed

text \<open>The plugin believes a call of the host exactly when the response can be read, its envelope says
  it went well, and the return code is 0; in every other case, an empty response included, it is an
  error.\<close>

theorem host_call_believed:
  "(fst (callHost A method members w) = Inr result) =
     (case CallC A method (encode (JObj members)) w of ((rc, raw), w') \<Rightarrow>
        rc = 0 \<and> raw \<noteq> [] \<and>
        (case ReadEnvelope A raw of None \<Rightarrow> False | Some env \<Rightarrow> EnvOK env \<and> EnvResult env = result))"
  by (auto simp: callHost_def read_answer_def split: prod.split option.split)

text \<open>What is emitted reaches the host byte for byte, for any bytes.\<close>

lemma emit_read:
  assumes "valid_utf8 (EmitStreamID r)"
  shows "unmarshal emit_fields (encode (JObj (emit_members r))) \<lparr> EmitStreamID = [], EmitPayload = [] \<rparr> = Some r"
proof -
  have "plain_json (JObj (emit_members r))"
    using assms plain_bytes_field names_simple unfolding emit_members_def plain_append by (simp add: valid_utf8_names)
  moreover have "list_all (\<lambda>(k, v). jdepth v \<le> 2) (emit_members r)"
    by (simp add: emit_members_def bytes_field_def)
  ultimately have "read_ordered (encode (JObj (emit_members r))) = Some (JObj (emit_members r))"
    by (rule read_host_object)
  moreover have "set_members emit_fields (emit_members r) \<lparr> EmitStreamID = [], EmitPayload = [] \<rparr> = Some r"
    unfolding emit_members_def
    by (simp add: set_members_append set_members_string set_members_bytes
        host_folds http_request_at del: fold_name.simps set_members.simps(2))
  ultimately show ?thesis by (simp add: unmarshal_def)
qed

end
