(* ===== verification/Dispatch.thy ===== *)
theory Dispatch
  imports Outgoing Token_Count Host_Calls
begin

text \<open>
  The plugin as the host sees it: \<open>cmd/cliproxyapi-copilot/dispatch.go\<close> and the entry points of
  \<open>main.go\<close>. The method names, the request types and the envelope of \<open>sdk/pluginabi\<close> and
  \<open>sdk/pluginapi\<close> are third-party code: how a body of such a type is read, and how a result is
  written, are parameters. The types and the JSON of \<open>dispatch.go\<close> itself are modelled.
\<close>

subsection \<open>Requests and results\<close>

record rpcAuthModelRequest =
  ModelsCallback :: string
  ModelsAuthID :: string
  ModelsStorageJSON :: string

record authParseRequest =
  ParseProvider :: string
  ParseFileName :: string
  ParseRawJSON :: string

record rpcAuthLoginPollRequest =
  PollCallback :: string
  PollState :: string

record rpcAuthRefreshRequest =
  RefreshCallback :: string
  RefreshAuthID :: string
  RefreshStorageJSON :: string
  RefreshMetadata :: metadata
  RefreshAttributes :: attributes

record pluginMetadata =
  MetaName :: string
  MetaVersion :: string
  MetaAuthor :: string
  GitHubRepository :: string
  ConfigFields :: "(string \<times> string \<times> string) list"

record registrationCapability =
  ModelCapability :: bool
  AuthCapability :: bool
  ExecutorCapability :: bool
  ExecutorModelScope :: string
  ExecutorInputFormats :: "string list"
  ExecutorOutputFormats :: "string list"

record registration =
  SchemaVersion :: int
  RegMetadata :: pluginMetadata
  RegCapabilities :: registrationCapability

datatype plugin_result =
    Registered registration
  | ModelList "string \<times> modelInfo list"
  | Identifier string
  | AuthParsed "authData option"
  | LoginStarted loginStart
  | LoginPolled pollResponse
  | AuthRefreshed authData
  | Executed executorResponse
  | StreamStarted header
  | HTTPAnswered http_response

text \<open>What the plugin is linked with. \<open>MarshalOther\<close> writes the results whose type is in the SDK.\<close>

record ('w, 'x, 'g) plugin =
  Outside :: "'w outside"
  Lib :: lib
  Yaml :: "string \<Rightarrow> Config \<Rightarrow> Config res"
  URLOrder :: "(string \<times> string) list \<Rightarrow> (string \<times> string) list"
  BlockOrder :: "string list \<Rightarrow> string list"
  Sdk :: "'x sdk"
  Gjson :: "'g gjson"
  Codec :: "(string \<Rightarrow> int res) res"
  MethodPluginRegister :: string
  MethodPluginReconfigure :: string
  MethodModelStatic :: string
  MethodModelForAuth :: string
  MethodAuthIdentifier :: string
  MethodExecutorIdentifier :: string
  MethodAuthParse :: string
  MethodAuthLoginStart :: string
  MethodAuthLoginPoll :: string
  MethodAuthRefresh :: string
  MethodExecutorExecute :: string
  MethodExecutorExecuteStream :: string
  MethodExecutorCountTokens :: string
  MethodExecutorHTTPRequest :: string
  ReadModelRequest :: "string \<Rightarrow> rpcAuthModelRequest option"
  ReadParseRequest :: "string \<Rightarrow> authParseRequest option"
  ReadLoginStart :: "string \<Rightarrow> string option"
  ReadLoginPoll :: "string \<Rightarrow> rpcAuthLoginPollRequest option"
  ReadRefresh :: "string \<Rightarrow> rpcAuthRefreshRequest option"
  ReadExecute :: "string \<Rightarrow> executeRequest option"
  ReadHTTP :: "string \<Rightarrow> httpRequest option"
  AbiSchemaVersion :: int
  FieldString :: string
  FieldInteger :: string
  FieldArray :: string
  ScopeOAuth :: string
  MarshalMetadata :: "pluginMetadata \<Rightarrow> json"
  MarshalOther :: "plugin_result \<Rightarrow> string res"
  OkEnvelope :: "string \<Rightarrow> string"
  ErrEnvelope :: "string \<Rightarrow> string \<Rightarrow> int \<Rightarrow> bool \<Rightarrow> string"

definition pluginVersion :: string where "pluginVersion = ''0.4.0''"

definition config_field_list :: "('w, 'x, 'g) plugin \<Rightarrow> (string \<times> string \<times> string) list" where
  "config_field_list P =
     [(''github_client_id'', FieldString P, ''Public GitHub OAuth application client identifier used for device flow.''),
      (''github_scope'', FieldString P, ''Space-delimited GitHub OAuth scopes; defaults to the least-privilege read:user scope.''),
      (''github_base_url'', FieldString P, ''GitHub web OAuth base URL.''),
      (''github_api_url'', FieldString P, ''GitHub REST API base URL used for identity and Copilot token exchange.''),
      (''copilot_api_url'', FieldString P, ''Fallback Copilot API base URL when the token response has no API endpoint.''),
      (''oauth_timeout_seconds'', FieldInteger P, ''Maximum device-code lifetime accepted by the plugin.''),
      (''model_cache_ttl_seconds'', FieldInteger P, ''In-memory Copilot model catalog cache lifetime.''),
      (''token_expiry_buffer_seconds'', FieldInteger P, ''Refresh Copilot API tokens this long before expiration.''),
      (''excluded_model_prefixes'', FieldArray P,
       ''Case-insensitive model ID prefixes omitted from Copilot discovery to prevent collisions with native providers.'')]"

definition pluginRegistration :: "('w, 'x, 'g) plugin \<Rightarrow> registration" where
  "pluginRegistration P =
     \<lparr> SchemaVersion = AbiSchemaVersion P,
       RegMetadata = \<lparr> MetaName = ''GitHub Copilot subscription provider'', MetaVersion = pluginVersion,
         MetaAuthor = ''self-owned'', GitHubRepository = ''https://github.com/iFonny/cliproxyapi-copilot-plugin'',
         ConfigFields = config_field_list P \<rparr>,
       RegCapabilities = \<lparr> ModelCapability = True, AuthCapability = True, ExecutorCapability = True,
         ExecutorModelScope = ScopeOAuth P,
         ExecutorInputFormats = [''openai'', ''openai-response'', ''claude''],
         ExecutorOutputFormats = [''openai'', ''openai-response'', ''claude''] \<rparr> \<rparr>"

definition lifecycle_fields :: "string fields" where
  "lifecycle_fields = [(''config_yaml'', set_bytes)]"

subsection \<open>The switch\<close>

text \<open>A handler that always returns, and one that needs a decoded request first. The second component
  of an outcome is the goroutine the call has started.\<close>

type_synonym 'w outcome = "(plugin_result res \<times> pump_job option \<times> 'w machine) option"

definition done_with :: "('a \<Rightarrow> plugin_result) \<Rightarrow> 'a res \<times> 'w machine \<Rightarrow> 'w outcome" where
  "done_with f p = (case p of (r, m) \<Rightarrow> Some ((case r of Inl e \<Rightarrow> Inl e | Inr x \<Rightarrow> Inr (f x)), None, m))"

definition with_request :: "'r option \<Rightarrow> ('r \<Rightarrow> 'w machine \<Rightarrow> 'w outcome) \<Rightarrow> 'w machine \<Rightarrow> 'w outcome" where
  "with_request q f m = (case q of None \<Rightarrow> Some (Inl JsonError, None, m) | Some req \<Rightarrow> f req m)"

definition register_plugin :: "('w, 'x, 'g) plugin \<Rightarrow> string \<Rightarrow> 'w machine \<Rightarrow> 'w outcome" where
  "register_plugin P body =
     with_request (if body = [] then Some [] else unmarshal lifecycle_fields body []) (\<lambda>configYAML m.
       done_with (\<lambda>_. Registered (pluginRegistration P)) (Configure (Lib P) (Yaml P) (URLOrder P) (Outside P) configYAML m))"

definition stream_outcome :: "((header \<times> pump_job) res \<times> 'w machine) option \<Rightarrow> 'w outcome" where
  "stream_outcome r =
     map_option (\<lambda>(r, m). case r of Inl e \<Rightarrow> (Inl e, None, m) | Inr (headers, job) \<Rightarrow> (Inr (StreamStarted headers), Some job, m)) r"

text \<open>The fuel of the token counter, above the length of the payload it takes.\<close>

definition token_fuel :: "executeRequest \<Rightarrow> nat" where
  "token_fuel req = length (ReqPayload req) + length (ReqOriginalRequest req) + 2"

definition count_outcome :: "('w, 'x, 'g) plugin \<Rightarrow> executeRequest \<Rightarrow> 'w machine \<Rightarrow> 'w outcome" where
  "count_outcome P req m =
     (case CountTokens (token_fuel req) (Gjson P) (Codec P) (Lib P) req of
        None \<Rightarrow> None | Some r \<Rightarrow> done_with Executed (r, m))"

definition unknown_method :: "string \<Rightarrow> go_error" where
  "unknown_method method = StatusErr ''unknown_method'' (''unknown plugin method: '' @ method) 501 False"

definition dispatch :: "('w, 'x, 'g) plugin \<Rightarrow> string \<Rightarrow> string \<Rightarrow> 'w machine \<Rightarrow> 'w outcome" where
  "dispatch P method body =
     (let E = Outside P; L = Lib P in
      if method = MethodPluginRegister P \<or> method = MethodPluginReconfigure P then register_plugin P body
      else if method = MethodModelStatic P then (\<lambda>m. Some (Inr (ModelList StaticModels), None, m))
      else if method = MethodModelForAuth P then
        with_request (ReadModelRequest P body) (\<lambda>q m.
          done_with ModelList (ModelsForAuth E L (ModelsCallback q) (ModelsAuthID q) (ModelsStorageJSON q) m))
      else if method = MethodAuthIdentifier P \<or> method = MethodExecutorIdentifier P
      then (\<lambda>m. Some (Inr (Identifier ''copilot''), None, m))
      else if method = MethodAuthParse P then
        with_request (ReadParseRequest P body) (\<lambda>q m.
          done_with AuthParsed (ParseAuth E (ParseProvider q) (ParseFileName q) (ParseRawJSON q) m))
      else if method = MethodAuthLoginStart P then
        with_request (ReadLoginStart P body) (\<lambda>callback m. done_with LoginStarted (StartLogin E L callback m))
      else if method = MethodAuthLoginPoll P then
        with_request (ReadLoginPoll P body) (\<lambda>q m.
          done_with LoginPolled (PollLogin E L (PollCallback q) (PollState q) m))
      else if method = MethodAuthRefresh P then
        with_request (ReadRefresh P body) (\<lambda>q m.
          done_with AuthRefreshed (RefreshAuth E L (RefreshCallback q) (RefreshAuthID q) (RefreshStorageJSON q)
            (RefreshMetadata q) (RefreshAttributes q) m))
      else if method = MethodExecutorExecute P then
        with_request (ReadExecute P body) (\<lambda>q m. done_with Executed (Execute E L (Sdk P) q m))
      else if method = MethodExecutorExecuteStream P then
        with_request (ReadExecute P body) (\<lambda>q m. stream_outcome (ExecuteStream E L (Sdk P) q m))
      else if method = MethodExecutorCountTokens P then
        with_request (ReadExecute P body) (count_outcome P)
      else if method = MethodExecutorHTTPRequest P then
        with_request (ReadHTTP P body) (\<lambda>q m. done_with HTTPAnswered (HTTP E L q m))
      else (\<lambda>m. Some (Inl (unknown_method method), None, m)))"

subsection \<open>Envelopes\<close>

definition string_list :: "string list \<Rightarrow> json" where
  "string_list ss = JArr (map JStr ss)"

definition capability_members :: "registrationCapability \<Rightarrow> obj" where
  "capability_members c =
     [(''model_provider'', JBool (ModelCapability c)), (''auth_provider'', JBool (AuthCapability c)),
      (''executor'', JBool (ExecutorCapability c)), (''executor_model_scope'', JStr (ExecutorModelScope c)),
      (''executor_input_formats'', string_list (ExecutorInputFormats c)),
      (''executor_output_formats'', string_list (ExecutorOutputFormats c))]"

definition registration_members :: "('w, 'x, 'g) plugin \<Rightarrow> registration \<Rightarrow> obj" where
  "registration_members P r =
     [(''schema_version'', JNum (Itoa (SchemaVersion r))), (''metadata'', MarshalMetadata P (RegMetadata r)),
      (''capabilities'', JObj (capability_members (RegCapabilities r)))]"

definition marshal_result :: "('w, 'x, 'g) plugin \<Rightarrow> plugin_result \<Rightarrow> string res" where
  "marshal_result P v =
     (case v of
        Registered r \<Rightarrow> Inr (encode (JObj (registration_members P r)))
      | Identifier i \<Rightarrow> Inr (encode (JObj [(''identifier'', JStr i)]))
      | StreamStarted h \<Rightarrow>
          Inr (encode (JObj [(''headers'', JObj (map (\<lambda>(k, vs). (k, string_list vs)) h))]))
      | _ \<Rightarrow> MarshalOther P v)"

definition okEnvelope :: "('w, 'x, 'g) plugin \<Rightarrow> plugin_result \<Rightarrow> string res" where
  "okEnvelope P v = (case marshal_result P v of Inl e \<Rightarrow> Inl e | Inr raw \<Rightarrow> Inr (OkEnvelope P raw))"

definition errorEnvelope :: "('w, 'x, 'g) plugin \<Rightarrow> string \<Rightarrow> string \<Rightarrow> int \<Rightarrow> bool \<Rightarrow> string" where
  "errorEnvelope P code message status retryable = ErrEnvelope P code message status retryable"

text \<open>\<open>errors.As\<close> looks through the errors that wrap another.\<close>

fun as_status :: "go_error \<Rightarrow> (string \<times> string \<times> int \<times> bool) option" where
  "as_status (StatusErr code message status retryable) = Some (code, message, status, retryable)"
| "as_status (Wrap s e) = as_status e"
| "as_status (WrapQ s v e) = as_status e"
| "as_status _ = None"

text \<open>The answer to the host: the bytes, and whether the call failed. A panic (\<open>Inl\<close>) is not caught.\<close>

definition answer :: "('w, 'x, 'g) plugin \<Rightarrow> plugin_result res \<Rightarrow> (string \<times> bool) res" where
  "answer P r =
     (case r of
        Inl e \<Rightarrow>
          (case e of
             Panic msg \<Rightarrow> Inl (Panic msg)
           | _ \<Rightarrow> Inr ((case as_status e of
                 Some (code, message, status, retryable) \<Rightarrow> errorEnvelope P code message status retryable
               | None \<Rightarrow> errorEnvelope P ''plugin_error'' (ErrorString (Lib P) e) 500 False), True))
      | Inr v \<Rightarrow>
          (case okEnvelope P v of
             Inl e \<Rightarrow> Inr (errorEnvelope P ''encoding_error'' (ErrorString (Lib P) e) 500 False, True)
           | Inr raw \<Rightarrow> Inr (raw, False)))"

definition handleMethod ::
  "('w, 'x, 'g) plugin \<Rightarrow> string \<Rightarrow> string \<Rightarrow> 'w machine \<Rightarrow> ((string \<times> bool) res \<times> pump_job option \<times> 'w machine) option" where
  "handleMethod P method body m = map_option (\<lambda>(r, job, m1). (answer P r, job, m1)) (dispatch P method body m)"

text \<open>The entry point: the return code and the response. A missing method is the null pointer.\<close>

definition cliproxyPluginCall ::
  "('w, 'x, 'g) plugin \<Rightarrow> string option \<Rightarrow> string option \<Rightarrow> 'w machine \<Rightarrow>
   ((int \<times> string) res \<times> pump_job option \<times> 'w machine) option" where
  "cliproxyPluginCall P method body m =
     (case method of
        None \<Rightarrow> Some (Inr (1, errorEnvelope P ''invalid_method'' ''method is required'' 0 False), None, m)
      | Some name \<Rightarrow>
          map_option (\<lambda>(r, job, m1).
              ((case r of Inl e \<Rightarrow> Inl e | Inr (raw, failed) \<Rightarrow> Inr (if failed then 1 else 0, raw)), job, m1))
            (handleMethod P name (case body of None \<Rightarrow> [] | Some bytes \<Rightarrow> bytes) m))"

text \<open>The shutdown of the service; forgetting the host is the matter of \<open>C_Boundary\<close>.\<close>

definition cliproxyPluginShutdown :: "('w, 'x, 'g) plugin \<Rightarrow> 'w machine \<Rightarrow> 'w machine" where
  "cliproxyPluginShutdown P m = snd (Shutdown (Outside P) m)"

end
