(* ===== verification/Plugin.thy ===== *)
theory Plugin
  imports Dispatch
begin

text \<open>
  The plugin as a whole: the calls of the host in any order, the goroutines they start, and the
  shutdown. The properties here are about everything the components do together.
\<close>

subsection \<open>Rejected calls\<close>

text \<open>Whether the body of a call can be read; a method without a request type reads nothing.\<close>

definition readable :: "('w, 'x, 'g) plugin \<Rightarrow> string \<Rightarrow> string \<Rightarrow> bool" where
  "readable P method body =
     (if method = MethodPluginRegister P \<or> method = MethodPluginReconfigure P
      then body = [] \<or> unmarshal lifecycle_fields body [] \<noteq> None
      else if method = MethodModelStatic P then True
      else if method = MethodModelForAuth P then ReadModelRequest P body \<noteq> None
      else if method = MethodAuthIdentifier P \<or> method = MethodExecutorIdentifier P then True
      else if method = MethodAuthParse P then ReadParseRequest P body \<noteq> None
      else if method = MethodAuthLoginStart P then ReadLoginStart P body \<noteq> None
      else if method = MethodAuthLoginPoll P then ReadLoginPoll P body \<noteq> None
      else if method = MethodAuthRefresh P then ReadRefresh P body \<noteq> None
      else if method \<in> {MethodExecutorExecute P, MethodExecutorExecuteStream P, MethodExecutorCountTokens P}
      then ReadExecute P body \<noteq> None
      else if method = MethodExecutorHTTPRequest P then ReadHTTP P body \<noteq> None
      else True)"

definition plugin_methods :: "('w, 'x, 'g) plugin \<Rightarrow> string list" where
  "plugin_methods P =
     [MethodPluginRegister P, MethodPluginReconfigure P, MethodModelStatic P, MethodModelForAuth P,
      MethodAuthIdentifier P, MethodExecutorIdentifier P, MethodAuthParse P, MethodAuthLoginStart P,
      MethodAuthLoginPoll P, MethodAuthRefresh P, MethodExecutorExecute P, MethodExecutorExecuteStream P,
      MethodExecutorCountTokens P, MethodExecutorHTTPRequest P]"

lemma dispatch_unreadable: "\<not> readable P method body \<Longrightarrow> dispatch P method body m = Some (Inl JsonError, None, m)"
  unfolding readable_def dispatch_def Let_def register_plugin_def with_request_def
  by (cases "method = MethodPluginRegister P \<or> method = MethodPluginReconfigure P", simp,
      cases "method = MethodModelStatic P", simp, cases "method = MethodModelForAuth P", simp,
      cases "method = MethodAuthIdentifier P \<or> method = MethodExecutorIdentifier P", simp,
      cases "method = MethodAuthParse P", simp, cases "method = MethodAuthLoginStart P", simp,
      cases "method = MethodAuthLoginPoll P", simp, cases "method = MethodAuthRefresh P", simp,
      cases "method = MethodExecutorExecute P", simp, cases "method = MethodExecutorExecuteStream P", simp,
      cases "method = MethodExecutorCountTokens P", simp, cases "method = MethodExecutorHTTPRequest P", simp, simp)

lemma dispatch_unknown:
  "method \<notin> set (plugin_methods P) \<Longrightarrow> dispatch P method body m = Some (Inl (unknown_method method), None, m)"
  by (simp add: dispatch_def plugin_methods_def Let_def)

text \<open>C35: a call that is rejected does nothing: an unknown method is answered with status 501 and a body
  that cannot be read with a plugin error, and in both cases no state changes, nothing is asked of
  the host and no goroutine starts.\<close>

theorem rejected_call_harmless:
  "(if method \<notin> set (plugin_methods P) then
      handleMethod P method body m =
        Some (Inr (ErrEnvelope P ''unknown_method'' (''unknown plugin method: '' @ method) 501 False, True), None, m)
    else if readable P method body then True
    else handleMethod P method body m =
        Some (Inr (ErrEnvelope P ''plugin_error'' (LibError (Lib P)) 500 False, True), None, m))"
  by (simp add: handleMethod_def dispatch_unknown dispatch_unreadable answer_def errorEnvelope_def unknown_method_def)

subsection \<open>Counting tokens\<close>

text \<open>The fuel \<open>count_outcome\<close> is given is enough: counting ends on every body.\<close>

lemma count_ends:
  assumes "raw_nested (Gjson P)"
  shows "count_outcome P req m \<noteq> None"
proof -
  have "\<exists>r. countClaudeInputTokens (token_fuel req) (Gjson P) (Codec P) payload = Some r"
    if "length payload \<le> length (ReqPayload req) + length (ReqOriginalRequest req)" for payload
    using count_total [OF assms, of payload "token_fuel req" "Codec P"] that by (simp add: token_fuel_def)
  then have "CountTokens (token_fuel req) (Gjson P) (Codec P) (Lib P) req \<noteq> None"
    by (auto simp: CountTokens_def Let_def)
  then show ?thesis by (auto simp: count_outcome_def done_with_def split: prod.split)
qed

subsection \<open>Every request stays with a safe origin\<close>

text \<open>What can happen to a plugin: a call of the host is handled, a goroutine that was started runs, the
  plugin is shut down. What other goroutines do between the sections of a handler is in the
  parameter \<open>Others\<close>.\<close>

inductive plugin_step ::
  "('w, 'x, 'g) plugin \<Rightarrow> 'w machine \<Rightarrow> pump_job list \<Rightarrow> 'w machine \<Rightarrow> pump_job list \<Rightarrow> bool" for P where
  handled: "dispatch P method body m = Some (r, None, m') \<Longrightarrow> plugin_step P m jobs m' jobs"
| started: "dispatch P method body m = Some (r, Some job, m') \<Longrightarrow> plugin_step P m jobs m' (jobs @ [job])"
| pumped: "job \<in> set jobs \<Longrightarrow> run_job (Outside P) (Lib P) (BlockOrder P) (Sdk P) job m = Some m' \<Longrightarrow>
    plugin_step P m jobs m' (remove1 job jobs)"
| shut: "plugin_step P m jobs (cliproxyPluginShutdown P m) jobs"

inductive plugin_reach :: "('w, 'x, 'g) plugin \<Rightarrow> 'w \<Rightarrow> 'w machine \<Rightarrow> pump_job list \<Rightarrow> bool" for P w where
  start: "plugin_reach P w \<lparr> svc = New, world = w, calls = [] \<rparr> []"
| more: "plugin_reach P w m jobs \<Longrightarrow> plugin_step P m jobs m' jobs' \<Longrightarrow> plugin_reach P w m' jobs'"

text \<open>The configurations a plugin can have: the default one and those \<open>ParseConfig\<close> accepts.\<close>

definition accepted :: "('w, 'x, 'g) plugin \<Rightarrow> Config \<Rightarrow> bool" where
  "accepted P c \<longleftrightarrow> c = DefaultConfig \<or> (\<exists>raw. ParseConfig (Lib P) (Yaml P) (URLOrder P) raw = Inr c)"

abbreviation safe_state :: "('w, 'x, 'g) plugin \<Rightarrow> bool \<Rightarrow> Service \<Rightarrow> bool" where
  "safe_state P b \<equiv> safe_service (Outside P) (Lib P) b (accepted P)"

text \<open>What the property asks of the world: the other goroutines keep the state safe as these do, and the
  configuration file does not allow plain HTTP unless \<open>b\<close>; and the default URLs can be parsed.\<close>

definition safe_world :: "('w, 'x, 'g) plugin \<Rightarrow> bool \<Rightarrow> bool" where
  "safe_world P b \<longleftrightarrow>
     heeds (safe_state P b) (safe_entry (Outside P) (Lib P) b (accepted P)) (Outside P) \<and>
     (\<forall>urls. set (URLOrder P urls) = set urls) \<and>
     (\<forall>raw c c'. Yaml P raw c = Inr c' \<longrightarrow> AllowInsecureBaseURLs c' \<longrightarrow> b) \<and>
     (\<forall>u \<in> {defaultGitHubBaseURL, defaultGitHubAPIURL, defaultCopilotAPIURL}. safe_base (Lib P) b u)"

lemma safe_world_heeds:
  "safe_world P b \<Longrightarrow> heeds (safe_state P b) (safe_entry (Outside P) (Lib P) b (accepted P)) (Outside P)"
  by (simp add: safe_world_def)

lemma parsed_safe:
  assumes "safe_world P b" "ParseConfig (Lib P) (Yaml P) (URLOrder P) raw = Inr cfg"
  shows "safe_config (Lib P) b (accepted P) cfg"
proof -
  have "AllowInsecureBaseURLs (clean_config d) = AllowInsecureBaseURLs d" for d by (simp add: clean_config_def)
  moreover obtain d where "cfg = clean_config d" "(if raw = [] then Inr DefaultConfig else Yaml P raw DefaultConfig) = Inr d"
    using assms(2) by (auto simp: ParseConfig_def Let_def split: sum.splits option.splits if_splits)
  ultimately have "AllowInsecureBaseURLs cfg \<longrightarrow> b"
    using assms(1) by (auto simp: safe_world_def DefaultConfig_def split: if_splits)
  moreover have "sound_config (Lib P) cfg"
    using assms by (intro parsed_config_sound [of "URLOrder P" "Lib P" "Yaml P" raw]) (auto simp: safe_world_def)
  moreover have "accepted P cfg" using assms(2) by (auto simp: accepted_def)
  ultimately show ?thesis using sound_config_safe by blast
qed

lemma default_safe: "safe_world P b \<Longrightarrow> safe_config (Lib P) b (accepted P) DefaultConfig"
  by (simp add: safe_world_def safe_config_def accepted_def DefaultConfig_def)

abbreviation safe_machine :: "('w, 'x, 'g) plugin \<Rightarrow> bool \<Rightarrow> 'w machine \<Rightarrow> bool" where
  "safe_machine P b \<equiv> upheld (safe_state P b) (safe_call (Outside P) (Lib P) b (accepted P))"

text \<open>An outcome that keeps the invariant.\<close>

definition good_outcome :: "('w, 'x, 'g) plugin \<Rightarrow> bool \<Rightarrow> 'w outcome \<Rightarrow> bool" where
  "good_outcome P b out = (case out of None \<Rightarrow> True | Some (r, job, m) \<Rightarrow> safe_machine P b m)"

lemma good_done: "keeps (safe_machine P b) f Q \<Longrightarrow> safe_machine P b m \<Longrightarrow> good_outcome P b (done_with g (f m))"
  by (auto simp: good_outcome_def done_with_def keeps_def split: prod.split)

lemma good_request:
  "safe_machine P b m \<Longrightarrow> (\<And>q. good_outcome P b (f q m)) \<Longrightarrow> good_outcome P b (with_request r f m)"
  by (cases r) (simp_all add: good_outcome_def with_request_def)

lemma good_now: "safe_machine P b m \<Longrightarrow> good_outcome P b (Some (r, job, m))"
  by (simp add: good_outcome_def)

lemma good_stream:
  "keeps_if_ends (safe_machine P b) f Q \<Longrightarrow> safe_machine P b m \<Longrightarrow> good_outcome P b (stream_outcome (f m))"
  by (auto simp: good_outcome_def stream_outcome_def keeps_if_ends_def split: option.split sum.split prod.splits)

lemma good_count: "safe_machine P b m \<Longrightarrow> good_outcome P b (count_outcome P req m)"
  by (auto simp: good_outcome_def count_outcome_def done_with_def split: option.split)

lemma dispatch_safe:
  assumes P: "safe_world P b" and m: "safe_machine P b m"
  shows "good_outcome P b (dispatch P method body m)"
proof -
  note E = safe_world_heeds [OF P]
  note now = good_now [OF m] and req = good_request [OF m]
  have reg: "good_outcome P b (register_plugin P body m)"
    unfolding register_plugin_def
    by (rule req, rule good_done [OF origins.keeps_Configure [OF E] m], rule parsed_safe [OF P])
  show ?thesis
    unfolding dispatch_def Let_def
    by (auto intro!: reg now req good_count [OF m] good_done [OF origins.keeps_models_for_auth [OF E] m]
        good_done [OF origins.keeps_ParseAuth m] good_done [OF origins.keeps_StartLogin [OF E] m]
        good_done [OF origins.keeps_PollLogin [OF E] m] good_done [OF origins.keeps_RefreshAuth [OF E] m]
        good_done [OF origins.keeps_Execute [OF E] m] good_stream [OF origins.ends_ExecuteStream [OF E] m]
        good_done [OF origins.keeps_HTTP [OF E] m])
qed

lemma step_safe:
  assumes P: "safe_world P b" and "plugin_step P m jobs m' jobs'" and m: "safe_machine P b m"
  shows "safe_machine P b m'"
  using assms(2)
proof cases
  case (pumped job)
  then show ?thesis using origins.run_job_I m by blast
next
  case shut
  then show ?thesis
    using origins.keeps_Shutdown [OF safe_world_heeds [OF P]] m by (simp add: keeps_def cliproxyPluginShutdown_def)
next
  case (handled name body r)
  then show ?thesis using dispatch_safe [OF P m, of name body] by (simp add: good_outcome_def)
next
  case (started name body r job)
  then show ?thesis using dispatch_safe [OF P m, of name body] by (simp add: good_outcome_def)
qed

lemma New_safe: "safe_world P b \<Longrightarrow> safe_machine P b \<lparr> svc = New, world = w, calls = [] \<rparr>"
  by (simp add: upheld_def safe_service_def default_safe New_def)

text \<open>C2: whatever the host calls, in any order and with any answers of the servers, every request the
  plugin has made is one of two. A GitHub call has one of the four GitHub URLs of a configuration that
  was accepted, whose base URLs are HTTPS (plain HTTP only when \<open>b\<close>). An API call carries a Copilot
  token as its \<open>Authorization\<close>, and GitHub issued that token in an answer to an exchange request; the
  URL is one of four under the API base that came with the token, which is again HTTPS, or it was
  parsed from the client's text and agrees with that base in scheme and host. Streams are opened by API calls only. And
  the entries in the cache were issued in this way.\<close>

theorem plugin_requests_safe:
  assumes "safe_world P b" "plugin_reach P w m jobs"
  shows "list_all (\<lambda>c. case c of
        CallDo r \<Rightarrow> github_call (Lib P) b (accepted P) r \<or> copilot_call (Outside P) (Lib P) b (accepted P) r
      | CallOpen r \<Rightarrow> copilot_call (Outside P) (Lib P) b (accepted P) r
      | _ \<Rightarrow> True) (calls m) \<and>
    (\<forall>k. case tokenEntries (svc m) k of
        None \<Rightarrow> True
      | Some e \<Rightarrow> issued (Outside P) (accepted P) e \<and> safe_base (Lib P) b (APIBaseURL e))"
proof -
  have "safe_machine P b m"
    using assms(2)
  proof (induction rule: plugin_reach.induct)
    case start
    then show ?case using New_safe [OF assms(1)] by simp
  next
    case (more m jobs m' jobs')
    then show ?case using step_safe [OF assms(1)] by blast
  qed
  then show ?thesis
    by (auto simp: upheld_def safe_service_def safe_entry_def safe_call_def [abs_def] split: option.split)
qed

text \<open>A host that answers every request with a token, and a raw call that is forwarded to the API.\<close>

definition sample_credential :: string where
  \<open>sample_credential = ''{"type":"copilot","github_access_token":"gho_1"}''\<close>

definition sample_http :: httpRequest where
  "sample_http =
     \<lparr> HTTPAuthID = ''a'', HTTPMethod = ''GET'', HTTPURL = ''https://api.githubcopilot.com'', HTTPHeaders = [],
       HTTPBody = [], HTTPStorageJSON = sample_credential, HTTPHostCallbackID = ''cb'' \<rparr>"

definition token_host :: "string list outside" where
  \<open>token_host = list_host\<lparr> DoHTTP := (\<lambda>cb r w.
     (Inr \<lparr> StatusCode = 200, RespHeaders = [], RespBody = ''{"token":"t1"}'' \<rparr>, w)) \<rparr>\<close>

definition sample_plugin :: "(string list, unit, string) plugin" where
  "sample_plugin =
     \<lparr> Outside = token_host, Lib = sample_lib, Yaml = (\<lambda>raw c. Inr (c\<lparr>AllowInsecureBaseURLs := False\<rparr>)), URLOrder = rev, BlockOrder = rev,
       Sdk = empty_sdk, Gjson = one_message, Codec = Inr (\<lambda>s. Inr 1),
       MethodPluginRegister = ''register'', MethodPluginReconfigure = ''reconfigure'', MethodModelStatic = ''static'',
       MethodModelForAuth = ''models'', MethodAuthIdentifier = ''auth_id'', MethodExecutorIdentifier = ''exec_id'',
       MethodAuthParse = ''parse'', MethodAuthLoginStart = ''login'', MethodAuthLoginPoll = ''poll'',
       MethodAuthRefresh = ''refresh'', MethodExecutorExecute = ''execute'', MethodExecutorExecuteStream = ''stream'',
       MethodExecutorCountTokens = ''count'', MethodExecutorHTTPRequest = ''http'',
       ReadModelRequest = (\<lambda>s. None), ReadParseRequest = (\<lambda>s. None), ReadLoginStart = Some, ReadLoginPoll = (\<lambda>s. None),
       ReadRefresh = (\<lambda>s. None), ReadExecute = (\<lambda>s. None), ReadHTTP = (\<lambda>s. Some sample_http),
       AbiSchemaVersion = 1, FieldString = ''string'', FieldInteger = ''integer'', FieldArray = ''array'', ScopeOAuth = ''oauth'',
       MarshalMetadata = (\<lambda>m. JNull), MarshalOther = (\<lambda>v. Inr ''{}''), OkEnvelope = (\<lambda>r. r),
       ErrEnvelope = (\<lambda>c m s r. m) \<rparr>"

lemma sample_plugin_sel:
  "Outside sample_plugin = token_host" "Lib sample_plugin = sample_lib" "URLOrder sample_plugin = rev"
  "Yaml sample_plugin = (\<lambda>raw c. Inr (c\<lparr>AllowInsecureBaseURLs := False\<rparr>))"
  by (simp_all add: sample_plugin_def)

lemma sample_world_safe: "safe_world sample_plugin False"
proof -
  have "validateBaseURL sample_lib defaultGitHubBaseURL False = None" "validateBaseURL sample_lib defaultGitHubAPIURL False = None"
    "validateBaseURL sample_lib defaultCopilotAPIURL False = None" by code_simp+
  moreover have "heeds good entry_ok token_host" for good entry_ok
    by (simp add: heeds_def token_host_def list_host_def)
  ultimately show ?thesis by (auto simp: safe_world_def sample_plugin_sel validateBaseURL_safe)
qed

definition api_call :: http_request where
  "api_call = api_request sample_http
     \<lparr> Token = ''t1'', APIBaseURL = defaultCopilotAPIURL, ExpiresAt = 0, Fingerprint = [] \<rparr>
     \<lparr> Scheme = ''https'', Host = ''api.githubcopilot.com'', Hostname = ''api.githubcopilot.com'', RawQuery = [],
       Fragment = [], UrlString = defaultCopilotAPIURL \<rparr>"

lemma sample_storage_read:
  "parseStorage sample_credential = Inr (empty_storage\<lparr> StorageType := ''copilot'', GitHubAccessToken := ''gho_1'' \<rparr>)"
  by code_simp

lemma sample_token_read:
  \<open>unmarshal token_response_fields ''{"token":"t1"}'' empty_token_response =
     Some (empty_token_response\<lparr> ResponseToken := ''t1'' \<rparr>)\<close>
  by code_simp

text \<open>The second call is the raw one: its URL ends like none of those of GitHub or of the four under an API base.\<close>

lemma sample_base:
  "copilotAPIBase sample_lib [] DefaultConfig = Inr defaultCopilotAPIURL"
  by code_simp

lemma sample_targets:
  "UrlParse sample_lib (TrimSpace (HTTPURL sample_http)) = Some
     \<lparr> Scheme = ''https'', Host = ''api.githubcopilot.com'', Hostname = ''api.githubcopilot.com'', RawQuery = [],
       Fragment = [], UrlString = defaultCopilotAPIURL \<rparr>"
  "UrlParse sample_lib defaultCopilotAPIURL = Some
     \<lparr> Scheme = ''https'', Host = ''api.githubcopilot.com'', Hostname = ''api.githubcopilot.com'', RawQuery = [],
       Fragment = [], UrlString = defaultCopilotAPIURL \<rparr>"
  by code_simp+

abbreviation "fresh \<equiv> \<lparr> svc = New, world = [] :: string list, calls = [] \<rparr>"

lemma sample_token:
  "\<exists>m e. copilotToken token_host sample_lib ''cb'' ''a'' (empty_storage\<lparr> StorageType := ''copilot'', GitHubAccessToken := ''gho_1'' \<rparr>) fresh = (Inr e, m) \<and>
     calls m = [CallDo (exchange_request DefaultConfig ''gho_1'')] \<and> Token e = ''t1'' \<and> APIBaseURL e = defaultCopilotAPIURL"
proof -
  have "TrimSpace ''t1'' = ''t1''" by code_simp
  then show ?thesis
    by (simp add: copilotToken_def step_def ServiceConfig_def locked_def lock_def token_host_def list_host_def New_def clock_def Let_def
        token_enter_def exchangeCopilotToken_def host_do_def read_token_def ok_status_def sample_token_read [unfolded empty_token_response_def]
        empty_token_response_def sample_base return_def token_leave_def empty_storage_def)
qed

lemma sample_calls:
  "\<exists>r m. dispatch sample_plugin ''http'' [] fresh = Some (r, None, m) \<and>
     calls m = [CallDo (exchange_request DefaultConfig ''gho_1''), CallDo api_call]"
proof -
  obtain m e where token: "copilotToken token_host sample_lib ''cb'' ''a''
      (empty_storage\<lparr> StorageType := ''copilot'', GitHubAccessToken := ''gho_1'' \<rparr>) fresh = (Inr e, m)"
    and e: "calls m = [CallDo (exchange_request DefaultConfig ''gho_1'')]" "Token e = ''t1''" "APIBaseURL e = defaultCopilotAPIURL"
    using sample_token by blast
  have "\<exists>r m'. forward_http token_host sample_lib sample_http e m = (r, m') \<and> calls m' = calls m @ [CallDo api_call]"
    by (simp add: forward_http_def sample_targets e same_origin_def and_then_def host_do_def token_host_def return_def
        api_call_def api_request_def)
  with token e have "\<exists>r m'. HTTP token_host sample_lib sample_http fresh = (r, m') \<and>
      calls m' = [CallDo (exchange_request DefaultConfig ''gho_1''), CallDo api_call]"
    by (simp add: HTTP_def and_then_def sample_http_def sample_storage_read)
  then show ?thesis
    by (fastforce simp: dispatch_def sample_plugin_def Let_def with_request_def done_with_def)
qed

text \<open>The second call is the raw one: its URL ends like none of those of GitHub or of the four under an API base.\<close>

theorem plugin_requests_safe_witness:
  "\<exists>e base. issued token_host (accepted sample_plugin) e \<and>
     map_of (Headers api_call) ''Authorization'' = Some [''Bearer '' @ Token e] \<and>
     UrlParse sample_lib (APIBaseURL e) = Some base \<and> EqualFold ''api.githubcopilot.com'' (Host base)"
proof -
  obtain r m where run: "dispatch sample_plugin ''http'' [] fresh = Some (r, None, m)"
    and made: "calls m = [CallDo (exchange_request DefaultConfig ''gho_1''), CallDo api_call]"
    using sample_calls by blast
  have "plugin_reach sample_plugin [] m []"
    by (rule plugin_reach.more [OF plugin_reach.start plugin_step.handled [OF run]])
  from plugin_requests_safe [OF sample_world_safe this] made
  have "github_call sample_lib False (accepted sample_plugin) api_call \<or>
      copilot_call token_host sample_lib False (accepted sample_plugin) api_call"
    by (simp add: sample_plugin_sel)
  moreover have url: "URL api_call = ''https://api.githubcopilot.com''"
    by (simp add: api_call_def api_request_def defaultCopilotAPIURL_def)
  have no_path: "URL api_call \<noteq> base @ p"
    if "p \<in> {''/login/device/code'', ''/login/oauth/access_token'', ''/copilot_internal/v2/token'', ''/user'',
      ''/models'', ''/responses'', ''/chat/completions'', ''/v1/messages''}" for base p
  proof
    assume "URL api_call = base @ p"
    then have "last (base @ p) = last ''https://api.githubcopilot.com''" using url by metis
    then have "last (base @ p) = CHR ''m''" by simp
    with that show False by auto
  qed
  ultimately show ?thesis
    using url no_path
    by (auto simp: github_call_def github_urls_def copilot_call_def copilot_urls_def sample_lib_def split: if_splits)
qed

end
