(* ===== verification/Wire.thy ===== *)
theory Wire
  imports Json_Wf Streams Sse Sse_Frame Responses_Claude
begin

text \<open>
  What a stream prints is what its client reads. An operation \<open>prints\<close> good output when each piece
  it emits is good in every state that satisfies an invariant, which it keeps; the locale
  \<open>stream_output\<close> lifts this to whole runs. The second part reads a list of printed SSE frames
  back.
\<close>

subsection \<open>What the payloads are made of\<close>

lemma shallow_number [simp]: "wf_json v \<Longrightarrow> shallow n (numberValue v)"
  using wf_numberValue [of v] by (cases v) (simp_all add: shallow_def)

text \<open>The constant strings of the payloads are ASCII.\<close>

lemmas ascii_simps = valid_ascii_Cons byte_def

lemma stop_reason_utf8: "valid_utf8 (responsesStopReason root tool)"
  by (simp add: responsesStopReason_def Let_def ascii_simps)

lemma reasoning_utf8: "wf_obj item \<Longrightarrow> valid_utf8 (responsesReasoningText item)"
proof -
  assume item: "wf_obj item"
  have piece: "valid_utf8 (reasoning_piece v)" if "wf_json v" for v
    using that by (cases v) (simp_all add: reasoning_piece_def wf_obj_def [symmetric] del: wf_json.simps(6))
  have concat: "valid_utf8 (concat (map reasoning_piece vs))" if "list_all wf_json vs" for vs
    using that by (induction vs) (simp_all add: valid_utf8_append piece)
  have "valid_utf8 (first_nonempty_field item ks)" for ks
    by (induction ks) (simp_all add: Let_def concat wf_arrayValue item)
  then show ?thesis by (simp only: responsesReasoningText_def)
qed

subsection \<open>Operations with good output\<close>

definition prints :: "('o \<Rightarrow> bool) \<Rightarrow> ('s \<Rightarrow> bool) \<Rightarrow> ('o, 's) op \<Rightarrow> bool" where
  "prints good I f \<longleftrightarrow> (\<forall>s. I s \<longrightarrow> list_all good (fst (f s)) \<and> I (snd (f s)))"

lemma printsI: "(\<And>s. I s \<Longrightarrow> list_all good (fst (f s)) \<and> I (snd (f s))) \<Longrightarrow> prints good I f"
  by (simp add: prints_def)

lemma printsD: "prints good I f \<Longrightarrow> I s \<Longrightarrow> list_all good (fst (f s)) \<and> I (snd (f s))"
  by (simp add: prints_def)

lemma prints_pair: "prints good I f \<Longrightarrow> I s \<Longrightarrow> f s = (out, s') \<Longrightarrow> list_all good out \<and> I s'"
  using printsD by fastforce

lemma prints_skip [simp]: "prints good I skip_out"
  by (simp add: prints_def skip_out_def)

lemma prints_bind [simp]: "prints good I f \<Longrightarrow> prints good I g \<Longrightarrow> prints good I (bind_out f g)"
  by (simp add: prints_def bind_out_def split_beta)

lemma prints_if: "prints good I f \<Longrightarrow> prints good I g \<Longrightarrow> prints good I (\<lambda>s. if P s then f s else g s)"
  by (simp add: prints_def)

locale stream_output =
  fixes handle :: "'i \<Rightarrow> 's \<Rightarrow> 'o list res \<times> 's"
    and good :: "'o \<Rightarrow> bool"
    and I :: "'s \<Rightarrow> bool"
  assumes handle_good: "I s \<Longrightarrow> handle i s = (r, s') \<Longrightarrow> I s' \<and> (\<forall>out. r = Inr out \<longrightarrow> list_all good out)"
begin

lemma run_good: "I s \<Longrightarrow> run_stream handle s is = (outs, e, s') \<Longrightarrow> list_all good outs"
proof (induction "is" arbitrary: s outs)
  case (Cons i "is")
  obtain r s1 where h: "handle i s = (r, s1)" by fastforce
  note step = handle_good [OF Cons.prems(1) h]
  show ?case
  proof (cases r)
    case (Inl x)
    with Cons.prems(2) h show ?thesis by simp
  next
    case (Inr out)
    obtain outs1 where run: "run_stream handle s1 is = (outs1, e, s')" "outs = out @ outs1"
      using Cons.prems(2) h Inr by (auto split: prod.splits)
    with Cons.IH [of s1 outs1] step Inr show ?thesis by simp
  qed
qed simp

end

subsection \<open>Reading chunks\<close>

text \<open>A Chat Completions chunk is printed as plain JSON; its client decodes it.\<close>

abbreviation print_chunk :: "obj \<Rightarrow> string" where
  "print_chunk p \<equiv> encode (JObj p)"

definition good_chunk :: "obj \<Rightarrow> bool" where
  "good_chunk p \<longleftrightarrow> shallow 10 (JObj p)"

lemma read_chunks_print: "list_all good_chunk chunks \<Longrightarrow> map decodeObject (map print_chunk chunks) = map Inr chunks"
  by (auto simp: list_all_iff good_chunk_def shallow_def intro!: decodeObject_encode
      simp del: encode.simps wf_json.simps jdepth.simps shallow_nested)

subsection \<open>Reading frames\<close>

text \<open>The event of a frame: its name, or the \<open>type\<close> of its payload, and the payload.\<close>

definition frame_event :: "string \<Rightarrow> (string \<times> obj) option" where
  "frame_event frame =
     (case parseSSEFrame frame of
        Inl e \<Rightarrow> None
      | Inr (event, data, fin) \<Rightarrow>
          (if fin then None
           else case data of
               None \<Rightarrow> None
             | Some d \<Rightarrow>
                 (case decodeObject d of
                    Inl e \<Rightarrow> None
                  | Inr payload \<Rightarrow> Some (if event = [] then stringValue (fld payload ''type'') else event, payload))))"

text \<open>The events a client reads off the bytes of a stream.\<close>

definition read_events :: "string \<Rightarrow> (string \<times> obj) option list" where
  "read_events bytes = map frame_event (read_frames new_decoder [bytes])"

lemma frameEnd_skip:
  "\<not> HasPrefix (c # s) lf2 \<Longrightarrow> \<not> HasPrefix (c # s) crlf2 \<Longrightarrow>
   frameEnd (c # s) = map_option (\<lambda>(e, w). (Suc e, w)) (frameEnd s)"
  by (auto simp: frameEnd_def split: option.splits)

lemma frameEnd_line:
  assumes "no_ctl x"
  shows "frameEnd (x @ s) = map_option (\<lambda>(e, w). (length x + e, w)) (frameEnd s)"
  using assms
proof (induction x)
  case (Cons c x)
  then have "c \<noteq> CHR 0x0A" "c \<noteq> CHR 0x0D" by (auto simp: byte_def)
  with Cons frameEnd_skip [of c "x @ s"] show ?case
    by (cases "frameEnd s") (auto simp: HasPrefix_def lf2_def crlf2_def)
qed (cases "frameEnd s"; auto)

lemma claudeSSE_frame:
  assumes "no_ctl event" "wf_json (JObj m)"
  shows "sse_frame (claudeSSE (event, m))"
proof -
  define x y where "x = ''event: '' @ event" and "y = ''data: '' @ encode (JObj m)"
  have xy: "no_ctl x" "no_ctl y"
    using assms encode_no_ctl [OF assms(2)] by (simp_all add: x_def y_def byte_def del: encode.simps)
  have "frameEnd (lf @ lf) = Some (0, 2)" by code_simp
  then have y: "frameEnd (y @ lf @ lf) = Some (length y, 2)" using frameEnd_line [OF xy(2)] by simp
  moreover have "frameEnd (lf @ y @ lf @ lf) = Some (Suc (length y), 2)"
    using frameEnd_skip [of "CHR 0x0A" "y @ lf @ lf"] y
    by (simp add: lf_def y_def HasPrefix_def lf2_def crlf2_def del: encode.simps)
  then have "frameEnd (x @ lf @ y @ lf @ lf) = Some (length x + Suc (length y), 2)"
    using frameEnd_line [OF xy(1)] by simp
  moreover have "claudeSSE (event, m) = x @ lf @ y @ lf @ lf"
    by (simp add: claudeSSE_def x_def y_def)
  ultimately show ?thesis by (simp add: sse_frame_def lf_def)
qed

lemma drain_concat_frames: "list_all sse_frame fs \<Longrightarrow> drain (concat fs) = (fs, [])"
proof (induction fs)
  case Nil
  have "frameEnd [] = None" by code_simp
  then show ?case by (simp add: drain_None)
next
  case (Cons f fs)
  then obtain e w where e: "frameEnd f = Some (e, w)" "e + w = length f" by (auto simp: sse_frame_def)
  from Cons e(2) show ?case by (simp add: drain_Some [OF frameEnd_append [OF e(1)]])
qed

lemma read_frames_concat:
  assumes "list_all sse_frame fs"
  shows "read_frames new_decoder [concat fs] = fs"
proof -
  have "Feed new_decoder (concat fs) = (fs, new_decoder)"
    unfolding Feed_nonempty_or_drained [OF drained_new] using drain_concat_frames [OF assms] by (simp add: new_decoder_def)
  then show ?thesis by (simp add: Flush_def new_decoder_def)
qed

text \<open>An event whose print is read as the same event.\<close>

definition sse_event :: "string \<times> obj \<Rightarrow> bool" where
  "sse_event ep \<longleftrightarrow> fst ep \<noteq> [] \<and> no_ctl (fst ep) \<and> TrimSpace (fst ep) = fst ep \<and> printable (JObj (snd ep))"

lemma frame_event_print:
  assumes "sse_event ep"
  shows "frame_event (claudeSSE ep) = Some ep"
proof (cases ep)
  case (Pair event m)
  with assms have p: "printable (JObj m)" "event \<noteq> []" "no_ctl event" "TrimSpace event = event"
    by (simp_all add: sse_event_def)
  with parse_claudeSSE [OF p(3,4,1)] Pair show ?thesis
    by (simp add: frame_event_def decodeObject_encode printable_def del: encode.simps wf_json.simps jdepth.simps)
qed

lemma read_events_print:
  assumes "list_all sse_event events"
  shows "read_events (concat (map claudeSSE events)) = map Some events"
proof -
  have "list_all sse_frame (map claudeSSE events)"
    using assms by (auto simp: list_all_iff sse_event_def printable_def intro!: claudeSSE_frame simp del: wf_json.simps)
  from read_frames_concat [OF this] assms frame_event_print show ?thesis
    by (simp add: read_events_def list_all_iff)
qed

text \<open>C19: the frames \<open>claudeSSE\<close> writes, one after the other and cut into chunks in any way, are read
  back by the decoder, \<open>parseSSEFrame\<close> and \<open>decodeObject\<close> as the same events and payloads.\<close>

theorem sse_stream_round_trip:
  assumes "list_all sse_event events" "concat chunks = concat (map claudeSSE events)"
  shows "map frame_event (read_frames new_decoder chunks) = map Some events"
proof -
  have "read_frames new_decoder chunks = read_frames new_decoder [concat chunks]"
    by (rule read_frames_rechunk) simp
  with read_events_print [OF assms(1)] assms(2) show ?thesis by (simp add: read_events_def del: read_frames.simps)
qed

text \<open>Two events, byte by byte.\<close>

definition two_events :: "(string \<times> obj) list" where
  "two_events = [(''ping'', []), (''message_stop'', mk_obj [(''type'', JStr ''message_stop'')])]"

theorem sse_stream_round_trip_witness:
  "map frame_event (read_frames new_decoder (map (\<lambda>c. [c]) (concat (map claudeSSE two_events)))) = map Some two_events"
proof (rule sse_stream_round_trip)
  show "list_all sse_event two_events" by code_simp
  show "concat (map (\<lambda>c. [c]) (concat (map claudeSSE two_events))) = concat (map claudeSSE two_events)" by simp
qed

text \<open>The events of the translators: few levels, so the printing is bounded.\<close>

definition good_sse :: "string \<times> obj \<Rightarrow> bool" where
  "good_sse ep \<longleftrightarrow> fst ep \<noteq> [] \<and> no_ctl (fst ep) \<and> TrimSpace (fst ep) = fst ep \<and> shallow 10 (JObj (snd ep))"

lemma good_sse_event: "good_sse ep \<Longrightarrow> sse_event ep"
  by (simp add: good_sse_def sse_event_def shallow_printable [of 10] del: shallow_nested)

lemma read_good_events: "list_all good_sse events \<Longrightarrow> read_events (concat (map claudeSSE events)) = map Some events"
  by (rule read_events_print) (auto simp: list_all_iff good_sse_event)

end
