(* ===== verification/Claude_Wire.thy ===== *)
theory Claude_Wire
  imports Wire Claude_Protocol
begin

text \<open>
  Every event of the Responses-to-Claude translator is read by its client as it was made: the
  strings the translator keeps are valid UTF-8, because the decoder replaces what is not, and
  every operation prints payloads of valid strings, numbers and a bounded nesting.
\<close>

definition block_texts :: "responsesClaudeBlock \<Rightarrow> bool" where
  "block_texts b \<longleftrightarrow> valid_utf8 (Encrypted b) \<and> valid_utf8 (FunctionID b) \<and> valid_utf8 (FunctionName b)"

definition claude_texts :: "responsesClaudeStreamState \<Rightarrow> bool" where
  "claude_texts s \<longleftrightarrow> valid_utf8 (Model s) \<and> (\<forall>k b. map_of (Blocks s) k = Some b \<longrightarrow> block_texts b)"

abbreviation claude_prints :: "(sse, responsesClaudeStreamState) op \<Rightarrow> bool" where
  "claude_prints \<equiv> prints good_sse claude_texts"

lemma claude_texts_block: "claude_texts s \<Longrightarrow> map_of (Blocks s) k = Some b \<Longrightarrow> block_texts b"
  by (simp add: claude_texts_def)

lemma claude_texts_upd:
  "claude_texts s \<Longrightarrow> (\<And>b. block_texts b \<Longrightarrow> block_texts (f b)) \<Longrightarrow> claude_texts (upd_block k f s)"
  by (auto simp: claude_texts_def)

lemma claude_texts_new: "valid_utf8 model \<Longrightarrow> claude_texts (new_claude_stream model)"
  by (simp add: claude_texts_def new_claude_stream_def)

subsection \<open>The events\<close>

lemma event_names:
  "good_sse (''message_start'', m) = shallow 10 (JObj m)"
  "good_sse (''content_block_start'', m) = shallow 10 (JObj m)"
  "good_sse (''content_block_delta'', m) = shallow 10 (JObj m)"
  "good_sse (''content_block_stop'', m) = shallow 10 (JObj m)"
  "good_sse (''message_delta'', m) = shallow 10 (JObj m)"
  "good_sse (''message_stop'', m) = shallow 10 (JObj m)"
  by (simp_all add: good_sse_def byte_def TrimSpace_graphic graphic_def del: shallow_nested)

lemma good_start:
  "valid_utf8 mid \<Longrightarrow> valid_utf8 model \<Longrightarrow> wf_json v \<Longrightarrow> good_sse (start_frame (start_message mid model (numberValue v)))"
  by (simp add: start_frame_def start_message_def event_names ascii_simps)

lemma good_events:
  "list_all (member_ok 8) content \<Longrightarrow> good_sse (block_start i (mk_obj content))"
  "good_sse (block_stop i)"
  "valid_utf8 dt \<Longrightarrow> valid_utf8 field \<Longrightarrow> valid_utf8 v \<Longrightarrow> good_sse (block_delta i dt field v)"
  "valid_utf8 reason \<Longrightarrow> wf_json n \<Longrightarrow> good_sse (message_delta reason (mk_obj [(''output_tokens'', numberValue n)]))"
  "good_sse message_stop"
  by (simp_all add: block_start_def block_stop_def block_delta_def message_delta_def message_stop_def event_names ascii_simps)

subsection \<open>The operations\<close>

lemma start_prints:
  assumes "wf_obj payload"
  shows "claude_prints (start_if_needed event payload)"
proof (rule printsI)
  fix s assume s: "claude_texts s"
  have "valid_utf8 ''msg_copilot''" by (simp add: ascii_simps)
  with s assms show "list_all good_sse (fst (start_if_needed event payload s)) \<and> claude_texts (snd (start_if_needed event payload s))"
    by (simp add: start_if_needed_def start_def Let_def good_start claude_texts_def del: firstNonEmptyString.simps)
qed

lemma block_prints: "claude_texts s \<Longrightarrow> claude_texts (snd (block key kind s))"
  by (auto simp: block_def Let_def claude_texts_def block_texts_def split: option.split)

lemma open_prints:
  assumes "\<And>b. block_texts b \<Longrightarrow> list_all (member_ok 8) (fs b)" "content = (\<lambda>b. mk_obj (fs b))"
  shows "claude_prints (open_with content key)"
proof (rule printsI)
  fix s assume s: "claude_texts s"
  then have "claude_texts (upd_block key (\<lambda>b. b\<lparr>Open := True\<rparr>) s)"
    by (rule claude_texts_upd) (simp add: block_texts_def)
  with s show "list_all good_sse (fst (open_with content key s)) \<and> claude_texts (snd (open_with content key s))"
    by (auto simp: open_with_def assms(2) good_events(1) assms(1) claude_texts_block split: option.split)
qed

lemma redacted_data: "valid_utf8 s \<Longrightarrow> valid_utf8 (TrimPrefix s redactedThinkingPrefix)"
  by (rule valid_TrimPrefix) (simp_all add: redactedThinkingPrefix_def byte_def)

lemma openText_prints: "claude_prints (openText key)"
  unfolding openText_def by (rule open_prints [OF _ refl]) (simp add: ascii_simps)

lemma openThinking_prints: "claude_prints (openThinking key)"
  unfolding openThinking_def
  by (rule open_prints [where fs = "\<lambda>b. if HasPrefix (Encrypted b) redactedThinkingPrefix
       then [(''type'', JStr ''redacted_thinking''), (''data'', JStr (TrimPrefix (Encrypted b) redactedThinkingPrefix))]
       else [(''type'', JStr ''thinking''), (''thinking'', JStr [])]"])
    (simp_all add: ascii_simps block_texts_def redacted_data fun_eq_iff)

lemma openTool_prints: "claude_prints (openTool key)"
  unfolding openTool_def by (rule open_prints [OF _ refl]) (simp add: ascii_simps block_texts_def)

lemma delta_prints:
  assumes "valid_utf8 dt" "valid_utf8 field" "valid_utf8 v"
  shows "claude_prints (delta key dt field v)"
proof (rule printsI)
  fix s assume s: "claude_texts s"
  then have "claude_texts (upd_block key (\<lambda>b. b\<lparr>SawDelta := True, Accumulated := Accumulated b @ v\<rparr>) s)"
    by (rule claude_texts_upd) (simp add: block_texts_def)
  with s show "list_all good_sse (fst (delta key dt field v s)) \<and> claude_texts (snd (delta key dt field v s))"
    by (simp add: delta_def good_events assms split: option.split)
qed

lemma close_prints: "claude_prints (closeBlock key)"
proof (rule printsI)
  fix s assume s: "claude_texts s"
  then have "claude_texts (upd_block key (\<lambda>b. b\<lparr>Open := False\<rparr>) s)"
    by (rule claude_texts_upd) (simp add: block_texts_def)
  with s show "list_all good_sse (fst (closeBlock key s)) \<and> claude_texts (snd (closeBlock key s))"
    by (simp add: closeBlock_def good_events split: option.split)
qed

lemma close_all_prints: "claude_prints (close_all ks)"
  by (induction ks) (simp_all add: close_prints)

lemma finish_prints:
  assumes "wf_obj response"
  shows "claude_prints (finish order response)"
proof (rule printsI)
  fix s assume s: "claude_texts s"
  with printsD [OF close_all_prints s, of "order (map fst (Blocks s))"] assms
  show "list_all good_sse (fst (finish order response s)) \<and> claude_texts (snd (finish order response s))"
    by (simp add: finish_def Let_def split_beta good_events stop_reason_utf8) (simp add: claude_texts_def)
qed

lemma claude_printsD [simp]:
  "claude_prints f \<Longrightarrow> claude_texts s \<Longrightarrow> list_all good_sse (fst (f s))"
  "claude_prints f \<Longrightarrow> claude_texts s \<Longrightarrow> claude_texts (snd (f s))"
  by (simp_all add: prints_def)

lemma enter_prints:
  assumes "\<And>key. claude_prints (opener key)" "\<And>b. block_texts b \<Longrightarrow> block_texts (f b)"
  shows "claude_prints (enter key kind f opener)"
  using assms by (intro printsI) (simp add: enter_def split_beta claude_texts_upd block_prints)

subsection \<open>One upstream event\<close>

lemma field_names:
  "valid_utf8 ''text_delta''" "valid_utf8 ''text''" "valid_utf8 ''thinking_delta''" "valid_utf8 ''thinking''"
  "valid_utf8 ''input_json_delta''" "valid_utf8 ''partial_json''" "valid_utf8 ''signature_delta''" "valid_utf8 ''signature''"
  by (simp_all add: ascii_simps)

lemma set_function_texts: "wf_obj item \<Longrightarrow> block_texts b \<Longrightarrow> block_texts (set_function item b)"
  by (simp add: block_texts_def set_function_def)

lemma fill_function_texts: "wf_obj payload \<Longrightarrow> block_texts b \<Longrightarrow> block_texts (fill_function payload b)"
  by (simp add: block_texts_def fill_function_def del: firstNonEmptyString.simps)

lemma encrypted_texts: "valid_utf8 v \<Longrightarrow> block_texts b \<Longrightarrow> block_texts (b\<lparr>Encrypted := v\<rparr>)"
  by (simp add: block_texts_def)

lemmas claude_op_prints = enter_prints openText_prints openThinking_prints openTool_prints delta_prints close_prints
  field_names set_function_texts fill_function_texts encrypted_texts reasoning_utf8

lemma added_prints:
  "wf_obj payload \<Longrightarrow> claude_prints (item_added payload)"
  "wf_obj payload \<Longrightarrow> claude_prints (content_part_added payload)"
  by (simp_all add: item_added_def content_part_added_def Let_def claude_op_prints del: firstRawString.simps)

lemma delta_event_prints:
  assumes "wf_obj payload"
  shows "claude_prints (text_delta_event payload)" "claude_prints (reasoning_delta_event payload)"
    "claude_prints (arguments_delta_event payload)"
  using assms
  by (simp_all add: text_delta_event_def reasoning_delta_event_def arguments_delta_event_def claude_op_prints)

lemma done_enter_prints: "wf_obj payload \<Longrightarrow> claude_prints (done_enter payload)"
proof (rule printsI)
  fix s assume "wf_obj payload" "claude_texts s"
  then show "list_all good_sse (fst (done_enter payload s)) \<and> claude_texts (snd (done_enter payload s))"
    by (simp add: done_enter_def Let_def claude_op_prints)
qed

lemma done_thinking_prints:
  assumes "wf_obj item"
  shows "claude_prints (done_thinking item key)"
proof (rule printsI)
  fix s assume s: "claude_texts s"
  show "list_all good_sse (fst (done_thinking item key s)) \<and> claude_texts (snd (done_thinking item key s))"
  proof (cases "map_of (Blocks s) key")
    case None
    with s show ?thesis by (simp add: done_thinking_def)
  next
    case (Some b)
    define encrypted where "encrypted = firstNonEmptyString [stringValue (fld item ''encrypted_content''), Encrypted b]"
    have e: "valid_utf8 encrypted"
      using claude_texts_block [OF s Some] assms by (simp add: encrypted_def block_texts_def del: firstNonEmptyString.simps)
    have sign: "claude_prints (\<lambda>s1. (if encrypted \<noteq> [] \<and> \<not> HasPrefix encrypted redactedThinkingPrefix
         then delta key ''signature_delta'' ''signature'' encrypted else skip_out)
       (upd_block key (\<lambda>b. b\<lparr>Encrypted := encrypted\<rparr>) s1))"
      by (rule printsI) (simp add: e claude_op_prints claude_texts_upd)
    have "claude_prints (bind_out (if \<not> SawDelta b
        then delta key ''thinking_delta'' ''thinking'' (responsesReasoningText item) else skip_out)
      (\<lambda>s1. (if encrypted \<noteq> [] \<and> \<not> HasPrefix encrypted redactedThinkingPrefix
         then delta key ''signature_delta'' ''signature'' encrypted else skip_out)
       (upd_block key (\<lambda>b. b\<lparr>Encrypted := encrypted\<rparr>) s1)))"
      using assms by (intro prints_bind sign) (simp add: claude_op_prints)
    from printsD [OF this s] show ?thesis
      unfolding done_thinking_def Some encrypted_def Let_def by simp
  qed
qed

lemma done_body_prints:
  assumes "wf_obj item"
  shows "claude_prints (done_body item key)"
proof (rule printsI)
  fix s assume s: "claude_texts s"
  have "claude_prints (delta key ''input_json_delta'' ''partial_json'' (firstRawString item [''arguments'', ''input'']))"
    using assms by (simp add: claude_op_prints del: firstRawString.simps)
  with s show "list_all good_sse (fst (done_body item key s)) \<and> claude_texts (snd (done_body item key s))"
    using done_thinking_prints [OF assms]
    by (simp add: done_body_def done_tool_def split: option.split del: firstRawString.simps)
qed

lemma item_done_prints: "wf_obj payload \<Longrightarrow> claude_prints (item_done payload)"
  by (simp add: item_done_def done_enter_prints done_body_prints close_prints)

lemma body_event_prints: "wf_obj payload \<Longrightarrow> claude_prints (body_event event payload)"
  by (simp add: body_event_def added_prints delta_event_prints close_prints item_done_prints)

lemma claude_event_prints:
  assumes "wf_obj payload" "claude_texts s" "claude_event order (event, payload) s = (r, s')"
  shows "claude_texts s' \<and> (\<forall>out. r = Inr out \<longrightarrow> list_all good_sse out)"
proof -
  have body: "claude_prints (bind_out (start_if_needed ev payload) (body_event ev payload))"
    and fin: "claude_prints (bind_out (start_if_needed ev payload) (finish order (objectValue (fld payload ''response''))))" for ev
    using assms(1) by (simp_all add: start_prints body_event_prints finish_prints)
  note pairs = body [THEN prints_pair, OF assms(2)] fin [THEN prints_pair, OF assms(2)]
  from assms show ?thesis
    by (auto simp: claude_event_def Let_def start_prints dest: pairs split: if_splits option.splits prod.splits)
qed

interpretation claude_output: stream_output "claude_frame order" good_sse claude_texts for order
proof unfold_locales
  fix s :: responsesClaudeStreamState and i r s'
  assume "claude_texts s" "claude_frame order i s = (r, s')"
  then show "claude_texts s' \<and> (\<forall>out. r = Inr out \<longrightarrow> list_all good_sse out)"
    by (auto simp: claude_frame_def dest!: claude_event_prints [rotated 2] dest: decodeObject_wf
        split: sum.splits prod.splits if_splits option.splits)
qed

text \<open>The bytes of the events of a run are read as these events.\<close>

lemma claude_run_read:
  "valid_utf8 model \<Longrightarrow> run_stream (claude_frame order) (new_claude_stream model) frames = (outs, e, s) \<Longrightarrow>
   read_events (concat (map claudeSSE outs)) = map Some outs"
  by (rule read_good_events, rule claude_output.run_good [OF claude_texts_new])

end
