(* ===== verification/Chat_Wire.thy ===== *)
theory Chat_Wire
  imports Wire OpenAI_Stream_Facts
begin

text \<open>
  Every chunk of the Responses-to-Chat-Completions translator is decoded by its client as it was
  made. The deltas and chunks here are those of both translators to Chat Completions.
\<close>

subsection \<open>The chunks\<close>

lemma good_payload:
  assumes "valid_utf8 cid" "valid_utf8 model" "shallow 0 created" "shallow 7 (JObj delta)" "shallow 7 reason"
    and "\<And>u. usage = Some u \<Longrightarrow> shallow 9 (JObj u)"
  shows "good_chunk (chunk_payload cid model created delta reason usage)"
  using assms by (simp add: good_chunk_def chunk_payload_def Let_def ascii_simps shallow_0 [of created] split: option.split)

lemma good_deltas:
  "shallow 7 (JObj role_delta)"
  "shallow 7 (JObj [])"
  "valid_utf8 field \<Longrightarrow> valid_utf8 v \<Longrightarrow> shallow 7 (JObj (text_delta field v))"
  "valid_utf8 cid \<Longrightarrow> valid_utf8 name \<Longrightarrow> shallow 7 (JObj (tool_announce i cid name))"
  "valid_utf8 arguments \<Longrightarrow> shallow 7 (JObj (tool_args i arguments))"
  by (simp_all add: role_delta_def text_delta_def tool_announce_def tool_args_def ascii_simps)

lemma good_usage:
  assumes "wf_obj usage"
  shows "shallow 9 (JObj (responsesUsageToOpenAI usage))"
proof -
  have nested: "wf_obj (objectValue (fld usage k))" for k using assms by simp
  show ?thesis
    using assms wf_map_of [OF assms] wf_map_of [OF nested]
    by (simp add: responsesUsageToOpenAI_def Let_def ascii_simps split: option.split)
qed

lemma reason_utf8:
  "valid_utf8 (responsesFinishReason root b)" "valid_utf8 (claudeFinishReason reason b)"
  by (simp_all add: responsesFinishReason_def claudeFinishReason_def Let_def ascii_simps)

subsection \<open>Finished responses\<close>

lemma valid_concat: "list_all valid_utf8 ss \<Longrightarrow> valid_utf8 (concat ss)"
  by (induction ss) (simp_all add: valid_utf8_append)

lemma item_texts_utf8:
  assumes "wf_json v"
  shows "valid_utf8 (part_text v)" "valid_utf8 (part_refusal v)" "valid_utf8 (item_reasoning v)"
    "list_all wf_json (item_parts v)" "list_all (shallow 5) (item_tools v)"
  using assms
  by (simp_all add: part_text_def part_refusal_def item_reasoning_def item_parts_def item_tools_def tool_call_def Let_def
      reasoning_utf8 wf_arrayValue ascii_simps del: firstString.simps firstRawString.simps)

lemma collected_utf8:
  assumes "list_all wf_json is"
  shows "valid_utf8 (op_text (fold collect_item is no_parts))" "valid_utf8 (op_reasoning (fold collect_item is no_parts))"
    "valid_utf8 (op_refusal (fold collect_item is no_parts))" "list_all (shallow 5) (op_tools (fold collect_item is no_parts))"
proof -
  have "wf_json x" if "v \<in> set is" "x \<in> set (item_parts v)" for v x
    using assms item_texts_utf8(4) [of v] that by (auto simp: list_all_iff)
  then show "valid_utf8 (op_text (fold collect_item is no_parts))" "valid_utf8 (op_refusal (fold collect_item is no_parts))"
    by (auto simp: fold_collect_item no_parts_def list_all_iff intro!: valid_concat item_texts_utf8)
  show "valid_utf8 (op_reasoning (fold collect_item is no_parts))" "list_all (shallow 5) (op_tools (fold collect_item is no_parts))"
    using assms item_texts_utf8 by (auto simp: fold_collect_item no_parts_def list_all_iff intro!: valid_concat)
qed

lemma message_shallow:
  assumes "valid_utf8 (op_text acc)" "valid_utf8 (op_reasoning acc)" "valid_utf8 (op_refusal acc)" "list_all (shallow 5) (op_tools acc)"
  shows "shallow 7 (JObj (openai_message acc))"
  using assms by (simp add: openai_message_def Let_def ascii_simps)

lemma completion_shallow:
  assumes "wf_obj root" "valid_utf8 model" "responsesOpenAI_obj model root = Inr out"
  shows "shallow 10 (JObj out)"
proof -
  define acc where "acc = fold collect_item (arrayValue (fld root ''output'')) no_parts"
  have "list_all wf_json (arrayValue (fld root ''output''))" using assms(1) by (simp add: wf_arrayValue)
  note message = message_shallow [OF collected_utf8 [OF this], folded acc_def]
  have usage: "shallow 9 (JObj (responsesUsageToOpenAI (objectValue (fld root ''usage''))))"
    by (rule good_usage) (simp add: assms(1))
  have "out = completion (firstNonEmptyString [stringValue (fld root ''id''), ''chatcmpl-copilot''])
      (numberValue (fld root ''created_at'')) (firstNonEmptyString [stringValue (fld root ''model''), model])
      (openai_message acc) (responsesFinishReason root (op_tools acc \<noteq> []))
      (responsesUsageToOpenAI (objectValue (fld root ''usage'')))"
    using assms(3) by (simp add: responsesOpenAI_obj_def acc_def Let_def del: firstNonEmptyString.simps split: option.splits)
  with message usage assms(1,2) show ?thesis
    by (simp add: completion_def ascii_simps reason_utf8 del: firstNonEmptyString.simps)
qed

text \<open>C17: a Chat Completions client gets everything the Responses output holds, from the bytes of the
  upstream to what it decodes: the texts of all message parts in order, the reasoning, the refusals, and
  one tool call for each call item, in order; \<open>content\<close> is \<open>null\<close> only beside tool calls.\<close>

theorem completion_served:
  assumes "responsesResponseToOpenAI model body = Inr answer" "valid_utf8 model"
  shows "\<exists>root out. decodeObject body = Inr root \<and> decodeObject answer = Inr out \<and> completion_holds root out"
proof -
  obtain root out where o: "decodeObject body = Inr root" "responsesOpenAI_obj model root = Inr out"
    "answer = encode (JObj out)"
    using assms(1) by (auto simp: responsesResponseToOpenAI_def simp del: encode.simps split: sum.splits)
  have "shallow 10 (JObj out)" by (rule completion_shallow [OF decodeObject_wf [OF o(1)] assms(2) o(2)])
  then have "decodeObject answer = Inr out"
    by (simp add: o(3) decodeObject_encode shallow_def del: encode.simps wf_json.simps jdepth.simps shallow_nested)
  with responses_openai_complete [of root model] o(1,2) show ?thesis by auto
qed

theorem completion_served_witness:
  \<open>\<exists>root out. decodeObject ''{"output":[{"type":"message","content":[{"type":"output_text","text":"Hi"}]}]}'' = Inr root \<and>
     decodeObject ''{"choices":[{"finish_reason":"stop","index":0,"message":{"content":"Hi","role":"assistant"}}],"created":0,"id":"chatcmpl-copilot","model":"m","object":"chat.completion","usage":{"completion_tokens":0,"prompt_tokens":0,"total_tokens":0}}'' =
       Inr out \<and> completion_holds root out\<close>
proof (rule completion_served)
  show \<open>responsesResponseToOpenAI ''m'' ''{"output":[{"type":"message","content":[{"type":"output_text","text":"Hi"}]}]}'' =
    Inr ''{"choices":[{"finish_reason":"stop","index":0,"message":{"content":"Hi","role":"assistant"}}],"created":0,"id":"chatcmpl-copilot","model":"m","object":"chat.completion","usage":{"completion_tokens":0,"prompt_tokens":0,"total_tokens":0}}''\<close>
    by code_simp
  show "valid_utf8 ''m''" by (simp add: ascii_simps)
qed

subsection \<open>The Responses translator\<close>

definition item_texts :: "responsesOpenAIItem \<Rightarrow> bool" where
  "item_texts it \<longleftrightarrow> valid_utf8 (CallID it) \<and> valid_utf8 (Name it)"

definition chat_texts_ok :: "responsesOpenAIStreamState \<Rightarrow> bool" where
  "chat_texts_ok s \<longleftrightarrow> valid_utf8 (ID s) \<and> valid_utf8 (Model s) \<and> shallow 0 (Created s) \<and>
     (\<forall>k it. map_of (Items s) k = Some it \<longrightarrow> item_texts it)"

abbreviation chat_prints :: "(obj, responsesOpenAIStreamState) op \<Rightarrow> bool" where
  "chat_prints \<equiv> prints good_chunk chat_texts_ok"

lemma chat_printsD [simp]:
  "chat_prints f \<Longrightarrow> chat_texts_ok s \<Longrightarrow> list_all good_chunk (fst (f s))"
  "chat_prints f \<Longrightarrow> chat_texts_ok s \<Longrightarrow> chat_texts_ok (snd (f s))"
  by (simp_all add: prints_def)

lemma chat_texts_new: "valid_utf8 model \<Longrightarrow> chat_texts_ok (new_openai_stream model)"
  by (simp add: chat_texts_ok_def new_openai_stream_def ascii_simps)

lemma chat_texts_item: "chat_texts_ok s \<Longrightarrow> map_of (Items s) k = Some it \<Longrightarrow> item_texts it"
  by (simp add: chat_texts_ok_def)

lemma chat_texts_upd:
  "chat_texts_ok s \<Longrightarrow> (\<And>it. item_texts it \<Longrightarrow> item_texts (f it)) \<Longrightarrow> chat_texts_ok (upd_item k f s)"
  by (auto simp: chat_texts_ok_def upd_item_def split: option.split)

lemma chat_texts_flags [simp]:
  "chat_texts_ok (s\<lparr>HasToolCalls := b\<rparr>) = chat_texts_ok s" "chat_texts_ok (s\<lparr>Stopped := b\<rparr>) = chat_texts_ok s"
  by (simp_all add: chat_texts_ok_def)

lemma good_chunk_oa:
  "chat_texts_ok s \<Longrightarrow> shallow 7 (JObj delta) \<Longrightarrow> good_chunk (chunk_oa delta JNull None s)"
  by (auto simp: chunk_oa_def chat_texts_ok_def intro!: good_payload simp del: shallow_nested)

lemma start_oa_prints:
  assumes "wf_obj payload"
  shows "chat_prints (start_if_needed_oa event payload)"
proof (rule printsI)
  fix s assume s: "chat_texts_ok s"
  define s1 where "s1 = snd (start_oa (objectValue (fld payload ''response'')) payload (s\<lparr>Started := False\<rparr>))"
  have "valid_utf8 ''chatcmpl-copilot''" by (simp add: ascii_simps)
  with s assms have "chat_texts_ok s1"
    by (simp add: s1_def start_oa_def Let_def chat_texts_ok_def del: firstNonEmptyString.simps)
  moreover have "start_if_needed_oa event payload s = ([chunk_oa role_delta JNull None s1], s1) \<or>
      start_if_needed_oa event payload s = ([], s)"
    by (simp add: start_if_needed_oa_def start_oa_def s1_def Let_def del: firstNonEmptyString.simps)
  ultimately show "list_all good_chunk (fst (start_if_needed_oa event payload s)) \<and>
      chat_texts_ok (snd (start_if_needed_oa event payload s))"
    using s by (auto simp: good_chunk_oa good_deltas simp del: shallow_nested)
qed

lemma emit_text_prints: "valid_utf8 field \<Longrightarrow> valid_utf8 v \<Longrightarrow> chat_prints (emit_text field v)"
  by (rule printsI) (simp add: emit_text_def good_chunk_oa good_deltas del: shallow_nested)

lemma announce_prints: "chat_prints (announceTool key)"
proof (rule printsI)
  fix s assume s: "chat_texts_ok s"
  then have "chat_texts_ok (upd_item key (\<lambda>it. it\<lparr>Announced := True\<rparr>) s)"
    by (rule chat_texts_upd) (simp add: item_texts_def)
  moreover have "valid_utf8 (CallID it)" "valid_utf8 (Name it)" if "map_of (Items s) key = Some it" for it
    using chat_texts_item [OF s that] by (simp_all add: item_texts_def)
  ultimately show "list_all good_chunk (fst (announceTool key s)) \<and> chat_texts_ok (snd (announceTool key s))"
    using s by (simp add: announceTool_def good_chunk_oa good_deltas del: shallow_nested split: option.split)
qed

lemma emit_args_prints: "valid_utf8 v \<Longrightarrow> chat_prints (emit_args key v)"
proof (rule printsI)
  fix s assume s: "valid_utf8 v" "chat_texts_ok s"
  from s(2) have "chat_texts_ok (upd_item key (\<lambda>it. it\<lparr>SawDelta := True\<rparr>) s)"
    by (rule chat_texts_upd) (simp add: item_texts_def)
  with s show "list_all good_chunk (fst (emit_args key v s)) \<and> chat_texts_ok (snd (emit_args key v s))"
    by (simp add: emit_args_def good_chunk_oa good_deltas del: shallow_nested split: option.split)
qed

lemma finish_oa_prints:
  assumes "wf_obj response"
  shows "chat_prints (finish_oa response)"
proof (rule printsI)
  fix s assume s: "chat_texts_ok s"
  have "shallow 9 (JObj (responsesUsageToOpenAI (objectValue (fld response ''usage''))))"
    by (rule good_usage) (simp add: assms)
  then have "good_chunk (chunk_oa [] (JStr (responsesFinishReason response (HasToolCalls s)))
      (Some (responsesUsageToOpenAI (objectValue (fld response ''usage'')))) s)"
    using s by (auto simp: chunk_oa_def chat_texts_ok_def good_deltas reason_utf8 intro!: good_payload simp del: shallow_nested)
  with s show "list_all good_chunk (fst (finish_oa response s)) \<and> chat_texts_ok (snd (finish_oa response s))"
    by (simp add: finish_oa_def Let_def)
qed

lemma names_texts:
  assumes "wf_obj it" "item_texts b"
  shows "item_texts (added_names it b)" "item_texts (delta_names it b)" "item_texts (done_names it b)"
  using assms
  by (simp_all add: item_texts_def added_names_def delta_names_def done_names_def
      del: firstNonEmptyString.simps firstString.simps)

lemma take_item_texts:
  assumes "chat_texts_ok s" "\<And>b. item_texts b \<Longrightarrow> item_texts (f b)"
  shows "chat_texts_ok (take_item key f s)"
proof -
  have "chat_texts_ok (snd (item_oa key s))"
    using assms(1) by (auto simp: item_oa_def Let_def chat_texts_ok_def item_texts_def split: option.split)
  then show ?thesis unfolding take_item_def using assms(2) by (rule chat_texts_upd)
qed

text \<open>An operation after the item of the event is taken.\<close>

lemma prints_taken:
  assumes "chat_prints g" "\<And>b. item_texts b \<Longrightarrow> item_texts (f b)"
  shows "chat_prints (\<lambda>s. g (take_item key f s))"
  using assms by (intro printsI) (simp add: take_item_texts)

lemma announce_named_prints: "chat_prints (announce_named key)"
  by (rule printsI) (simp add: announce_named_def announce_prints split: option.split)

lemma call_added_prints: "wf_obj payload \<Longrightarrow> chat_prints (call_added payload)"
  by (rule printsI) (simp add: call_added_def Let_def announce_named_prints take_item_texts names_texts)

lemma call_delta_prints: "wf_obj payload \<Longrightarrow> chat_prints (call_delta payload)"
  unfolding call_delta_def Let_def
  by (rule prints_taken) (simp_all add: announce_prints emit_args_prints names_texts)

lemma call_done_prints:
  assumes "wf_obj payload"
  shows "chat_prints (call_done payload)"
proof -
  have "chat_prints (\<lambda>s1. (case map_of (Items s1) key of None \<Rightarrow> ([], s1)
      | Some b \<Rightarrow> (if \<not> SawDelta b then emit_args key (firstRawString it ks) s1 else ([], s1))))"
    if "wf_obj it" for key it ks
    using that by (intro printsI) (simp add: emit_args_prints split: option.split)
  with assms show ?thesis
    unfolding call_done_def Let_def by (intro prints_taken) (simp_all add: announce_prints names_texts)
qed

lemma chat_field_names: "valid_utf8 ''content''" "valid_utf8 ''refusal''" "valid_utf8 ''reasoning_content''"
  by (simp_all add: ascii_simps)

lemma reasoning_done_prints: "wf_obj payload \<Longrightarrow> chat_prints (reasoning_done payload)"
  by (rule printsI) (simp add: reasoning_done_def Let_def emit_text_prints chat_field_names reasoning_utf8)

lemma body_event_oa_prints: "wf_obj payload \<Longrightarrow> chat_prints (body_event_oa event payload)"
  by (simp add: body_event_oa_def part_added_def item_done_oa_def Let_def call_added_prints call_delta_prints
      call_done_prints reasoning_done_prints emit_text_prints chat_field_names)

lemma openai_event_prints:
  assumes "wf_obj payload" "chat_texts_ok s" "openai_event (event, payload) s = (r, s')"
  shows "chat_texts_ok s' \<and> (\<forall>out. r = Inr out \<longrightarrow> list_all good_chunk out)"
proof -
  have body: "chat_prints (bind_out (start_if_needed_oa ev payload) (body_event_oa ev payload))"
    and fin: "chat_prints (bind_out (start_if_needed_oa ev payload) (finish_oa (objectValue (fld payload ''response''))))" for ev
    using assms(1) by (simp_all add: start_oa_prints body_event_oa_prints finish_oa_prints)
  note pairs = body [THEN prints_pair, OF assms(2)] fin [THEN prints_pair, OF assms(2)]
  from assms show ?thesis
    by (auto simp: openai_event_def Let_def start_oa_prints dest: pairs split: if_splits option.splits prod.splits)
qed

interpretation chat_output: stream_output openai_frame good_chunk chat_texts_ok
proof unfold_locales
  fix s :: responsesOpenAIStreamState and i r s'
  assume "chat_texts_ok s" "openai_frame i s = (r, s')"
  then show "chat_texts_ok s' \<and> (\<forall>out. r = Inr out \<longrightarrow> list_all good_chunk out)"
    by (auto simp: openai_frame_def dest!: openai_event_prints [rotated 2] dest: decodeObject_wf
        split: sum.splits prod.splits if_splits option.splits)
qed

text \<open>The chunks of a run are decoded as they were made.\<close>

lemma chat_run_read:
  "valid_utf8 model \<Longrightarrow> run_stream openai_frame (new_openai_stream model) frames = (outs, e, s) \<Longrightarrow>
   map decodeObject (map print_chunk outs) = map Inr outs"
  by (rule read_chunks_print, rule chat_output.run_good [OF chat_texts_new])

end
