(* ===== verification/Claude_Chat_Wire.thy ===== *)
theory Claude_Chat_Wire
  imports Chat_Wire Claude_OpenAI_Stream
begin

text \<open>
  Every chunk of the Claude-to-Chat-Completions translator is decoded by its client as it was made, and
  its runs on frames keep the contract of \<open>Chat_Protocol\<close> when the Claude stream announces its tools.
\<close>

definition co_texts_ok :: "claudeOpenAIStreamState \<Rightarrow> bool" where
  "co_texts_ok s \<longleftrightarrow> valid_utf8 (ID s) \<and> valid_utf8 (Model s) \<and> wf_json (InputTokens s) \<and> wf_json (OutputTokens s)"

abbreviation co_prints :: "(obj, claudeOpenAIStreamState) op \<Rightarrow> bool" where
  "co_prints \<equiv> prints good_chunk co_texts_ok"

lemma co_printsD [simp]:
  "co_prints f \<Longrightarrow> co_texts_ok s \<Longrightarrow> list_all good_chunk (fst (f s))"
  "co_prints f \<Longrightarrow> co_texts_ok s \<Longrightarrow> co_texts_ok (snd (f s))"
  by (simp_all add: prints_def)

lemma co_texts_new: "valid_utf8 model \<Longrightarrow> co_texts_ok (new_claude_openai_stream model)"
  by (simp add: co_texts_ok_def new_claude_openai_stream_def ascii_simps)

lemma co_texts_flags [simp]:
  "co_texts_ok (s\<lparr>Started := b\<rparr>) = co_texts_ok s" "co_texts_ok (s\<lparr>Stopped := b\<rparr>) = co_texts_ok s"
  "co_texts_ok (s\<lparr>HasToolCalls := b\<rparr>) = co_texts_ok s" "co_texts_ok (snd (block_co key kind s)) = co_texts_ok s"
  by (simp_all add: co_texts_ok_def block_co_def Let_def split: option.split)

lemma good_chunk_co:
  "co_texts_ok s \<Longrightarrow> shallow 7 (JObj delta) \<Longrightarrow> good_chunk (chunk_co delta JNull None s)"
  by (auto simp: chunk_co_def co_texts_ok_def intro!: good_payload simp del: shallow_nested)

lemma start_co_prints: "co_prints start_co"
  by (rule printsI) (simp add: start_co_def Let_def good_chunk_co good_deltas del: shallow_nested)

lemma emit_text_co_prints: "valid_utf8 field \<Longrightarrow> valid_utf8 v \<Longrightarrow> co_prints (emit_text_co field v)"
  by (rule printsI) (simp add: emit_text_co_def good_chunk_co good_deltas del: shallow_nested)

lemma finish_co_prints: "co_prints (finish_co reason)"
proof (rule printsI)
  fix s assume s: "co_texts_ok s"
  define usage where "usage = mk_obj [(''prompt_tokens'', numberValue (InputTokens s)),
    (''completion_tokens'', numberValue (OutputTokens s)),
    (''total_tokens'', int64_json (int64Value (InputTokens s) + int64Value (OutputTokens s)))]"
  have "shallow 9 (JObj usage)" using s by (simp add: usage_def co_texts_ok_def ascii_simps)
  then have "good_chunk (chunk_co [] (JStr (claudeFinishReason reason (HasToolCalls s))) (Some usage) s)"
    using s by (auto simp: chunk_co_def co_texts_ok_def good_deltas reason_utf8 intro!: good_payload simp del: shallow_nested)
  with s show "list_all good_chunk (fst (finish_co reason s)) \<and> co_texts_ok (snd (finish_co reason s))"
    by (simp add: finish_co_def usage_def Let_def)
qed

lemma message_start_co_prints: "wf_obj payload \<Longrightarrow> co_prints (message_start_co payload)"
proof (rule printsI)
  fix s assume "wf_obj payload" "co_texts_ok s"
  then have "co_texts_ok (set_message (objectValue (fld payload ''message'')) s)"
    by (simp add: set_message_def co_texts_ok_def del: firstNonEmptyString.simps)
  then show "list_all good_chunk (fst (message_start_co payload s)) \<and> co_texts_ok (snd (message_start_co payload s))"
    by (simp add: message_start_co_def start_co_prints)
qed

lemma tool_prints:
  "wf_obj cb \<Longrightarrow> co_prints (tool_start cb key)" "valid_utf8 partial \<Longrightarrow> co_prints (tool_delta key partial)"
  by (rule printsI, simp add: tool_start_def tool_delta_def split_beta Let_def good_chunk_co good_deltas
      del: shallow_nested firstString.simps)+

lemma block_co_prints:
  assumes "wf_obj payload"
  shows "co_prints (block_start_co payload)" "co_prints (block_delta_co payload)"
  using assms
  by (auto intro!: printsI simp: block_start_co_def block_delta_co_def Let_def tool_prints emit_text_co_prints chat_field_names)

lemma message_delta_co_prints: "wf_obj payload \<Longrightarrow> co_prints (message_delta_co payload)"
proof (rule printsI)
  fix s assume p: "wf_obj payload" "co_texts_ok s"
  have "wf_obj (objectValue (fld payload ''usage''))" using p(1) by simp
  from p(2) wf_map_of [OF this] have "co_texts_ok (set_output_tokens payload s)"
    by (auto simp: set_output_tokens_def co_texts_ok_def split: option.split)
  then show "list_all good_chunk (fst (message_delta_co payload s)) \<and> co_texts_ok (snd (message_delta_co payload s))"
    by (simp add: message_delta_co_def finish_co_prints)
qed

lemma body_event_co_prints: "wf_obj payload \<Longrightarrow> co_prints (body_event_co event payload)"
  by (simp add: body_event_co_def message_start_co_prints start_co_prints block_co_prints message_delta_co_prints finish_co_prints)

lemma claude_openai_event_prints:
  assumes "wf_obj payload" "co_texts_ok s" "claude_openai_event (event, payload) s = (r, s')"
  shows "co_texts_ok s' \<and> (\<forall>out. r = Inr out \<longrightarrow> list_all good_chunk out)"
  using assms prints_pair [OF body_event_co_prints [OF assms(1)] assms(2)]
  by (auto simp: claude_openai_event_def split: if_splits prod.splits)

interpretation claude_chat_output: stream_output claude_openai_frame good_chunk co_texts_ok
proof unfold_locales
  fix s :: claudeOpenAIStreamState and i r s'
  assume "co_texts_ok s" "claude_openai_frame i s = (r, s')"
  then show "co_texts_ok s' \<and> (\<forall>out. r = Inr out \<longrightarrow> list_all good_chunk out)"
    by (auto simp: claude_openai_frame_def dest!: claude_openai_event_prints [rotated 2] dest: decodeObject_wf
        split: sum.splits prod.splits if_splits option.splits)
qed

lemma claude_chat_run_read:
  "valid_utf8 model \<Longrightarrow>
   run_stream claude_openai_frame (new_claude_openai_stream model) frames = (outs, e, s) \<Longrightarrow>
   map decodeObject (map print_chunk outs) = map Inr outs"
  by (rule read_chunks_print, rule claude_chat_output.run_good [OF co_texts_new])

subsection \<open>Runs on frames\<close>

lemma claude_openai_frame_event:
  assumes "claude_openai_frame frame s = (Inr out, s')"
  shows "case frame_event frame of
      None \<Rightarrow> out = [] \<and> s' = s
    | Some ep \<Rightarrow> claude_openai_event ep s = (Inr out, s')"
proof -
  have "is_ok (decodeObject []) = False" by code_simp
  then have "\<exists>e. decodeObject [] = Inl e" by (simp add: is_ok_def split: sum.splits)
  with assms show ?thesis
    by (auto simp: claude_openai_frame_def frame_event_def split: sum.splits prod.splits option.splits if_splits)
qed

text \<open>The condition of the simulation on a frame: on its event, if it has one.\<close>

definition frame_announced :: "claudeOpenAIStreamState \<Rightarrow> string \<Rightarrow> bool" where
  "frame_announced s frame = (case frame_event frame of None \<Rightarrow> True | Some ep \<Rightarrow> announced s ep)"

interpretation co_frames: stream_simulation "chat_step False" claude_openai_frame co_rel frame_announced
proof unfold_locales
  fix s c i out s'
  assume "co_rel s c" "frame_announced s i" "claude_openai_frame i s = (Inr out, s')"
  then show "\<exists>c'. accepts (chat_step False) c out = Some c' \<and> co_rel s' c'"
    using claude_openai_frame_event [of i s out s'] claude_openai_event_sim
    by (auto simp: frame_announced_def split: option.splits)
qed

text \<open>The events of a list of frames.\<close>

definition frame_events :: "string list \<Rightarrow> (string \<times> obj) list" where
  "frame_events frames = List.map_filter frame_event frames"

lemma frame_events_Cons:
  "frame_events (f # frames) = (case frame_event f of None \<Rightarrow> frame_events frames | Some ep \<Rightarrow> ep # frame_events frames)"
  by (simp add: frame_events_def map_filter_simps split: option.split)

lemma announced_frames:
  "announces seen (frame_events frames) \<Longrightarrow> seen_rel seen s \<Longrightarrow> run_all frame_announced claude_openai_frame s frames"
proof (induction frames arbitrary: seen s)
  case (Cons f frames)
  obtain r s1 where r: "claude_openai_frame f s = (r, s1)" by fastforce
  show ?case
  proof (cases "frame_event f")
    case None
    with Cons r show ?thesis
      using claude_openai_frame_event [of f s _ s1]
      by (cases r) (auto simp: frame_events_Cons frame_announced_def)
  next
    case (Some ep)
    with Cons.prems have "announces seen (ep # frame_events frames)" by (simp add: frame_events_Cons)
    note step = announces_step [OF this Cons.prems(2)]
    show ?thesis
    proof (cases r)
      case (Inl e)
      with step r Some show ?thesis by (simp add: frame_announced_def)
    next
      case (Inr out)
      with claude_openai_frame_event [of f s out s1] r Some have "claude_openai_event ep s = (Inr out, s1)" by simp
      with step obtain seen' where "announces seen' (frame_events frames)" "seen_rel seen' s1" by blast
      from Cons.IH [OF this] step r Some Inr show ?thesis by (simp add: frame_announced_def)
    qed
  qed
qed simp

lemma stopped_run:
  "run_stream claude_openai_frame s frames = (outs, None, s') \<Longrightarrow>
   Stopped s \<or> list_ex (\<lambda>ep. fst ep = ''message_stop'') (frame_events frames) \<Longrightarrow> Stopped s'"
proof (induction frames arbitrary: s outs)
  case (Cons f frames)
  obtain out s1 outs1 where r: "claude_openai_frame f s = (Inr out, s1)"
    and run: "run_stream claude_openai_frame s1 frames = (outs1, None, s')"
    using Cons.prems(1) by (auto split: prod.splits sum.splits)
  have "Stopped s1 \<or> list_ex (\<lambda>ep. fst ep = ''message_stop'') (frame_events frames)"
    using claude_openai_frame_event [OF r] Cons.prems(2) stopped_event [of _ _ s out s1]
    by (auto simp: frame_events_Cons split: option.splits)
  with Cons.IH [OF run] show ?case .
qed (simp add: frame_events_def)

text \<open>The reader of a run.\<close>

lemma claude_chat_run_reader:
  assumes "announces [] (frame_events frames)"
    and "run_stream claude_openai_frame (new_claude_openai_stream model) frames = (outs, e, s)"
  shows "\<exists>c. accepts (chat_step False) chat0 outs = Some c \<and>
    (e = None \<longrightarrow> list_ex (\<lambda>ep. fst ep = ''message_stop'') (frame_events frames) \<longrightarrow> ch_finished c)"
proof -
  obtain c where c: "accepts (chat_step False) chat0 outs = Some c" "e = None \<longrightarrow> co_rel s c"
    using co_frames.run_sim [OF co_rel_init announced_frames [OF assms(1) seen_rel_init] assms(2)] by blast
  moreover have "ch_finished c" if "e = None" "list_ex (\<lambda>ep. fst ep = ''message_stop'') (frame_events frames)"
    using stopped_run assms(2) c(2) that by (auto simp: co_rel_def)
  ultimately show ?thesis by blast
qed

subsection \<open>Properties\<close>

text \<open>C21: for every list of frames whose events announce their tool blocks (a condition on the frames alone:
  each block starts under an index of its own, and arguments are for a tool that was started), the
  translator gives a well-formed Chat Completions stream: the role chunk first and once, every tool
  call announced once under its own index before its arguments, one finish reason at most. When no
  frame is an error and one is \<open>message_stop\<close>, the stream has its finish reason.\<close>

theorem claude_openai_stream_protocol:
  assumes "announces [] (frame_events frames)"
  shows "case run_stream claude_openai_frame (new_claude_openai_stream model) frames of (outs, e, s) \<Rightarrow>
    (case accepts (chat_step False) chat0 outs of
       None \<Rightarrow> False
     | Some c \<Rightarrow> (if e = None \<and> list_ex (\<lambda>ep. fst ep = ''message_stop'') (frame_events frames) then ch_finished c else True))"
proof -
  obtain outs e s where run: "run_stream claude_openai_frame (new_claude_openai_stream model) frames = (outs, e, s)"
    by (metis prod_cases3)
  from claude_chat_run_reader [OF assms run] show ?thesis by (auto simp: run)
qed

text \<open>Two blocks: a text, and a tool call with its arguments.\<close>

definition co_frame :: "string \<Rightarrow> string" where
  "co_frame data = ''data: '' @ data @ [CHR 0x0A, CHR 0x0A]"

definition co_sample :: "string list" where
  \<open>co_sample = map co_frame
     [''{"type":"message_start","message":{"id":"m1"}}'',
      ''{"type":"content_block_start","index":0,"content_block":{"type":"text","text":"Hi"}}'',
      ''{"type":"content_block_start","index":1,"content_block":{"type":"tool_use","id":"c","name":"f"}}'',
      ''{"type":"content_block_delta","index":1,"delta":{"type":"input_json_delta","partial_json":"{}"}}'',
      ''{"type":"message_stop"}'']\<close>

lemma co_sample_announces: "announces [] (frame_events co_sample)"
  by code_simp

lemma co_sample_stops: "list_ex (\<lambda>ep. fst ep = ''message_stop'') (frame_events co_sample)"
  by code_simp

lemma co_sample_ends: "fst (snd (run_stream claude_openai_frame (new_claude_openai_stream ''m'') co_sample)) = None"
  by code_simp

theorem claude_openai_stream_protocol_witness:
  "\<exists>c. accepts (chat_step False) chat0
       (fst (run_stream claude_openai_frame (new_claude_openai_stream ''m'') co_sample)) = Some c \<and> ch_finished c"
proof -
  obtain outs s where run: "run_stream claude_openai_frame (new_claude_openai_stream ''m'') co_sample = (outs, None, s)"
    using co_sample_ends by (metis prod.collapse)
  from claude_openai_stream_protocol [OF co_sample_announces, of "''m''"] run co_sample_stops show ?thesis
    by (auto split: option.splits)
qed

end
