(* ===== verification/Relay.thy ===== *)
theory Relay
  imports Stream_Pump Claude_Stream_Facts Claude_Wire Claude_Chat_Wire
begin

text \<open>
  The stream translators inside the pump. The locale \<open>frame_translator\<close> is the interface between them:
  a translator that keeps its state in the cell of \<open>pumpStream\<close> and prints its output frame by frame.
  The pump emits what the run of such a translator prints, so the properties of the translators
  become properties of the calls the client sees.
\<close>

subsection \<open>The interface\<close>

locale frame_translator =
  fixes T :: "'x translator"
    and handle :: "string \<Rightarrow> 's \<Rightarrow> 'o list res \<times> 's"
    and keep :: "'s \<Rightarrow> 'x any_state"
    and init :: 's
    and print :: "'o \<Rightarrow> string"
  assumes T_step: "cell = keep s \<or> (cell = NilAny \<and> s = init) \<Longrightarrow> handle frame s = (r, s') \<Longrightarrow>
      T frame (Some cell) = (case r of Inl e \<Rightarrow> Inl e | Inr out \<Rightarrow> Inr (map print out), Some (keep s'))"
    and print_some: "print x \<noteq> []"
begin

lemma printed_all: "filter (\<lambda>p. p \<noteq> []) (map print xs) = map print xs"
  by (simp add: filter_id_conv print_some)

lemma translate_run_prints:
  assumes "cell = keep s \<or> (cell = NilAny \<and> s = init)" "run_stream handle s frames = (outs, e, s')"
  shows "\<exists>c. translate_run T frames cell = (map print outs, e, c)"
  using assms
proof (induction frames arbitrary: cell s outs)
  case (Cons f fs)
  obtain r s1 where h: "handle f s = (r, s1)" by fastforce
  note T = T_step [OF Cons.prems(1) h]
  show ?case
  proof (cases r)
    case (Inl x)
    with Cons.prems(2) h T show ?thesis by auto
  next
    case (Inr out)
    obtain outs1 where run: "run_stream handle s1 fs = (outs1, e, s')" "outs = out @ outs1"
      using Cons.prems(2) h Inr by (auto split: prod.splits)
    then obtain c where "translate_run T fs (keep s1) = (map print outs1, e, c)"
      using Cons.IH [of "keep s1" s1 outs1] by blast
    with T Inr run(2) show ?thesis by (simp add: printed_all)
  qed
qed simp

lemma run_prints:
  "run_stream handle init frames = (outs, e, s') \<Longrightarrow> \<exists>c. translate_run T frames NilAny = (map print outs, e, c)"
  by (rule translate_run_prints [OF disjI2]) (rule conjI [OF refl refl])

end

subsection \<open>The translators of the package\<close>

lemma print_chunk_not_Nil: "print_chunk p \<noteq> []"
  by (simp add: encode_JObj)

interpretation claude_relay: frame_translator "claude_translator order model" "claude_frame order" ClaudeState
    "new_claude_stream model" claudeSSE for order model
  by unfold_locales
    (auto simp: claude_translator_def responsesStreamToClaude_def claude_cell_def claudeSSE_def)

interpretation chat_relay: frame_translator "chat_translator model" openai_frame OpenAIState
    "new_openai_stream model" print_chunk for model
  by unfold_locales
    (auto simp: chat_translator_def responsesStreamToOpenAI_def openai_cell_def print_chunk_not_Nil)

interpretation claude_chat_relay: frame_translator "claude_chat_translator model" claude_openai_frame ClaudeOpenAIState
    "new_claude_openai_stream model" print_chunk for model
  by unfold_locales
    (auto simp: claude_chat_translator_def claudeStreamToOpenAI_def claude_openai_cell_def print_chunk_not_Nil)

text \<open>Which translator a job gets. The format names of the SDK are told apart.\<close>

definition formats_apart :: "'x sdk \<Rightarrow> bool" where
  "formats_apart sdk \<longleftrightarrow> distinct [FormatClaude sdk, FormatOpenAI sdk, FormatOpenAIResponse sdk]"

lemma endpoint_formats:
  "endpointFormat sdk EndpointResponses = Inr (FormatOpenAIResponse sdk)"
  "endpointFormat sdk EndpointChatCompletions = Inr (FormatOpenAI sdk)"
  "endpointFormat sdk EndpointMessages = Inr (FormatClaude sdk)"
  by (simp_all add: endpointFormat_def EndpointResponses_def EndpointChatCompletions_def EndpointMessages_def)

lemma job_translators:
  assumes "formats_apart sdk"
  shows "JobEndpoint job = EndpointResponses \<Longrightarrow> FromString sdk (JobDestination job) = FormatClaude sdk \<Longrightarrow>
      job_translator order sdk job = claude_translator order (JobModel job)"
    and "JobEndpoint job = EndpointResponses \<Longrightarrow> FromString sdk (JobDestination job) = FormatOpenAI sdk \<Longrightarrow>
      job_translator order sdk job = chat_translator (JobModel job)"
    and "JobEndpoint job = EndpointMessages \<Longrightarrow> FromString sdk (JobDestination job) = FormatOpenAI sdk \<Longrightarrow>
      job_translator order sdk job = claude_chat_translator (JobModel job)"
  using assms
  by (auto simp: formats_apart_def job_translator_def StreamFromEndpoint_def endpoint_formats stream_def fun_eq_iff)

subsection \<open>What the frames carry\<close>

text \<open>What is read off the events of a list of frames.\<close>

definition frame_text :: "(string \<times> obj \<Rightarrow> string) \<Rightarrow> string \<Rightarrow> string" where
  "frame_text f frame = (case frame_event frame of None \<Rightarrow> [] | Some ep \<Rightarrow> f ep)"

definition carried :: "(string \<times> obj \<Rightarrow> string) \<Rightarrow> string list \<Rightarrow> string" where
  "carried f frames = concat (map (frame_text f) frames)"

definition ends_done :: "string list \<Rightarrow> bool" where
  "ends_done frames \<longleftrightarrow>
     frames \<noteq> [] \<and> (case parseSSEFrame (last frames) of Inl e \<Rightarrow> False | Inr (event, data, fin) \<Rightarrow> fin)"

lemma ends_doneE:
  assumes "ends_done frames"
  obtains before last_frame event data
  where "frames = before @ [last_frame]" "parseSSEFrame last_frame = Inr (event, data, True)"
  using assms by (cases frames rule: rev_cases) (auto simp: ends_done_def split: sum.splits)

lemma claude_frame_text:
  "claude_frame order frame s = (Inr out, s') \<Longrightarrow> concat (map text_of out) = frame_text text_in frame"
  using texts_claude_event
  by (fastforce simp: claude_frame_def frame_text_def frame_event_def texts_def split: sum.splits prod.splits option.splits if_splits)

lemma openai_frame_text:
  "openai_frame frame s = (Inr out, s') \<Longrightarrow> concat (map chat_text out) = frame_text chat_text_in frame"
  using chat_texts_event
  by (fastforce simp: openai_frame_def frame_text_def frame_event_def chat_texts_def split: sum.splits prod.splits option.splits if_splits)

text \<open>The runs of the two Responses translators, read by their clients.\<close>

lemma claude_run_client:
  assumes "permutes order" "run_stream (claude_frame order) (new_claude_stream model) frames = (outs, e, s)"
  shows "\<exists>c. accepts (client_step False) client0 outs = Some c \<and>
    (e = None \<longrightarrow> texts outs = carried text_in frames \<and> (ends_done frames \<longrightarrow> cl_stopped c))"
proof -
  obtain c where c: "accepts (client_step False) client0 outs = Some c" "e = None \<longrightarrow> client_rel s c"
    using claude_run_reader [OF assms] by blast
  have "texts outs = carried text_in frames" if "e = None"
    using run_collect [of "claude_frame order" text_of "frame_text text_in" "new_claude_stream model" frames]
      claude_frame_text assms(2) that
    by (simp add: texts_def carried_def)
  moreover have "cl_stopped c" if "e = None" "ends_done frames"
    using that(2)
  proof (rule ends_doneE)
    fix before last_frame event data
    assume last: "frames = before @ [last_frame]" "parseSSEFrame last_frame = Inr (event, data, True)"
    with claude_run_done [OF last(2), of order "new_claude_stream model" before outs s] assms(2) c(2) that(1)
    show "cl_stopped c" by (simp add: client_rel_def)
  qed
  ultimately show ?thesis using c(1) by blast
qed

lemma chat_run_client:
  assumes "run_stream openai_frame (new_openai_stream model) frames = (outs, e, s)"
  shows "\<exists>c. accepts (chat_step False) chat0 outs = Some c \<and>
    (e = None \<longrightarrow> chat_texts outs = carried chat_text_in frames \<and> (ends_done frames \<longrightarrow> ch_finished c))"
proof -
  obtain c where c: "accepts (chat_step False) chat0 outs = Some c" "e = None \<longrightarrow> chat_rel s c"
    using chat_run_reader [OF assms] by blast
  have "chat_texts outs = carried chat_text_in frames" if "e = None"
    using run_collect [of openai_frame chat_text "frame_text chat_text_in" "new_openai_stream model" frames]
      openai_frame_text assms that
    by (simp add: chat_texts_def carried_def)
  moreover have "ch_finished c" if "e = None" "ends_done frames"
    using that(2)
  proof (rule ends_doneE)
    fix before last_frame event data
    assume last: "frames = before @ [last_frame]" "parseSSEFrame last_frame = Inr (event, data, True)"
    with chat_run_done [OF last(2), of "new_openai_stream model" before outs s] assms c(2) that(1)
    show "ch_finished c" by (simp add: chat_rel_def)
  qed
  ultimately show ?thesis using c(1) by blast
qed

text \<open>The text a Claude stream carries for a Chat Completions client.\<close>

definition co_text_in :: "string \<times> obj \<Rightarrow> string" where
  "co_text_in ep =
     (let (event, payload) = ep; block = objectValue (fld payload ''content_block''); delta = objectValue (fld payload ''delta'')
      in if event = ''content_block_start'' \<and> stringValue (fld block ''type'') = ''text'' then rawStringValue (fld block ''text'')
         else if event = ''content_block_delta'' \<and> stringValue (fld delta ''type'') = ''text_delta'' then rawStringValue (fld delta ''text'')
         else [])"

lemma chat_text_co:
  "chat_text (chunk_co role_delta r u s) = []" "chat_text (chunk_co (tool_announce i cid name) r u s) = []"
  "chat_text (chunk_co (tool_args i arguments) r u s) = []" "chat_text (chunk_co [] r u s) = []"
  "chat_text (chunk_co (text_delta ''content'' v) r u s) = v" "chat_text (chunk_co (text_delta ''reasoning_content'' v) r u s) = []"
  by (simp_all add: chat_text_def chunk_co_def frame_simps role_delta_def tool_announce_def tool_args_def
      text_delta_def fld_mk_obj_Cons)

lemma co_ops_text:
  "chat_texts (fst (start_co s)) = []" "chat_texts (fst (finish_co r s)) = []" "chat_texts (fst (tool_start cb key s)) = []"
  "chat_texts (fst (tool_delta key v s)) = []" "chat_texts (fst (message_start_co payload s)) = []"
  "chat_texts (fst (message_delta_co payload s)) = []"
  "chat_texts (fst (emit_text_co ''content'' v s)) = v" "chat_texts (fst (emit_text_co ''reasoning_content'' v s)) = []"
  by (simp_all add: start_co_def finish_co_def tool_start_def tool_delta_def message_start_co_def message_delta_co_def
      emit_text_co_def Let_def chat_text_co frame_simps split: prod.split)

lemma co_body_text: "chat_texts (fst (body_event_co event payload s)) = co_text_in (event, payload)"
  by (simp add: body_event_co_def co_text_in_def block_start_co_def block_delta_co_def fst_bind_oa co_ops_text
      skip_out_def Let_def frame_simps)

lemma co_event_text: "claude_openai_event ep s = (Inr out, s') \<Longrightarrow> chat_texts out = co_text_in ep"
  using co_body_text [of "fst ep" "snd ep" s]
  by (auto simp: claude_openai_event_def co_text_in_def frame_simps split: if_splits prod.splits)

lemma claude_chat_run_text:
  assumes "run_stream claude_openai_frame (new_claude_openai_stream model) frames = (outs, None, s)"
  shows "chat_texts outs = carried co_text_in frames"
proof -
  have step: "concat (map chat_text out) = frame_text co_text_in frame"
    if "claude_openai_frame frame s1 = (Inr out, s2)" for frame s1 out s2
    using claude_openai_frame_event [OF that] co_event_text
    by (auto simp: frame_text_def chat_texts_def split: option.splits)
  have none: "fst (snd (run_stream claude_openai_frame (new_claude_openai_stream model) frames)) = None"
    using assms by simp
  from run_collect [OF step none] assms show ?thesis by (simp add: chat_texts_def carried_def)
qed

subsection \<open>From the upstream to the client\<close>

text \<open>The calls of a job that has emitted \<open>outs\<close> and closed both streams.\<close>

definition emitted_and_closed :: "pump_job \<Rightarrow> string list \<Rightarrow> string \<Rightarrow> host_call list" where
  "emitted_and_closed job outs msg =
     map (CallEmit (JobStreamID job)) outs @
     [CallClose (StreamID (JobUpstream job)), CallCloseOutput (JobStreamID job) msg]"

text \<open>The host delivers the payloads to the job and takes what it emits.\<close>

definition serves :: "'w outside \<Rightarrow> pump_job \<Rightarrow> string list \<Rightarrow> 'w machine \<Rightarrow> bool" where
  "serves E job payloads m \<longleftrightarrow>
     accepting E (JobStreamID job) \<and> payloads \<noteq> [] \<and>
     delivers E (StreamID (JobUpstream job)) (JobStreamID job) payloads (world m)"

abbreviation whole_frames :: "string list \<Rightarrow> string list" where
  "whole_frames payloads \<equiv> read_frames new_decoder [concat payloads]"

lemma run_job_prints:
  assumes "serves E job payloads m"
    and "translate_run (job_translator order sdk job) (whole_frames payloads) NilAny = (outs, e, c)"
  shows "\<exists>m' msg. run_job E L order sdk job m = Some m' \<and>
    written (calls m') = written (calls m) @ emitted_and_closed job outs msg \<and> (msg = []) = (e = None)"
  using run_job_delivered [OF _ _ _ assms(2)] assms(1) by (fastforce simp: serves_def emitted_and_closed_def)

text \<open>C4: a Claude client of a Responses endpoint. Whatever the upstream sends, in whatever chunks, the
  goroutine ends, and the bytes it emits are read, as server-sent events, as an event sequence the
  automaton of the client accepts: no frame is cut, merged or undecodable. When the stream is
  closed without a message, the text of the events is the text the frames carried, and if the
  upstream ended with \<open>[DONE]\<close> the client has seen \<open>message_stop\<close>.\<close>

theorem claude_client_served:
  assumes "permutes order" "formats_apart sdk" "serves E job payloads m" "valid_utf8 (JobModel job)"
    and "JobEndpoint job = EndpointResponses" "FromString sdk (JobDestination job) = FormatClaude sdk"
  shows "\<exists>m' outs events msg client. run_job E L order sdk job m = Some m' \<and>
    written (calls m') = written (calls m) @ emitted_and_closed job outs msg \<and>
    read_events (concat outs) = map Some events \<and>
    accepts (client_step False) client0 events = Some client \<and>
    (msg = [] \<longrightarrow> texts events = carried text_in (whole_frames payloads) \<and>
       (ends_done (whole_frames payloads) \<longrightarrow> cl_stopped client))"
proof -
  obtain outs e s where run: "run_stream (claude_frame order) (new_claude_stream (JobModel job)) (whole_frames payloads) = (outs, e, s)"
    by (metis prod_cases3)
  obtain c where "translate_run (job_translator order sdk job) (whole_frames payloads) NilAny = (map claudeSSE outs, e, c)"
    using claude_relay.run_prints [OF run] job_translators(1) [OF assms(2,5,6)] by metis
  from run_job_prints [OF assms(3) this, of L] claude_run_client [OF assms(1) run] claude_run_read [OF assms(4) run]
  show ?thesis by blast
qed

text \<open>C37: the same for a Chat Completions client: each emission decodes to a chunk, the chunks are accepted
  by its automaton, and when the stream is closed without a message no text was lost and, after
  \<open>[DONE]\<close>, it has a finish reason.\<close>

theorem chat_client_served:
  assumes "formats_apart sdk" "serves E job payloads m" "valid_utf8 (JobModel job)"
    and "JobEndpoint job = EndpointResponses" "FromString sdk (JobDestination job) = FormatOpenAI sdk"
  shows "\<exists>m' outs chunks msg client. run_job E L order sdk job m = Some m' \<and>
    written (calls m') = written (calls m) @ emitted_and_closed job outs msg \<and>
    map decodeObject outs = map Inr chunks \<and>
    accepts (chat_step False) chat0 chunks = Some client \<and>
    (msg = [] \<longrightarrow> chat_texts chunks = carried chat_text_in (whole_frames payloads) \<and>
       (ends_done (whole_frames payloads) \<longrightarrow> ch_finished client))"
proof -
  obtain outs e s where run: "run_stream openai_frame (new_openai_stream (JobModel job)) (whole_frames payloads) = (outs, e, s)"
    by (metis prod_cases3)
  obtain c where "translate_run (job_translator order sdk job) (whole_frames payloads) NilAny = (map print_chunk outs, e, c)"
    using chat_relay.run_prints [OF run] job_translators(2) [OF assms(1,4,5)] by metis
  from run_job_prints [OF assms(2) this, of L] chat_run_client [OF run] chat_run_read [OF assms(3) run]
  show ?thesis by blast
qed

text \<open>C36: a Chat Completions client of a Messages endpoint. When the frames of the upstream announce their tool
  blocks, the goroutine ends, each emission decodes to a chunk, the chunks are accepted by the
  automaton of the client, and when the stream is closed without a message the client has every text the
  frames carried and, if one of them was \<open>message_stop\<close>, a finish reason.\<close>

theorem claude_chat_client_served:
  assumes "formats_apart sdk" "serves E job payloads m" "valid_utf8 (JobModel job)"
    and "JobEndpoint job = EndpointMessages" "FromString sdk (JobDestination job) = FormatOpenAI sdk"
    and "announces [] (frame_events (whole_frames payloads))"
  shows "\<exists>m' outs chunks msg client. run_job E L order sdk job m = Some m' \<and>
    written (calls m') = written (calls m) @ emitted_and_closed job outs msg \<and>
    map decodeObject outs = map Inr chunks \<and>
    accepts (chat_step False) chat0 chunks = Some client \<and>
    (msg = [] \<longrightarrow> chat_texts chunks = carried co_text_in (whole_frames payloads) \<and>
       (list_ex (\<lambda>ep. fst ep = ''message_stop'') (frame_events (whole_frames payloads)) \<longrightarrow> ch_finished client))"
proof -
  obtain outs e s where run:
    "run_stream claude_openai_frame (new_claude_openai_stream (JobModel job)) (whole_frames payloads) = (outs, e, s)"
    by (metis prod_cases3)
  obtain c where "translate_run (job_translator order sdk job) (whole_frames payloads) NilAny = (map print_chunk outs, e, c)"
    using claude_chat_relay.run_prints [OF run] job_translators(3) [OF assms(1,4,5)] by metis
  from run_job_prints [OF assms(2) this, of L] claude_chat_run_read [OF assms(3) run]
    claude_chat_run_reader [OF assms(6) run] claude_chat_run_text [of "JobModel job" "whole_frames payloads" outs s] run
  show ?thesis by blast
qed

subsection \<open>Witnesses\<close>

definition relay_payloads :: "string list" where
  \<open>relay_payloads = [''event: response.output_text.delta'' @ lf @ ''data: {"del'', ''ta":"Hi"}'' @ lf @ lf,
     ''event: response.completed'' @ lf @ ''data: {}'' @ lf @ lf @ ''data: [DONE]'' @ lf @ lf]\<close>

definition relay_machine :: "string list machine" where
  "relay_machine = \<lparr> svc = New, world = relay_payloads, calls = [] \<rparr>"

definition relay_job :: "string \<Rightarrow> pump_job" where
  "relay_job destination = sample_job\<lparr> JobDestination := destination \<rparr>"

lemma relay_serves: "serves list_host (relay_job destination) relay_payloads relay_machine"
  unfolding serves_def
proof (intro conjI)
  show "accepting list_host (JobStreamID (relay_job destination))" by (simp add: accepting_def list_host_def)
  show "relay_payloads \<noteq> []" by (simp add: relay_payloads_def)
  show "delivers list_host (StreamID (JobUpstream (relay_job destination))) (JobStreamID (relay_job destination))
      relay_payloads (world relay_machine)"
    unfolding relay_machine_def by (simp only: machine.simps list_host_delivers)
qed

lemma relay_facts:
  "formats_apart empty_sdk" "JobEndpoint (relay_job d) = EndpointResponses"
  "FromString empty_sdk (JobDestination (relay_job ''claude'')) = FormatClaude empty_sdk"
  "FromString empty_sdk (JobDestination (relay_job ''openai'')) = FormatOpenAI empty_sdk"
  "FromString empty_sdk (JobDestination (relay_job d)) = d"
  by (simp_all add: formats_apart_def empty_sdk_def relay_job_def sample_job_def)

lemma relay_model: "valid_utf8 (JobModel (relay_job d))"
  by (simp add: relay_job_def sample_job_def ascii_simps)

lemma relay_frames:
  \<open>whole_frames relay_payloads =
     [''event: response.output_text.delta'' @ lf @ ''data: {"delta":"Hi"}'' @ lf @ lf,
      ''event: response.completed'' @ lf @ ''data: {}'' @ lf @ lf, ''data: [DONE]'' @ lf @ lf]\<close>
  by code_simp

lemma relay_text:
  "carried text_in (whole_frames relay_payloads) = ''Hi''" "carried chat_text_in (whole_frames relay_payloads) = ''Hi''"
  "ends_done (whole_frames relay_payloads)"
  unfolding relay_frames by code_simp+

lemma relay_start: "written (calls relay_machine) = []"
  by (simp add: relay_machine_def written_def)

text \<open>An upstream that breaks off after its first event and sends no \<open>[DONE]\<close>: the client has only the start
  of its message, and its stream is closed as if it were complete.\<close>

definition broken_off :: "string list" where
  \<open>broken_off = [''event: response.created'' @ lf @ ''data: {}'' @ lf @ lf]\<close>

lemma broken_off_run:
  "fst (snd (run_stream (claude_frame rev) (new_claude_stream ''m'') (whole_frames broken_off))) = None"
  "map fst (fst (run_stream (claude_frame rev) (new_claude_stream ''m'') (whole_frames broken_off))) = [''message_start'']"
  by code_simp+

theorem broken_off_stream_unreported:
  assumes "formats_apart sdk" "serves E job broken_off m" "JobModel job = ''m''"
    and "JobEndpoint job = EndpointResponses" "FromString sdk (JobDestination job) = FormatClaude sdk"
  shows "\<exists>m' events. run_job E L rev sdk job m = Some m' \<and> map fst events = [''message_start''] \<and>
    written (calls m') = written (calls m) @ emitted_and_closed job (map claudeSSE events) []"
proof -
  obtain outs s where run: "run_stream (claude_frame rev) (new_claude_stream (JobModel job)) (whole_frames broken_off) = (outs, None, s)"
    using broken_off_run(1) assms(3) by (metis prod.collapse)
  then have "map fst outs = [''message_start'']" using broken_off_run(2) assms(3) by (metis fst_conv)
  moreover obtain c where "translate_run (job_translator rev sdk job) (whole_frames broken_off) NilAny = (map claudeSSE outs, None, c)"
    using claude_relay.run_prints [OF run] job_translators(1) [OF assms(1,4,5)] by metis
  from run_job_prints [OF assms(2) this, of L]
  obtain m' where "run_job E L rev sdk job m = Some m'"
    "written (calls m') = written (calls m) @ emitted_and_closed job (map claudeSSE outs) []" by auto
  ultimately show ?thesis by (intro exI [of _ m'] exI [of _ outs]) simp
qed

theorem claude_client_served_witness:
  "\<exists>m' outs events msg client. run_job list_host sample_lib rev empty_sdk (relay_job ''claude'') relay_machine = Some m' \<and>
    written (calls m') = emitted_and_closed (relay_job ''claude'') outs msg \<and>
    read_events (concat outs) = map Some events \<and>
    accepts (client_step False) client0 events = Some client \<and>
    (msg = [] \<longrightarrow> texts events = ''Hi'' \<and> cl_stopped client)"
  using claude_client_served [OF permutes_rev relay_facts(1) relay_serves relay_model relay_facts(2,3), of sample_lib]
  by (simp only: relay_text relay_start append_Nil simp_thms)

theorem chat_client_served_witness:
  "\<exists>m' outs chunks msg client. run_job list_host sample_lib rev empty_sdk (relay_job ''openai'') relay_machine = Some m' \<and>
    written (calls m') = emitted_and_closed (relay_job ''openai'') outs msg \<and>
    map decodeObject outs = map Inr chunks \<and>
    accepts (chat_step False) chat0 chunks = Some client \<and>
    (msg = [] \<longrightarrow> chat_texts chunks = ''Hi'' \<and> ch_finished client)"
  using chat_client_served [OF relay_facts(1) relay_serves relay_model relay_facts(2,4), of sample_lib rev]
  by (simp only: relay_text relay_start append_Nil simp_thms)

text \<open>A Messages endpoint whose frames arrive cut in two.\<close>

definition message_payloads :: "string list" where
  "message_payloads = [take 100 (concat co_sample), drop 100 (concat co_sample)]"

definition message_job :: pump_job where
  "message_job = (relay_job ''openai'')\<lparr> JobEndpoint := EndpointMessages \<rparr>"

definition message_machine :: "string list machine" where
  "message_machine = \<lparr> svc = New, world = message_payloads, calls = [] \<rparr>"

lemma message_frames: "whole_frames message_payloads = co_sample"
  by code_simp

lemma message_text: "carried co_text_in co_sample = ''Hi''"
  by code_simp

lemma message_serves: "serves list_host message_job message_payloads message_machine"
  unfolding serves_def
proof (intro conjI)
  show "accepting list_host (JobStreamID message_job)" by (simp add: accepting_def list_host_def)
  show "message_payloads \<noteq> []" by (simp add: message_payloads_def)
  show "delivers list_host (StreamID (JobUpstream message_job)) (JobStreamID message_job)
      message_payloads (world message_machine)"
    unfolding message_machine_def by (simp only: machine.simps list_host_delivers)
qed

lemma message_facts:
  "JobEndpoint message_job = EndpointMessages" "FromString empty_sdk (JobDestination message_job) = FormatOpenAI empty_sdk"
  "valid_utf8 (JobModel message_job)"
  by (simp_all add: message_job_def relay_job_def sample_job_def empty_sdk_def ascii_simps)

theorem claude_chat_client_served_witness:
  "\<exists>m' outs chunks msg client. run_job list_host sample_lib rev empty_sdk message_job message_machine = Some m' \<and>
    written (calls m') = emitted_and_closed message_job outs msg \<and>
    map decodeObject outs = map Inr chunks \<and>
    accepts (chat_step False) chat0 chunks = Some client \<and>
    (msg = [] \<longrightarrow> chat_texts chunks = ''Hi'' \<and> ch_finished client)"
proof -
  have "written (calls message_machine) = []" by (simp add: message_machine_def written_def)
  moreover have "announces [] (frame_events (whole_frames message_payloads))"
    by (simp only: message_frames co_sample_announces)
  note claude_chat_client_served [OF relay_facts(1) message_serves message_facts(3,1,2) this, of sample_lib rev]
  ultimately show ?thesis
    by (simp only: message_frames message_text co_sample_stops append_Nil simp_thms)
qed

end
