(* ===== verification/C_Memory.thy ===== *)
theory C_Memory
  imports Go_Strings
begin

unbundle bit_operations_syntax

text \<open>
  C memory as the cgo code of \<open>cmd/cliproxyapi-copilot/main.go\<close> uses it: blocks of bytes by address,
  each with the allocator that owns it, and the functions of package \<open>C\<close> on them. A null pointer is
  \<open>None\<close>. Allocation does not fail (cgo aborts the program when it does).
\<close>

datatype allocator = OfPlugin | OfHost

record c_memory =
  Live :: "nat \<rightharpoonup> allocator \<times> string"
  NextAddr :: nat

text \<open>What must not happen: freeing what is not a live block of the allocator, reading outside a block; a
  Go panic, with a length \<open>C.GoBytes\<close> does not take among them.\<close>

datatype fault = FreeFault | ReadFault | LengthPanic | GoPanic go_error

definition wf_memory :: "c_memory \<Rightarrow> bool" where
  "wf_memory mem \<longleftrightarrow> (\<forall>a \<ge> NextAddr mem. Live mem a = None)"

definition malloc :: "allocator \<Rightarrow> string \<Rightarrow> c_memory \<Rightarrow> nat \<times> c_memory" where
  "malloc owner s mem =
     (NextAddr mem, mem\<lparr> Live := (Live mem)(NextAddr mem \<mapsto> (owner, s)), NextAddr := Suc (NextAddr mem) \<rparr>)"

definition free_block :: "allocator \<Rightarrow> nat \<Rightarrow> c_memory \<Rightarrow> fault + c_memory" where
  "free_block owner a mem =
     (case Live mem a of
        None \<Rightarrow> Inl FreeFault
      | Some (owner', s) \<Rightarrow> if owner' = owner then Inr (mem\<lparr> Live := (Live mem)(a := None) \<rparr>) else Inl FreeFault)"

text \<open>\<open>C.CString\<close> ends the copy with a null byte, \<open>C.CBytes\<close> does not.\<close>

definition NUL :: char where "NUL = CHR 0x00"

definition CString :: "string \<Rightarrow> c_memory \<Rightarrow> nat \<times> c_memory" where
  "CString s = malloc OfPlugin (s @ [NUL])"

definition CBytes :: "string \<Rightarrow> c_memory \<Rightarrow> nat \<times> c_memory" where
  "CBytes s = malloc OfPlugin s"

text \<open>\<open>C.int(n)\<close> of a \<open>size_t\<close> keeps the low 32 bits and reads them as a signed number.\<close>

definition C_int :: "64 word \<Rightarrow> int" where
  "C_int n = sint (ucast n :: 32 word)"

definition read_block :: "nat \<Rightarrow> nat \<Rightarrow> c_memory \<Rightarrow> fault + string" where
  "read_block a n mem =
     (case Live mem a of
        None \<Rightarrow> Inl ReadFault
      | Some (owner, s) \<Rightarrow> if n \<le> length s then Inr (take n s) else Inl ReadFault)"

definition GoBytes :: "nat \<Rightarrow> int \<Rightarrow> c_memory \<Rightarrow> fault + string" where
  "GoBytes a n mem = (if n < 0 then Inl LengthPanic else read_block a (nat n) mem)"

definition GoString :: "nat \<Rightarrow> c_memory \<Rightarrow> fault + string" where
  "GoString a mem =
     (case Live mem a of
        None \<Rightarrow> Inl ReadFault
      | Some (owner, s) \<Rightarrow> if NUL \<in> set s then Inr (takeWhile (\<lambda>c. c \<noteq> NUL) s) else Inl ReadFault)"

text \<open>A pointer and a length, as the host and the plugin hand bytes to each other.\<close>

record cliproxy_buffer =
  BufPtr :: "nat option"
  BufLen :: "64 word"

definition empty_buffer :: cliproxy_buffer where
  "empty_buffer = \<lparr> BufPtr = None, BufLen = 0 \<rparr>"

subsection \<open>Facts\<close>

lemma wf_fresh: "wf_memory mem \<Longrightarrow> Live mem (NextAddr mem) = None"
  by (simp add: wf_memory_def)

lemma malloc_new:
  assumes "wf_memory mem"
  obtains mem' where "malloc owner s mem = (NextAddr mem, mem')" "Live mem' = (Live mem)(NextAddr mem \<mapsto> (owner, s))"
    "NextAddr mem' = Suc (NextAddr mem)" "wf_memory mem'"
proof
  let ?mem = "mem\<lparr> Live := (Live mem)(NextAddr mem \<mapsto> (owner, s)), NextAddr := Suc (NextAddr mem) \<rparr>"
  show "malloc owner s mem = (NextAddr mem, ?mem)" by (simp add: malloc_def)
qed (use assms in \<open>simp_all add: wf_memory_def\<close>)

lemma free_live [simp]:
  "Live mem a = Some (owner, s) \<Longrightarrow> free_block owner a mem = Inr (mem\<lparr> Live := (Live mem)(a := None) \<rparr>)"
  by (simp add: free_block_def)

lemma free_dead [simp]: "Live mem a = None \<Longrightarrow> free_block owner a mem = Inl FreeFault"
  by (simp add: free_block_def)

lemma wf_free: "wf_memory mem \<Longrightarrow> wf_memory (mem\<lparr> Live := (Live mem)(a := None) \<rparr>)"
  by (simp add: wf_memory_def)

lemma read_whole: "Live mem a = Some (owner, s) \<Longrightarrow> read_block a (length s) mem = Inr s"
  by (simp add: read_block_def)

lemma GoString_CString:
  "Live mem a = Some (owner, s @ NUL # rest) \<Longrightarrow> NUL \<notin> set s \<Longrightarrow> GoString a mem = Inr s"
  by (auto simp: GoString_def takeWhile_append)

subsection \<open>The width of a length\<close>

lemma unat_size: "n < 2 ^ 64 \<Longrightarrow> unat (of_nat n :: 64 word) = n"
  by (simp add: unat_of_nat take_bit_nat_eq_self)

lemma signed_mod:
  "(i + 2147483648) mod 4294967296 - 2147483648 =
     (if i mod 4294967296 < (2147483648 :: int) then i mod 4294967296 else i mod 4294967296 - 4294967296)"
proof -
  let ?q = "i mod 4294967296"
  have q: "0 \<le> ?q" "?q < 4294967296" by simp_all
  have "(i + 2147483648) mod 4294967296 = (?q + 2147483648) mod 4294967296"
    by (simp add: mod_add_left_eq)
  also have "\<dots> = (if ?q < 2147483648 then ?q + 2147483648 else ?q - 2147483648)"
  proof (cases "?q < 2147483648")
    case True
    then show ?thesis using q by (simp add: mod_pos_pos_trivial)
  next
    case False
    have "(?q + 2147483648) mod 4294967296 = (?q - 2147483648 + 4294967296) mod 4294967296"
      by (rule arg_cong [where f = "\<lambda>x. x mod 4294967296"]) simp
    also have "\<dots> = ?q - 2147483648" using q False by (simp only: mod_add_self2) (simp add: mod_pos_pos_trivial)
    finally show ?thesis using False by simp
  qed
  finally show ?thesis by simp
qed

lemma C_int_size:
  assumes "n < 2 ^ 64"
  shows "C_int (of_nat n) = (let k = n mod 2 ^ 32 in if k < 2 ^ 31 then int k else int k - 2 ^ 32)"
proof -
  let ?k = "n mod 2 ^ 32"
  have "(ucast (of_nat n :: 64 word) :: 32 word) = of_nat n"
    using assms by (simp add: ucast_eq unsigned_of_nat take_bit_nat_def)
  moreover have "sint (of_nat n :: 32 word) = signed_take_bit 31 (int n)"
    by (simp add: signed_of_nat)
  moreover have "signed_take_bit 31 (int n) = (if int n mod 2 ^ 32 < 2 ^ 31 then int n mod 2 ^ 32 else int n mod 2 ^ 32 - 2 ^ 32)"
    using signed_mod [of "int n"] by (simp add: signed_take_bit_eq_take_bit_shift take_bit_eq_mod)
  moreover have "int n mod 2 ^ 32 = int ?k" by (simp add: zmod_int)
  ultimately show ?thesis by (simp add: C_int_def Let_def)
qed

lemma C_int_small: "n < 2 ^ 31 \<Longrightarrow> C_int (of_nat n) = int n"
  by (subst C_int_size) (simp_all add: Let_def)

text \<open>What \<open>C.GoBytes(ptr, C.int(len))\<close> makes of a block and its length: below two GiB it is the block; for
  the next two GiB it panics; beyond, it is the block cut to the length modulo \<open>2 ^ 32\<close>, and so on.\<close>

theorem GoBytes_width:
  assumes "Live mem a = Some (owner, s)" "length s < 2 ^ 64"
  shows "GoBytes a (C_int (of_nat (length s))) mem =
    (if length s mod 2 ^ 32 < 2 ^ 31 then Inr (take (length s mod 2 ^ 32) s) else Inl LengthPanic)"
proof -
  have "int (length s mod 2 ^ 32) - 2 ^ 32 < 0" by (simp add: zmod_int)
  moreover have "length s mod 2 ^ 32 \<le> length s" by simp
  ultimately show ?thesis
    using assms by (simp add: C_int_size Let_def GoBytes_def read_block_def)
qed

lemma GoBytes_small:
  "Live mem a = Some (owner, s) \<Longrightarrow> length s < 2 ^ 31 \<Longrightarrow> GoBytes a (C_int (of_nat (length s))) mem = Inr s"
  by (simp add: C_int_small GoBytes_def read_block_def)

end
