(* ===== verification/C_Boundary.thy ===== *)
theory C_Boundary
  imports Plugin C_Memory
begin

text \<open>
  The C side of \<open>cmd/cliproxyapi-copilot/main.go\<close>: the stored host pointer, the calls in both directions
  with their buffers, and who frees them. \<open>Dispatch\<close> and \<open>Host_Calls\<close> say what is exchanged; here it
  is shown that the memory operations around them exchange just that and leave no block behind.
\<close>

subsection \<open>The host\<close>

text \<open>\<open>cliproxy_host_api\<close>: function pointers that may be null. A function of the host works on the memory
  and on the world; \<open>HostCall\<close> gets the method, the request, its length and the response buffer.\<close>

record 'w host_api =
  HostVersion :: "32 word"
  HostCall :: "(nat \<Rightarrow> nat option \<Rightarrow> 64 word \<Rightarrow> cliproxy_buffer \<Rightarrow> c_memory \<times> 'w \<Rightarrow>
    32 word \<times> cliproxy_buffer \<times> c_memory \<times> 'w) option"
  HostFree :: "(nat \<Rightarrow> 64 word \<Rightarrow> c_memory \<times> 'w \<Rightarrow> fault + c_memory \<times> 'w) option"

record 'w process =
  StoredHost :: "'w host_api option"
  Memory :: c_memory
  Outer :: 'w

definition store_host_api :: "'w host_api \<Rightarrow> 'w process \<Rightarrow> 'w process" where
  "store_host_api host p = p\<lparr> StoredHost := Some host \<rparr>"

definition clear_host_api :: "'w process \<Rightarrow> 'w process" where
  "clear_host_api p = p\<lparr> StoredHost := None \<rparr>"

definition call_host_api ::
  "nat \<Rightarrow> nat option \<Rightarrow> 64 word \<Rightarrow> cliproxy_buffer \<Rightarrow> 'w process \<Rightarrow> 32 word \<times> cliproxy_buffer \<times> 'w process" where
  "call_host_api name body len buf p =
     (case StoredHost p of
        None \<Rightarrow> (1, buf, p)
      | Some host \<Rightarrow>
          (case HostCall host of
             None \<Rightarrow> (1, buf, p)
           | Some f \<Rightarrow>
               (case f name body len buf (Memory p, Outer p) of
                  (rc, buf', mem, w) \<Rightarrow> (rc, buf', p\<lparr> Memory := mem, Outer := w \<rparr>))))"

definition free_host_buffer :: "nat option \<Rightarrow> 64 word \<Rightarrow> 'w process \<Rightarrow> fault + 'w process" where
  "free_host_buffer ptr len p =
     (case (StoredHost p, ptr) of
        (Some host, Some a) \<Rightarrow>
          (case HostFree host of
             None \<Rightarrow> Inr p
           | Some f \<Rightarrow>
               (case f a len (Memory p, Outer p) of
                  Inl e \<Rightarrow> Inl e | Inr (mem, w) \<Rightarrow> Inr (p\<lparr> Memory := mem, Outer := w \<rparr>)))
      | _ \<Rightarrow> Inr p)"

subsection \<open>Calling the host\<close>

text \<open>\<open>C.free\<close> of a pointer that may be null.\<close>

definition c_free :: "nat option \<Rightarrow> c_memory \<Rightarrow> fault + c_memory" where
  "c_free ptr mem = (case ptr of None \<Rightarrow> Inr mem | Some a \<Rightarrow> free_block OfPlugin a mem)"

definition then_do :: "fault + 'a \<Rightarrow> ('a \<Rightarrow> fault + 'b) \<Rightarrow> fault + 'b" where
  "then_do r f = (case r of Inl e \<Rightarrow> Inl e | Inr x \<Rightarrow> f x)"

definition read_buffer :: "cliproxy_buffer \<Rightarrow> c_memory \<Rightarrow> fault + string" where
  "read_buffer b mem =
     (case BufPtr b of
        None \<Rightarrow> Inr []
      | Some a \<Rightarrow> if BufLen b > 0 then GoBytes a (C_int (BufLen b)) mem else Inr [])"

definition copy_request :: "string \<Rightarrow> c_memory \<Rightarrow> nat option \<times> c_memory" where
  "copy_request body mem = (if body = [] then (None, mem) else (case CBytes body mem of (a, mem1) \<Rightarrow> (Some a, mem1)))"

text \<open>The deferred calls free the request first, then the name. \<open>C.free_host_buffer\<close> is not called for
  a null pointer.\<close>

definition callHost_c ::
  "'w abi \<Rightarrow> string \<Rightarrow> obj \<Rightarrow> 'w process \<Rightarrow> fault + (string res \<times> 'w process)" where
  "callHost_c A name members p =
     (let body = encode (JObj members);
          (cMethod, mem1) = CString name (Memory p);
          (cRequest, mem2) = copy_request body mem1;
          (rc, buf, p1) = call_host_api cMethod cRequest (of_nat (length body)) empty_buffer (p\<lparr> Memory := mem2 \<rparr>)
      in then_do (read_buffer buf (Memory p1)) (\<lambda>raw.
         then_do (if BufPtr buf = None then Inr p1 else free_host_buffer (BufPtr buf) (BufLen buf) p1) (\<lambda>p2.
         then_do (c_free cRequest (Memory p2)) (\<lambda>mem3.
         then_do (c_free (Some cMethod) mem3) (\<lambda>mem4.
         Inr (read_answer A name (sint rc) raw, p2\<lparr> Memory := mem4 \<rparr>))))))"

subsection \<open>A host that keeps to the interface\<close>

text \<open>What the interface asks of the host: it reads the name and the request where they are, changes no
  block of the plugin, and answers with nothing or with a new block of its own, of less than two GiB,
  that \<open>free_buffer\<close> frees. \<open>answers\<close> is what it answers.\<close>

definition holds :: "c_memory \<Rightarrow> nat \<Rightarrow> string \<Rightarrow> bool" where
  "holds mem a s \<longleftrightarrow> (\<exists>owner. Live mem a = Some (owner, s))"

definition given :: "c_memory \<Rightarrow> string \<Rightarrow> cliproxy_buffer \<Rightarrow> c_memory \<Rightarrow> bool" where
  "given mem raw b mem' \<longleftrightarrow>
     wf_memory mem' \<and> NextAddr mem \<le> NextAddr mem' \<and>
     (case BufPtr b of
        None \<Rightarrow> raw = [] \<and> Live mem' = Live mem
      | Some a \<Rightarrow> Live mem a = None \<and> length raw < 2 ^ 31 \<and> BufLen b = of_nat (length raw) \<and>
          Live mem' = (Live mem)(a \<mapsto> (OfHost, raw)))"

definition polite_call ::
  "(string \<Rightarrow> string \<Rightarrow> 'w \<Rightarrow> (int \<times> string) \<times> 'w) \<Rightarrow>
   (nat \<Rightarrow> nat option \<Rightarrow> 64 word \<Rightarrow> cliproxy_buffer \<Rightarrow> c_memory \<times> 'w \<Rightarrow> 32 word \<times> cliproxy_buffer \<times> c_memory \<times> 'w) \<Rightarrow> bool" where
  "polite_call answers call \<longleftrightarrow>
     (\<forall>name body cm cr mem w.
        wf_memory mem \<longrightarrow> holds mem cm (name @ [NUL]) \<longrightarrow> holds mem cr body \<longrightarrow> length body < 2 ^ 64 \<longrightarrow>
        (case call cm (Some cr) (of_nat (length body)) empty_buffer (mem, w) of
           (rc, b, mem', w') \<Rightarrow>
             \<exists>raw. answers name body w = ((sint rc, raw), w') \<and> given mem raw b mem'))"

definition polite :: "(string \<Rightarrow> string \<Rightarrow> 'w \<Rightarrow> (int \<times> string) \<times> 'w) \<Rightarrow> 'w host_api \<Rightarrow> bool" where
  "polite answers host \<longleftrightarrow>
     (\<exists>call. HostCall host = Some call \<and> polite_call answers call) \<and>
     (\<exists>free. HostFree host = Some free \<and>
        (\<forall>a n mem w. free a n (mem, w) = then_do (free_block OfHost a mem) (\<lambda>mem'. Inr (mem', w))))"

lemma polite_callD:
  assumes "polite_call answers call" "wf_memory mem" "holds mem cm (name @ [NUL])" "holds mem cr body" "length body < 2 ^ 64"
    and "call cm (Some cr) (of_nat (length body)) empty_buffer (mem, w) = (rc, b, mem', w')"
  obtains raw where "answers name body w = ((sint rc, raw), w')" "given mem raw b mem'"
proof -
  have "case call cm (Some cr) (of_nat (length body)) empty_buffer (mem, w) of
      (rc, b, mem', w') \<Rightarrow> \<exists>raw. answers name body w = ((sint rc, raw), w') \<and> given mem raw b mem'"
    using assms(1-5) unfolding polite_call_def by (elim allE impE) assumption+
  then show thesis using that unfolding assms(6) by auto
qed

lemma then_do_simps [simp]: "then_do (Inr x) f = f x" "then_do (Inl e) f = Inl e"
  by (simp_all add: then_do_def)

lemma read_given:
  assumes "given mem raw b mem'"
  shows "read_buffer b mem' = Inr raw"
proof (cases "BufPtr b")
  case None
  with assms show ?thesis by (simp add: given_def read_buffer_def)
next
  case (Some a)
  with assms have a: "Live mem' a = Some (OfHost, raw)" "length raw < 2 ^ 31" "BufLen b = of_nat (length raw)"
    by (simp_all add: given_def)
  have "unat (BufLen b) = length raw"
    unfolding a(3) by (rule unat_size) (use a(2) in simp)
  then have "BufLen b > 0 \<longleftrightarrow> raw \<noteq> []" by (simp add: word_less_nat_alt)
  then show ?thesis
    using GoBytes_small [OF a(1,2)] Some a(3) by (simp add: read_buffer_def)
qed

lemma free_given:
  assumes "polite answers host" "StoredHost p = Some host" "given mem raw b (Memory p)"
  shows "\<exists>p'. (if BufPtr b = None then Inr p else free_host_buffer (BufPtr b) (BufLen b) p) = Inr p' \<and>
    Live (Memory p') = Live mem \<and> wf_memory (Memory p') \<and> Outer p' = Outer p \<and> StoredHost p' = StoredHost p"
proof (cases "BufPtr b")
  case None
  with assms(3) show ?thesis by (simp add: given_def)
next
  case (Some a)
  from assms(1) obtain free where free: "HostFree host = Some free"
    "\<And>a n mem w. free a n (mem, w) = then_do (free_block OfHost a mem) (\<lambda>mem'. Inr (mem', w))"
    by (auto simp: polite_def)
  have "Live (Memory p) = (Live mem)(a \<mapsto> (OfHost, raw))" "Live mem a = None" "wf_memory (Memory p)"
    using assms(3) Some by (simp_all add: given_def)
  then show ?thesis
    using Some assms(2) free by (auto simp: free_host_buffer_def wf_memory_def)
qed

text \<open>C39: with a host that keeps to the interface, the C code of \<open>callHost\<close> does what \<open>Host_Calls\<close> says
  of bytes, and afterwards exactly the blocks are live that were before: the two copies of the plugin
  and the response of the host are freed, once each and by their own allocator.\<close>

theorem call_host_memory:
  assumes "StoredHost p = Some host" "polite (CallC A) host" "wf_memory (Memory p)"
    and "length (encode (JObj members)) < 2 ^ 64"
  shows "\<exists>p'. callHost_c A name members p = Inr (fst (callHost A name members (Outer p)), p') \<and>
    Outer p' = snd (callHost A name members (Outer p)) \<and>
    Live (Memory p') = Live (Memory p) \<and> wf_memory (Memory p') \<and> StoredHost p' = StoredHost p"
proof -
  let ?body = "encode (JObj members)" and ?mem = "Memory p"
  let ?a = "NextAddr ?mem"
  obtain mem1 where m1: "malloc OfPlugin (name @ [NUL]) ?mem = (?a, mem1)"
    "Live mem1 = (Live ?mem)(?a \<mapsto> (OfPlugin, name @ [NUL]))" "NextAddr mem1 = Suc ?a" "wf_memory mem1"
    by (rule malloc_new [OF assms(3)])
  obtain mem2 where m2: "malloc OfPlugin ?body mem1 = (NextAddr mem1, mem2)"
    "Live mem2 = (Live mem1)(NextAddr mem1 \<mapsto> (OfPlugin, ?body))" "NextAddr mem2 = Suc (NextAddr mem1)" "wf_memory mem2"
    by (rule malloc_new [OF m1(4)])
  note m2 = m2 [unfolded m1(3)]
  have name_copy: "CString name ?mem = (?a, mem1)" using m1(1) by (simp add: CString_def)
  have body_copy: "copy_request ?body mem1 = (Some (Suc ?a), mem2)"
    using m2(1) by (simp add: copy_request_def CBytes_def encode_JObj)
  obtain call where call: "HostCall host = Some call" "polite_call (CallC A) call"
    using assms(2) by (auto simp: polite_def)
  obtain rc b mem3 w where ran: "call ?a (Some (Suc ?a)) (of_nat (length ?body)) empty_buffer (mem2, Outer p) = (rc, b, mem3, w)"
    by (metis prod_cases4)
  have "holds mem2 ?a (name @ [NUL])" "holds mem2 (Suc ?a) ?body"
    using m1(2) m2(2) by (simp_all add: holds_def del: encode.simps)
  then obtain raw where raw: "CallC A name ?body (Outer p) = ((sint rc, raw), w)" "given mem2 raw b mem3"
    using polite_callD [OF call(2) m2(4) _ _ assms(4) ran] by blast
  define p1 where "p1 = p\<lparr> Memory := mem3, Outer := w \<rparr>"
  have p1: "call_host_api ?a (Some (Suc ?a)) (of_nat (length ?body)) empty_buffer (p\<lparr> Memory := mem2 \<rparr>) = (rc, b, p1)"
    using assms(1) call(1) ran by (simp add: call_host_api_def p1_def del: encode.simps)
  have "StoredHost p1 = Some host" "given mem2 raw b (Memory p1)"
    using assms(1) raw(2) by (simp_all add: p1_def)
  from free_given [OF assms(2) this] obtain p2 where p2:
    "(if BufPtr b = None then Inr p1 else free_host_buffer (BufPtr b) (BufLen b) p1) = Inr p2"
    "Live (Memory p2) = Live mem2" "wf_memory (Memory p2)" "Outer p2 = w" "StoredHost p2 = StoredHost p"
    by (auto simp: p1_def)
  have dead: "Live ?mem ?a = None" "Live ?mem (Suc ?a) = None" using assms(3) by (simp_all add: wf_memory_def)
  define mem4 where "mem4 = (Memory p2)\<lparr> Live := (Live (Memory p2))(Suc ?a := None) \<rparr>"
  define mem5 where "mem5 = mem4\<lparr> Live := (Live mem4)(?a := None) \<rparr>"
  have frees: "c_free (Some (Suc ?a)) (Memory p2) = Inr mem4" "c_free (Some ?a) mem4 = Inr mem5"
    using p2(2) m2(2) m1(2) by (simp_all add: c_free_def mem4_def mem5_def)
  have "Live mem5 = Live ?mem"
    using p2(2) m2(2) m1(2) dead by (auto simp: mem4_def mem5_def)
  moreover have "wf_memory mem5" using p2(3) by (simp add: mem4_def mem5_def wf_free wf_memory_def)
  moreover have "read_buffer b (Memory p1) = Inr raw"
    using read_given [OF raw(2)] by (simp add: p1_def)
  then have "callHost_c A name members p = Inr (read_answer A name (sint rc) raw, p2\<lparr> Memory := mem5 \<rparr>)"
    by (simp add: callHost_c_def name_copy body_copy p1 p2(1) frees del: encode.simps split del: if_split)
  ultimately show ?thesis
    using raw(1) p2(4,5) by (simp add: callHost_def del: encode.simps)
qed

text \<open>Without a host, before the plugin is loaded or after it is shut down, a call of the host fails.\<close>

theorem call_without_host:
  assumes "StoredHost p = None" "wf_memory (Memory p)"
  shows "\<exists>p'. callHost_c A name members p =
      Inr (Inl (ErrorText (''host callback '' @ name @ '' returned 1 without a response'')), p') \<and>
    Live (Memory p') = Live (Memory p) \<and> Outer p' = Outer p"
proof -
  have "Itoa 1 = ''1''" by code_simp
  then have "?thesis" if "encode (JObj members) \<noteq> []"
    using assms that
    by (auto simp: callHost_c_def CString_def CBytes_def copy_request_def malloc_def call_host_api_def read_buffer_def
        empty_buffer_def c_free_def read_answer_def wf_memory_def free_block_def fun_eq_iff Let_def
        simp del: encode.simps)
  then show ?thesis by (simp add: encode_JObj)
qed

text \<open>A host that answers every call with two bytes.\<close>

definition two_byte_host :: "unit host_api" where
  "two_byte_host =
     \<lparr> HostVersion = 1,
       HostCall = Some (\<lambda>cm cr n b (mem, w). case malloc OfHost ''{}'' mem of
         (a, mem') \<Rightarrow> (0, \<lparr> BufPtr = Some a, BufLen = 2 \<rparr>, mem', w)),
       HostFree = Some (\<lambda>a n (mem, w). then_do (free_block OfHost a mem) (\<lambda>mem'. Inr (mem', w))) \<rparr>"

definition two_byte_abi :: "unit abi" where
  "two_byte_abi = silent_abi\<lparr> CallC := (\<lambda>name body w. ((0, ''{}''), w)),
     ReadEnvelope := (\<lambda>raw. Some \<lparr> EnvOK = True, EnvError = None, EnvResult = raw \<rparr>) \<rparr>"

definition loaded :: "unit process" where
  "loaded = \<lparr> StoredHost = Some two_byte_host, Memory = \<lparr> Live = Map.empty, NextAddr = 1 \<rparr>, Outer = () \<rparr>"

lemma two_byte_polite: "polite (CallC two_byte_abi) two_byte_host"
  unfolding polite_def polite_call_def
proof (intro conjI)
  have "given mem ''{}'' \<lparr> BufPtr = Some (NextAddr mem), BufLen = 2 \<rparr> (snd (malloc OfHost ''{}'' mem))"
    if "wf_memory mem" for mem
    using that by (simp add: given_def malloc_def wf_memory_def)
  then show "\<exists>call. HostCall two_byte_host = Some call \<and> (\<forall>name body cm cr mem w.
      wf_memory mem \<longrightarrow> holds mem cm (name @ [NUL]) \<longrightarrow> holds mem cr body \<longrightarrow> length body < 2 ^ 64 \<longrightarrow>
      (case call cm (Some cr) (of_nat (length body)) empty_buffer (mem, w) of
         (rc, b, mem', w') \<Rightarrow> \<exists>raw. CallC two_byte_abi name body w = ((sint rc, raw), w') \<and> given mem raw b mem'))"
    by (simp add: two_byte_host_def two_byte_abi_def malloc_def)
qed (simp add: two_byte_host_def)

theorem call_host_memory_witness:
  "\<exists>p'. callHost_c two_byte_abi ''do'' [] loaded = Inr (Inr ''{}'', p') \<and> Live (Memory p') = Map.empty"
proof -
  have "StoredHost loaded = Some two_byte_host" "wf_memory (Memory loaded)" "length (encode (JObj [])) < 2 ^ 64"
    by (simp_all add: loaded_def wf_memory_def)
  from call_host_memory [where A = two_byte_abi and name = "''do''", OF this(1) two_byte_polite this(2,3)]
  moreover have "fst (callHost two_byte_abi ''do'' [] (Outer loaded)) = Inr ''{}''"
    by (simp add: callHost_def two_byte_abi_def read_answer_def)
  moreover have "Live (Memory loaded) = Map.empty" by (simp add: loaded_def)
  ultimately show ?thesis by metis
qed

subsection \<open>Being called\<close>

text \<open>\<open>cliproxy_plugin_api\<close>, the table the plugin fills in; its functions are the exported ones.\<close>

datatype plugin_entry = PluginCallEntry | PluginFreeEntry | PluginShutdownEntry

record plugin_api =
  ApiVersion :: "32 word"
  ApiCall :: "plugin_entry option"
  ApiFree :: "plugin_entry option"
  ApiShutdown :: "plugin_entry option"

definition cliproxy_plugin_init ::
  "32 word \<Rightarrow> 'w host_api option \<Rightarrow> plugin_api option \<Rightarrow> 'w process \<Rightarrow> int \<times> plugin_api option \<times> 'w process" where
  "cliproxy_plugin_init abiVersion host table p =
     (case (host, table) of
        (Some h, Some t) \<Rightarrow>
          if HostVersion h \<noteq> abiVersion then (1, table, p)
          else (0, Some (t\<lparr> ApiVersion := abiVersion, ApiCall := Some PluginCallEntry, ApiFree := Some PluginFreeEntry,
                            ApiShutdown := Some PluginShutdownEntry \<rparr>), store_host_api h p)
      | _ \<Rightarrow> (1, table, p))"

definition writeResponse :: "cliproxy_buffer option \<Rightarrow> string \<Rightarrow> c_memory \<Rightarrow> cliproxy_buffer option \<times> c_memory" where
  "writeResponse buf raw mem =
     (if buf = None \<or> raw = [] then (buf, mem)
      else (case CBytes raw mem of (a, mem') \<Rightarrow> (Some \<lparr> BufPtr = Some a, BufLen = of_nat (length raw) \<rparr>, mem')))"

definition request_bytes :: "nat option \<Rightarrow> 64 word \<Rightarrow> c_memory \<Rightarrow> fault + string" where
  "request_bytes ptr len mem =
     (case ptr of None \<Rightarrow> Inr [] | Some a \<Rightarrow> if len > 0 then GoBytes a (C_int len) mem else Inr [])"

text \<open>The entry point on memory: the return code, the response buffer (\<open>None\<close> when the host gives none) and
  the memory. The calls of the host that \<open>handleMethod\<close> makes leave the memory as it was, by the
  theorem above.\<close>

definition cliproxyPluginCall_c ::
  "('w, 'x, 'g) plugin \<Rightarrow> nat option \<Rightarrow> nat option \<Rightarrow> 64 word \<Rightarrow> cliproxy_buffer option \<Rightarrow> c_memory \<Rightarrow> 'w machine \<Rightarrow>
   ((fault + int \<times> cliproxy_buffer option \<times> c_memory) \<times> pump_job option \<times> 'w machine) option" where
  "cliproxyPluginCall_c P cname ptr len buf mem m =
     (let buf0 = map_option (\<lambda>_. empty_buffer) buf in
      case cname of
        None \<Rightarrow>
          Some (Inr (1, writeResponse buf0 (errorEnvelope P ''invalid_method'' ''method is required'' 0 False) mem), None, m)
      | Some c \<Rightarrow>
          (case then_do (request_bytes ptr len mem) (\<lambda>body. then_do (GoString c mem) (\<lambda>name. Inr (name, body))) of
             Inl e \<Rightarrow> Some (Inl e, None, m)
           | Inr (name, body) \<Rightarrow>
               map_option (\<lambda>(r, job, m1).
                   ((case r of
                       Inl e \<Rightarrow> Inl (GoPanic e)
                     | Inr (raw, failed) \<Rightarrow> Inr (if failed then 1 else 0, writeResponse buf0 raw mem)), job, m1))
                 (handleMethod P name body m)))"

definition cliproxyPluginFree :: "nat option \<Rightarrow> 64 word \<Rightarrow> c_memory \<Rightarrow> fault + c_memory" where
  "cliproxyPluginFree ptr len mem = (case ptr of None \<Rightarrow> Inr mem | Some a \<Rightarrow> free_block OfPlugin a mem)"

text \<open>The exported shutdown: the service first, then the host pointer.\<close>

definition shutdown_entry :: "('w, 'x, 'g) plugin \<Rightarrow> 'w process \<times> 'w machine \<Rightarrow> 'w process \<times> 'w machine" where
  "shutdown_entry P s = (case s of (p, m) \<Rightarrow> (clear_host_api p, cliproxyPluginShutdown P m))"

text \<open>C40: the plugin's answer in memory. The name and the request are read where the host has put them; the
  response is a new block that holds exactly the bytes of the answer; the host gives it back with
  \<open>cliproxyPluginFree\<close>, once, and then the memory is as it was before the call.\<close>

theorem plugin_call_memory:
  assumes "wf_memory mem" "Live mem c = Some (owner1, name @ NUL # rest)" "NUL \<notin> set name"
    and "Live mem q = Some (owner2, body)" "body \<noteq> []" "length body < 2 ^ 31"
    and "cliproxyPluginCall P (Some name) (Some body) m = Some (Inr (rc, raw), job, m')" "raw \<noteq> []" "length raw < 2 ^ 64"
  shows "\<exists>a n mem1 mem2.
    cliproxyPluginCall_c P (Some c) (Some q) (of_nat (length body)) (Some buf) mem m =
      Some (Inr (rc, Some \<lparr> BufPtr = Some a, BufLen = n \<rparr>, mem1), job, m') \<and>
    Live mem a = None \<and> read_block a (unat n) mem1 = Inr raw \<and>
    cliproxyPluginFree (Some a) n mem1 = Inr mem2 \<and> Live mem2 = Live mem \<and>
    cliproxyPluginFree (Some a) n mem2 = Inl FreeFault"
proof -
  let ?a = "NextAddr mem"
  obtain mem1 where mem1: "malloc OfPlugin raw mem = (?a, mem1)" "Live mem1 = (Live mem)(?a \<mapsto> (OfPlugin, raw))"
    by (rule malloc_new [OF assms(1)])
  have read: "request_bytes (Some q) (of_nat (length body)) mem = Inr body"
  proof -
    have "unat (of_nat (length body) :: 64 word) = length body" using assms(6) by (simp add: unat_size)
    then have "(of_nat (length body) :: 64 word) > 0" using assms(5) by (simp add: word_less_nat_alt)
    then show ?thesis using GoBytes_small [OF assms(4,6)] by (simp add: request_bytes_def)
  qed
  obtain r where "handleMethod P name body m = Some (r, job, m')"
    "(case r of Inl e \<Rightarrow> Inl e | Inr (raw, failed) \<Rightarrow> Inr (if failed then 1 else 0, raw)) = Inr (rc, raw)"
    using assms(7) by (auto simp: cliproxyPluginCall_def)
  then obtain failed where handled: "handleMethod P name body m = Some (Inr (raw, failed), job, m')" "rc = (if failed then 1 else 0)"
    by (auto split: sum.splits)
  have "cliproxyPluginCall_c P (Some c) (Some q) (of_nat (length body)) (Some buf) mem m =
      Some (Inr (rc, Some \<lparr> BufPtr = Some ?a, BufLen = of_nat (length raw) \<rparr>, mem1), job, m')"
    using handled assms(8) mem1(1)
    by (simp add: cliproxyPluginCall_c_def read GoString_CString [OF assms(2,3)] writeResponse_def CBytes_def)
  moreover have "read_block ?a (unat (of_nat (length raw) :: 64 word)) mem1 = Inr raw"
    unfolding unat_size [OF assms(9)] by (rule read_whole) (simp add: mem1(2))
  moreover have "Live mem ?a = None" by (rule wf_fresh [OF assms(1)])
  ultimately show ?thesis
    using mem1(2) by (intro exI [of _ ?a] exI [of _ "of_nat (length raw)"] exI [of _ mem1]
        exI [of _ "mem1\<lparr> Live := (Live mem1)(?a := None) \<rparr>"]) (auto simp: cliproxyPluginFree_def)
qed

definition called :: c_memory where
  "called = \<lparr> Live = [1 \<mapsto> (OfHost, ''auth_id'' @ [NUL]), 2 \<mapsto> (OfHost, ''{}'')], NextAddr = 3 \<rparr>"

definition identified :: string where
  \<open>identified = ''{"identifier":"copilot"}''\<close>

lemma identified_answer:
  "cliproxyPluginCall sample_plugin (Some ''auth_id'') (Some ''{}'') m = Some (Inr (0, identified), None, m)"
proof -
  have "encode (JObj [(''identifier'', JStr ''copilot'')]) = identified" by code_simp
  then show ?thesis
    by (simp add: cliproxyPluginCall_def handleMethod_def dispatch_def sample_plugin_def Let_def answer_def okEnvelope_def
        marshal_result_def del: encode.simps)
qed

theorem plugin_call_memory_witness:
  "\<exists>a n mem1. Live called a = None \<and> read_block a (unat n) mem1 = Inr identified \<and>
    fst (the (cliproxyPluginCall_c sample_plugin (Some 1) (Some 2) 2 (Some empty_buffer) called
      \<lparr> svc = New, world = [], calls = [] \<rparr>)) = Inr (0, Some \<lparr> BufPtr = Some a, BufLen = n \<rparr>, mem1)"
proof -
  have "wf_memory called" "Live called 1 = Some (OfHost, ''auth_id'' @ NUL # [])" "NUL \<notin> set ''auth_id''"
    "Live called 2 = Some (OfHost, ''{}'')"
    by (simp_all add: called_def wf_memory_def NUL_def)
  moreover have "identified \<noteq> []" "length identified < 2 ^ 64" by (simp_all add: identified_def)
  ultimately obtain a n mem1 where
    "cliproxyPluginCall_c sample_plugin (Some 1) (Some 2) (of_nat (length ''{}'')) (Some empty_buffer) called
      \<lparr> svc = New, world = [], calls = [] \<rparr> =
      Some (Inr (0, Some \<lparr> BufPtr = Some a, BufLen = n \<rparr>, mem1), None, \<lparr> svc = New, world = [], calls = [] \<rparr>)"
    "Live called a = None" "read_block a (unat n) mem1 = Inr identified"
    using plugin_call_memory [of called 1 OfHost "''auth_id''" "[]" 2 OfHost "''{}''" sample_plugin
        "\<lparr> svc = New, world = [], calls = [] \<rparr>" 0 identified None "\<lparr> svc = New, world = [], calls = [] \<rparr>" empty_buffer]
      identified_answer by auto
  then show ?thesis by auto
qed

text \<open>A request of two GiB or more does not arrive whole: its length is cut to 32 bits.\<close>

theorem long_request_cut:
  assumes "Live mem a = Some (owner, body)" "2 ^ 31 \<le> length body" "length body < 2 ^ 64"
  shows "request_bytes (Some a) (of_nat (length body)) mem \<noteq> Inr body"
proof (cases "length body mod 2 ^ 32 < 2 ^ 31")
  case True
  have "length (take (length body mod 2 ^ 32) body) \<noteq> length body" using True assms(2) by auto
  then have "take (length body mod 2 ^ 32) body \<noteq> body" by metis
  with assms GoBytes_width [OF assms(1,3)] True show ?thesis by (auto simp: request_bytes_def)
next
  case False
  with assms GoBytes_width [OF assms(1,3)] show ?thesis by (auto simp: request_bytes_def)
qed

text \<open>Loading: the plugin takes the host exactly when there is a host and a table and the versions agree.\<close>

theorem plugin_loads:
  "fst (cliproxy_plugin_init v host table p) = 0 \<longleftrightarrow> (\<exists>h t. host = Some h \<and> table = Some t \<and> HostVersion h = v)"
  by (auto simp: cliproxy_plugin_init_def split: option.splits)

end
