(* ===== verification/Spec2Isabelle.thy ===== *)
theory Spec2Isabelle
  imports Sse Claude_Stream_Facts OpenAI_Stream_Facts Routing Stream_Pump OAuth Token_Count Plugin Relay C_Boundary
begin

text \<open>
  Verification of the CLIProxyAPI Copilot plugin.

  The plugin lets clients that speak the Claude Messages, the OpenAI Responses or the Chat
  Completions protocol use the Copilot API. A request is translated into the format of an
  upstream endpoint, the answer (one JSON body, or a stream of server-sent events) is translated
  back.

  \<^bold>\<open>Foundations.\<close> \<open>Prelude\<close> (Go errors as values, maps as association lists), \<open>Go_Strings\<close> (the
  packages strings, bytes and strconv on byte strings), \<open>Go_Json\<close> and \<open>Go_Json_Roundtrip\<close>
  (encoding/json: decoder, encoder, and that decoding undoes encoding), \<open>Go_Float\<close> (float64
  numbers through JSON), \<open>Values\<close> (the accessors at the end of claude_responses.go).

  \<^bold>\<open>Server-sent events.\<close> \<open>Sse\<close> models internal/sse/decoder.go (\<open>Feed\<close>, \<open>Flush\<close>, \<open>frameEnd\<close>) and
  shows that its frames do not depend on how the input is cut into chunks. \<open>Sse_Frame\<close> models
  parseSSEFrame, claudeSSE and the block keys of claude_responses_stream.go.

  \<^bold>\<open>Translation\<close> (internal/translate). \<open>Claude_Request\<close> and \<open>Responses_Claude\<close> are
  claude_responses.go, \<open>OpenAI_Response\<close> is openai_responses.go. The streams share the contract of
  the locale \<open>stream_simulation\<close> in \<open>Streams\<close>: a translator whose state simulates an automaton of
  the client emits only event sequences that automaton accepts. \<open>Claude_Stream\<close> (with
  \<open>Claude_Protocol\<close>, \<open>Claude_Stream_Facts\<close>) is claude_responses_stream.go, \<open>OpenAI_Stream\<close> (with
  \<open>Chat_Protocol\<close>, \<open>OpenAI_Stream_Facts\<close>) is openai_responses_stream.go, and
  \<open>Claude_OpenAI_Stream\<close> is claude_openai_stream.go. \<open>Routing\<close> is translate.go.

  \<^bold>\<open>Provider\<close> (internal/provider, internal/redact, internal/transport). \<open>Go_Time\<close>, \<open>Go_Struct\<close> and
  \<open>Go_Base64\<close> are what the code uses of time, of decoding into structs, and of byte strings in JSON.
  \<open>Transport\<close> is the interface to the host; what lies outside is a parameter: \<open>lib\<close> (url.Parse, SHA-256,
  the texts of library errors) and \<open>outside\<close> (the host, the clock, random bytes). \<open>Redact\<close> is redact.go,
  \<open>Config\<close> config.go, \<open>Service\<close> errors.go and service.go. A handler runs on a \<open>machine\<close>: the service, the
  world, and the history of its calls, which only the properties read. The mutexes are sections (\<open>locked\<close>);
  before each of them the other goroutines may change the service in any way (\<open>Others\<close>). \<open>Storage\<close> is
  storage.go; \<open>Token\<close> is token.go, the cache with one exchange per key at a time; \<open>Models\<close> is
  models.go; \<open>Executor\<close> with \<open>Stream_Pump\<close> is executor.go, where the goroutine of a stream is a job that
  \<open>run_job\<close> runs; \<open>OAuth\<close> is oauth.go; \<open>Token_Count\<close> is token_count.go over the parameters \<open>gjson\<close> and the
  tokenizer. \<open>Single_Owner\<close> is the contract of an operation with one owner per key (locale
  \<open>single_owner\<close>), interpreted on the token flights (\<open>Token\<close>) and on the polls of a login (\<open>OAuth\<close>).

  \<^bold>\<open>Plugin\<close> (cmd/cliproxyapi-copilot). \<open>Host_Calls\<close> is host.go with callHost of main.go: what the host is
  handed and when its answers are believed. \<open>Dispatch\<close> is dispatch.go with the entry points of main.go:
  one call of the host from the bytes of the request to the bytes of the answer. \<open>Outgoing\<close> has a
  calculus for invariants of handlers (\<open>keeps\<close>) and the locale \<open>service_contract\<close>, in which every
  handler is shown to keep an invariant of the service and to make allowed calls only; the
  interpretation \<open>origins\<close> is the invariant that the configuration is one that was accepted and that GitHub
  issued every cached token for a validated base URL. \<open>Plugin\<close> composes all of
  it: \<open>plugin_reach\<close> is what any sequence of calls, goroutines and shutdowns can lead to.

  \<open>C_Memory\<close> and \<open>C_Boundary\<close> are the C side of main.go: blocks of memory with their owner, the stored
  pointer to the host, and the copies that go both ways; \<open>call_host_memory\<close> shows that they refine
  \<open>Host_Calls\<close> and leave no block behind. \<open>Relay\<close> puts the stream translators into the pump: the locale
  \<open>frame_translator\<close> is the interface between the two, interpreted on the three translators of the package.
  \<open>Json_Wf\<close> shows that what the JSON decoder and the accessors return can be printed and read back (valid
  UTF-8, number literals, bounded nesting), \<open>Float_Wf\<close> the same after numbers went through float64.
  \<open>Wire\<close> reads printed frames back and has the locale \<open>stream_output\<close>; \<open>Claude_Wire\<close>, \<open>Chat_Wire\<close> and
  \<open>Claude_Chat_Wire\<close> interpret it on the translators: what they emit is what the client decodes, for
  every upstream.

  \<^bold>\<open>What the properties show.\<close> Translation: the texts, thoughts and tool calls of a conversation arrive
  in order, the streams are accepted by the automaton of their client, errors are reported; for the
  Responses endpoint, and for a Messages endpoint that announces its tool blocks, this is
  shown from the bytes of the upstream to the events the client decodes from the bytes it gets
  (\<open>Relay\<close>; the name of the model has to be valid UTF-8), for a finished request from
  the client's body to the upstream's answer and back (\<open>execute_relays\<close>; \<open>routed_request_read\<close> and
  \<open>completion_served\<close> show what is decoded at both ends). Frames do not depend on
  chunks. Encodings are read back, up to the rounding of numbers to float64 in tool arguments. At most
  one exchange or poll is under way. A request is sent again once at most. A Copilot token goes only
  to the API base GitHub issued it for, and the requests to GitHub to the URLs of an accepted configuration
  (\<open>plugin_requests_safe\<close>; \<open>http_stays_on_origin\<close> for the raw call). A secret is redacted unless it
  overlaps the mark (\<open>redact_mark_overlap\<close>).

  \<^bold>\<open>Bounds.\<close> The JSON scanner refuses more than 10000 nested values (\<open>max_depth\<close>). Functions are
  total, loops over a buffer or a string end because the rest of the input gets shorter, with three
  exceptions. The two loops that read a stream until the host says it is done (\<open>collect_loop\<close>,
  \<open>pump_loop\<close>) are partial: \<open>None\<close> is a stream that never ends; \<open>pump_stream_output\<close> shows the pump ends
  with the stream. The token counter recurses over values of another library and has a fuel; two more
  than the length of the request is enough (\<open>token_segments_total\<close>), and \<open>token_fuel\<close> is that. The
  printing of a float64 tries up to 17 digits, which tell all binary64 values apart; the properties
  use of the digits \<open>shortest\<close> gives only that they are those of a positive number.

  \<^bold>\<open>Not modelled.\<close> The SDK (method names, request types, envelopes), gjson, the tokenizer, yaml and the
  official translators are parameters. Allocation of C memory does not fail, and a shutdown in the middle
  of a call of the host (which would clear the pointer to it) is not modelled. A handler is a function, so
  that it returns is no theorem about the code: waiting for a mutex, for the exchange of another caller or
  for the host is one step with an answer, and a panic is an error value (\<open>Panic\<close>). Lowering and folding
  of case know the ASCII letters and the runes that lower or fold to one; other letters beyond ASCII are
  left as they are (\<open>ToLower\<close>, \<open>EqualFold\<close>). A context that is cancelled is an answer of the host. The order of Go maps is a parameter where it is visible. What the
  map leaves out of the sources is imports, comments, blank lines and the constants that are written
  out where they are used.
\<close>

end
